(* ===== verification/Prelude.thy ===== *)
theory Prelude
  imports Main "HOL-Library.Word"
begin

text \<open>
  Shared vocabulary of the development: the fixed-width integer types of the code, the
  ways a C++ operation can fault, the sum type used for results, and the list operations
  behind \<open>std::find_if\<close>, \<open>erase\<close> and "update the element an iterator points to",
  with the lemmas every component uses about them.
\<close>

unbundle bit_operations_syntax

section \<open>Integers, faults and results\<close>

type_synonym u8 = "8 word"
type_synonym u16 = "16 word"
type_synonym u32 = "32 word"
type_synonym byte = "8 word"
type_synonym bytes = "8 word list"

text \<open>
  The ways the modelled code can stop abnormally: the exceptions of \<open>std::stoll\<close> and
  \<open>std::stoi\<close>, the exception of the \<open>std::regex\<close> constructor, the exception of
  \<open>std::map::at\<close>, a failed \<open>UT_Assert\<close>, and the undefined behaviours the code can
  reach: a read outside a vector, a call through a null pointer.
\<close>

datatype fault =
    InvalidArgument
  | OutOfRange
  | RegexError
  | KeyMissing
  | AssertionFailed
  | OutOfBounds
  | NullDeref
  | JsonError

type_synonym 'a res = "fault + 'a"

definition bindE :: "'a res \<Rightarrow> ('a \<Rightarrow> 'b res) \<Rightarrow> 'b res" where
  "bindE r f = (case r of Inl e \<Rightarrow> Inl e | Inr x \<Rightarrow> f x)"

lemma bindE_simps [simp]: "bindE (Inl e) f = Inl e" "bindE (Inr x) f = f x"
  by (simp_all add: bindE_def)

lemma bindE_Inr_iff: "bindE r f = Inr y \<longleftrightarrow> (\<exists>x. r = Inr x \<and> f x = Inr y)"
  by (cases r) simp_all

lemma bindE_assoc: "bindE (bindE r f) g = bindE r (\<lambda>x. bindE (f x) g)"
  by (cases r) simp_all

lemma bindE_return [simp]: "bindE r Inr = r"
  by (cases r) simp_all

definition mapE :: "('a \<Rightarrow> 'b) \<Rightarrow> 'a res \<Rightarrow> 'b res" where
  "mapE f r = (case r of Inl e \<Rightarrow> Inl e | Inr x \<Rightarrow> Inr (f x))"

lemma mapE_simps [simp]: "mapE f (Inl e) = Inl e" "mapE f (Inr x) = Inr (f x)"
  by (simp_all add: mapE_def)

lemma mapE_Inr_iff: "mapE f r = Inr y \<longleftrightarrow> (\<exists>x. r = Inr x \<and> f x = y)"
  by (cases r) auto

text \<open>A loop whose body can fault: the first fault ends it.\<close>

fun foldE :: "('a \<Rightarrow> 's \<Rightarrow> 's res) \<Rightarrow> 'a list \<Rightarrow> 's \<Rightarrow> 's res" where
  "foldE f [] s = Inr s"
| "foldE f (x # xs) s = bindE (f x s) (foldE f xs)"

lemma foldE_append: "foldE f (xs @ ys) s = bindE (foldE f xs s) (foldE f ys)"
  by (induction xs arbitrary: s) (simp_all add: bindE_def split: sum.split)

lemma foldE_invariant:
  "foldE f xs s = Inr t \<Longrightarrow> P s \<Longrightarrow> (\<And>x s t. x \<in> set xs \<Longrightarrow> f x s = Inr t \<Longrightarrow> P s \<Longrightarrow> P t) \<Longrightarrow> P t"
proof (induction xs arbitrary: s)
  case (Cons x xs)
  obtain u where u: "f x s = Inr u" "foldE f xs u = Inr t" using Cons.prems(1) by (auto simp: bindE_Inr_iff)
  have "P u" using Cons.prems(3) [of x s u] u(1) Cons.prems(2) by simp
  then show ?case by (rule Cons.IH [OF u(2)]) (rule Cons.prems(3) [OF list.set_intros(2)])
qed simp

text \<open>A signed value survives the cast to the unsigned type of its width and back.\<close>

lemma sint_word_of_int [simp]:
  "- (2 ^ 7) \<le> i \<Longrightarrow> i < 2 ^ 7 \<Longrightarrow> sint (word_of_int i :: u8) = i"
  "- (2 ^ 15) \<le> i \<Longrightarrow> i < 2 ^ 15 \<Longrightarrow> sint (word_of_int i :: u16) = i"
  "- (2 ^ 31) \<le> i \<Longrightarrow> i < 2 ^ 31 \<Longrightarrow> sint (word_of_int i :: u32) = i"
  by (simp_all add: sint_sbintrunc' signed_take_bit_int_eq_self)

lemma sint_u8: "sint (x :: u8) = (if unat x < 128 then int (unat x) else int (unat x) - 256)"
proof -
  have shift: "(u + 128) mod 256 = (if u < 128 then u + 128 else u - 128)" if "0 \<le> u" "u < 256" for u :: int
  proof (cases "u < 128")
    case False
    then have "(u - 128) mod 256 = u - 128" using that by (intro mod_pos_pos_trivial) simp_all
    then show ?thesis using mod_add_self2 [of "u - 128" 256] False by (simp add: add.commute)
  qed (use that in simp)
  define n where "n = int (unat x)"
  have "uint x = n" "0 \<le> n" "n < 256" using unsigned_less [of x, where 'a = int] by (simp_all add: n_def)
  moreover have "sint x = (uint x + 128) mod 256 - 128"
    by (simp add: sint_uint signed_take_bit_eq_take_bit_shift take_bit_eq_mod)
  ultimately have "sint x = (if n < 128 then n else n - 256)" using shift [of n] by simp
  moreover have "n < 128 \<longleftrightarrow> unat x < 128" unfolding n_def by linarith
  ultimately show ?thesis unfolding n_def by simp
qed

lemma unat_byte: "n < 256 \<Longrightarrow> unat (word_of_nat n :: u8) = n"
  by (simp add: unat_of_nat take_bit_nat_eq_self)

section \<open>Vectors and iterators\<close>

text \<open>\<open>std::find_if\<close> as a position; the length of the list is \<open>end()\<close>.\<close>

fun find_pos :: "('a \<Rightarrow> bool) \<Rightarrow> 'a list \<Rightarrow> nat" where
  "find_pos P [] = 0"
| "find_pos P (x # xs) = (if P x then 0 else Suc (find_pos P xs))"

text \<open>\<open>it = find_if(...); if (it != end()) *it = f(*it)\<close>.\<close>

fun update_first :: "('a \<Rightarrow> bool) \<Rightarrow> ('a \<Rightarrow> 'a) \<Rightarrow> 'a list \<Rightarrow> 'a list" where
  "update_first P f [] = []"
| "update_first P f (x # xs) = (if P x then f x # xs else x # update_first P f xs)"

text \<open>\<open>it = find_if(...); if (it != end()) erase(it)\<close>.\<close>

fun erase_first :: "('a \<Rightarrow> bool) \<Rightarrow> 'a list \<Rightarrow> 'a list" where
  "erase_first P [] = []"
| "erase_first P (x # xs) = (if P x then xs else x # erase_first P xs)"

lemma find_pos_le [simp]: "find_pos P xs \<le> length xs"
  by (induction xs) auto

lemma find_pos_less_iff [simp]: "find_pos P xs < length xs \<longleftrightarrow> (\<exists>x \<in> set xs. P x)"
  by (induction xs) auto

lemma find_pos_eq_length_iff [simp]: "find_pos P xs = length xs \<longleftrightarrow> (\<forall>x \<in> set xs. \<not> P x)"
  by (induction xs) auto

lemma find_pos_sound: "\<exists>x \<in> set xs. P x \<Longrightarrow> P (xs ! find_pos P xs)"
  by (induction xs) auto

lemma find_pos_first: "i < find_pos P xs \<Longrightarrow> \<not> P (xs ! i)"
proof (induction xs arbitrary: i)
  case (Cons x xs)
  then show ?case by (cases i) (auto split: if_splits)
qed simp

lemma find_pos_first_nth: "distinct xs \<Longrightarrow> i < length xs \<Longrightarrow> find_pos (\<lambda>x. x = xs ! i) xs = i"
proof (induction xs arbitrary: i)
  case (Cons x xs)
  then show ?case by (cases i) (auto simp: nth_eq_iff_index_eq)
qed simp

lemma find_pos_append:
  "find_pos P (xs @ ys) =
     (if \<exists>x \<in> set xs. P x then find_pos P xs else length xs + find_pos P ys)"
  by (induction xs) auto

lemma take_find_pos: "take (find_pos P xs) xs = takeWhile (\<lambda>x. \<not> P x) xs"
  by (induction xs) auto

lemma drop_find_pos: "drop (find_pos P xs) xs = dropWhile (\<lambda>x. \<not> P x) xs"
  by (induction xs) auto

lemma length_update_first [simp]: "length (update_first P f xs) = length xs"
  by (induction xs) auto

lemma update_first_id [simp]: "\<forall>x \<in> set xs. \<not> P x \<Longrightarrow> update_first P f xs = xs"
  by (induction xs) auto

lemma map_update_first: "(\<And>x. g (f x) = g x) \<Longrightarrow> map g (update_first P f xs) = map g xs"
  by (induction xs) auto

lemma in_update_firstD:
  "y \<in> set (update_first P f xs) \<Longrightarrow> y \<in> set xs \<or> (\<exists>x \<in> set xs. P x \<and> y = f x)"
  by (induction xs) (auto split: if_splits)

lemma find_update_first:
  assumes "\<And>x. P x \<Longrightarrow> P (f x)"
  shows "List.find P (update_first P f xs) = map_option f (List.find P xs)"
  by (induction xs) (auto simp: assms)

lemma find_update_first_other:
  assumes "\<And>x. P x \<Longrightarrow> \<not> Q x" "\<And>x. P x \<Longrightarrow> \<not> Q (f x)"
  shows "List.find Q (update_first P f xs) = List.find Q xs"
  using assms by (induction xs) auto

lemma find_append:
  "List.find P (xs @ ys) = (case List.find P xs of None \<Rightarrow> List.find P ys | Some x \<Rightarrow> Some x)"
  by (induction xs) auto

lemma set_erase_first: "set (erase_first P xs) \<subseteq> set xs"
  by (induction xs) auto

lemma erase_first_id [simp]: "\<forall>x \<in> set xs. \<not> P x \<Longrightarrow> erase_first P xs = xs"
  by (induction xs) auto

lemma erase_first_append:
  "\<forall>x \<in> set xs. \<not> P x \<Longrightarrow> P y \<Longrightarrow> erase_first P (xs @ y # ys) = xs @ ys"
  by (induction xs) auto

lemma distinct_map_erase_first: "distinct (map g xs) \<Longrightarrow> distinct (map g (erase_first P xs))"
proof (induction xs)
  case (Cons x xs)
  then show ?case using set_erase_first [of P xs] by auto
qed simp

lemma length_erase_first:
  "length (erase_first P xs) = (if \<exists>x \<in> set xs. P x then length xs - 1 else length xs)"
proof (induction xs)
  case (Cons x xs)
  then show ?case by (cases xs) auto
qed simp

lemma erase_first_distinct:
  "distinct (map g xs) \<Longrightarrow> erase_first (\<lambda>x. g x = k) xs = filter (\<lambda>x. g x \<noteq> k) xs"
proof (induction xs)
  case (Cons x xs)
  show ?case
  proof (cases "g x = k")
    case True
    then have "\<forall>y \<in> set xs. g y \<noteq> k" using Cons.prems by (auto simp: image_iff)
    then have "filter (\<lambda>y. g y \<noteq> k) xs = xs" by simp
    with True show ?thesis by simp
  next
    case False
    with Cons show ?thesis by simp
  qed
qed simp

lemma map_of_rev_distinct: "distinct (map fst xs) \<Longrightarrow> map_of (rev xs) = map_of xs"
proof (induction xs)
  case (Cons x xs)
  then have "map_of xs (fst x) = None" by (simp add: map_of_eq_None_iff)
  with Cons show ?case by (cases x) (auto simp: fun_eq_iff map_add_def split: option.splits)
qed simp

text \<open>A \<open>char\<close> and the byte it is stored as.\<close>

definition byte_of_char :: "char \<Rightarrow> byte" where
  "byte_of_char c = word_of_nat (of_char c)"

definition char_of_byte :: "byte \<Rightarrow> char" where
  "char_of_byte b = char_of (unat b)"

lemma unat_byte_of_char: "unat (byte_of_char c) = of_char c"
  by (simp add: byte_of_char_def unat_of_nat)

lemma char_of_byte_of_char [simp]: "char_of_byte (byte_of_char c) = c"
  by (simp add: char_of_byte_def unat_byte_of_char)

lemma byte_of_char_of_byte [simp]: "byte_of_char (char_of_byte b) = b"
proof -
  have "unat b < 256" using unsigned_less [of b, where 'a = nat] by simp
  then show ?thesis by (simp add: byte_of_char_def char_of_byte_def of_char_of)
qed

text \<open>Overwriting a block of a vector in place, as \<open>recv\<close> and \<open>std::copy\<close> do.\<close>

definition overwrite :: "nat \<Rightarrow> 'a list \<Rightarrow> 'a list \<Rightarrow> 'a list" where
  "overwrite i ys xs = take i xs @ ys @ drop (i + length ys) xs"

lemma length_overwrite [simp]: "i + length ys \<le> length xs \<Longrightarrow> length (overwrite i ys xs) = length xs"
  by (simp add: overwrite_def)

lemma take_overwrite [simp]:
  "i + length ys \<le> length xs \<Longrightarrow> take (i + length ys) (overwrite i ys xs) = take i xs @ ys"
  by (simp add: overwrite_def)

lemma take_overwrite_0 [simp]: "n = length ys \<Longrightarrow> take n (overwrite 0 ys xs) = ys"
  by (simp add: overwrite_def)

end
