(* ===== verification/Serialize.thy ===== *)
theory Serialize
  imports Prelude
begin

text \<open>
  \<open>sw/Utilities/public/Serialize.hpp\<close> and \<open>sw/Drivers/include/SocketHeaderHandler.hpp\<close>:
  big-endian serialisation into a byte buffer, and the 4-byte length header of the socket
  protocol. A serialiser appends to the buffer; a deserialiser reads at an offset, advances
  it, and is \<open>Inl OutOfBounds\<close> where \<open>buffer[offset++]\<close> would read past the vector.
  Offsets are \<open>nat\<close>: a \<open>uint32_t\<close> offset wraps only inside a buffer of more than \<open>2 ^ 32\<close> bytes.
\<close>

section \<open>Serialisers\<close>

definition serialize_bool :: "bytes \<Rightarrow> bool \<Rightarrow> bytes" where
  "serialize_bool buffer item = buffer @ [if item then 1 else 0]"

definition serialize_u8 :: "bytes \<Rightarrow> u8 \<Rightarrow> bytes" where
  "serialize_u8 buffer item = buffer @ [item]"

definition serialize_u16 :: "bytes \<Rightarrow> u16 \<Rightarrow> bytes" where
  "serialize_u16 buffer item =
     (buffer @ [ucast (drop_bit 8 item AND 0xFF)]) @ [ucast (item AND 0xFF)]"

definition serialize_u32 :: "bytes \<Rightarrow> u32 \<Rightarrow> bytes" where
  "serialize_u32 buffer item =
     (((buffer @ [ucast (drop_bit 24 item AND 0xFF)])
        @ [ucast (drop_bit 16 item AND 0xFF)])
        @ [ucast (drop_bit 8 item AND 0xFF)])
        @ [ucast (item AND 0xFF)]"

text \<open>The signed overloads cast to the unsigned type of the same width.\<close>

definition serialize_i8 :: "bytes \<Rightarrow> int \<Rightarrow> bytes" where
  "serialize_i8 buffer item = serialize_u8 buffer (word_of_int item)"

definition serialize_i16 :: "bytes \<Rightarrow> int \<Rightarrow> bytes" where
  "serialize_i16 buffer item = serialize_u16 buffer (word_of_int item)"

definition serialize_i32 :: "bytes \<Rightarrow> int \<Rightarrow> bytes" where
  "serialize_i32 buffer item = serialize_u32 buffer (word_of_int item)"

definition serialize_string :: "bytes \<Rightarrow> string \<Rightarrow> bytes" where
  "serialize_string buffer item =
     foldl (\<lambda>b c. serialize_u8 b (byte_of_char c)) (serialize_u32 buffer (of_nat (length item))) item"

section \<open>Deserialisers\<close>

definition read_byte :: "bytes \<Rightarrow> nat \<Rightarrow> (byte \<times> nat) res" where
  "read_byte buffer offset =
     (if offset < length buffer then Inr (buffer ! offset, Suc offset) else Inl OutOfBounds)"

definition deserialize_bool :: "bytes \<Rightarrow> nat \<Rightarrow> (bool \<times> nat) res" where
  "deserialize_bool buffer offset = mapE (\<lambda>(b, off). (b \<noteq> 0, off)) (read_byte buffer offset)"

definition deserialize_u8 :: "bytes \<Rightarrow> nat \<Rightarrow> (u8 \<times> nat) res" where
  "deserialize_u8 buffer offset = read_byte buffer offset"

definition deserialize_u16 :: "bytes \<Rightarrow> nat \<Rightarrow> (u16 \<times> nat) res" where
  "deserialize_u16 buffer offset =
     bindE (read_byte buffer offset) (\<lambda>(a, o1).
     bindE (read_byte buffer o1) (\<lambda>(b, o2).
       Inr (push_bit 8 (ucast a) OR ucast b, o2)))"

definition deserialize_u32 :: "bytes \<Rightarrow> nat \<Rightarrow> (u32 \<times> nat) res" where
  "deserialize_u32 buffer offset =
     bindE (read_byte buffer offset) (\<lambda>(a, o1).
     bindE (read_byte buffer o1) (\<lambda>(b, o2).
     bindE (read_byte buffer o2) (\<lambda>(c, o3).
     bindE (read_byte buffer o3) (\<lambda>(d, o4).
       Inr (((push_bit 24 (ucast a) OR push_bit 16 (ucast b)) OR push_bit 8 (ucast c)) OR ucast d, o4)))))"

definition deserialize_i8 :: "bytes \<Rightarrow> nat \<Rightarrow> (int \<times> nat) res" where
  "deserialize_i8 buffer offset = mapE (\<lambda>(w, off). (sint w, off)) (deserialize_u8 buffer offset)"

definition deserialize_i16 :: "bytes \<Rightarrow> nat \<Rightarrow> (int \<times> nat) res" where
  "deserialize_i16 buffer offset = mapE (\<lambda>(w, off). (sint w, off)) (deserialize_u16 buffer offset)"

definition deserialize_i32 :: "bytes \<Rightarrow> nat \<Rightarrow> (int \<times> nat) res" where
  "deserialize_i32 buffer offset = mapE (\<lambda>(w, off). (sint w, off)) (deserialize_u32 buffer offset)"

fun deserialize_chars :: "nat \<Rightarrow> bytes \<Rightarrow> nat \<Rightarrow> string \<Rightarrow> (string \<times> nat) res" where
  "deserialize_chars 0 buffer offset item = Inr (item, offset)"
| "deserialize_chars (Suc n) buffer offset item =
     bindE (deserialize_u8 buffer offset) (\<lambda>(c, off).
       deserialize_chars n buffer off (item @ [char_of_byte c]))"

definition deserialize_string :: "bytes \<Rightarrow> nat \<Rightarrow> (string \<times> nat) res" where
  "deserialize_string buffer offset =
     bindE (deserialize_u32 buffer offset) (\<lambda>(string_length, off).
       deserialize_chars (unat string_length) buffer off [])"

section \<open>The contract of a codec\<close>

text \<open>
  What a serialiser and its deserialiser promise together: the serialiser only appends, and
  reading at the place where a value was written returns the value and the offset after it,
  whatever surrounds it in the buffer.
\<close>

locale codec =
  fixes ser :: "bytes \<Rightarrow> 'a \<Rightarrow> bytes"
    and des :: "bytes \<Rightarrow> nat \<Rightarrow> ('a \<times> nat) res"
    and valid :: "'a \<Rightarrow> bool"
  assumes ser_append: "ser buffer x = buffer @ ser [] x"
    and des_ser: "valid x \<Longrightarrow> des (pre @ ser [] x @ suf) (length pre) = Inr (x, length pre + length (ser [] x))"
begin

lemma roundtrip: "valid x \<Longrightarrow> des (ser buffer x @ suf) (length buffer) = Inr (x, length (ser buffer x))"
  using des_ser [of x buffer suf] by (simp add: ser_append [of buffer])

lemma roundtrip_mid:
  assumes "valid x" "n = length pre" "m = length (ser pre x)"
  shows "des (pre @ ser [] x @ suf) n = Inr (x, m)"
  using assms des_ser by (simp add: ser_append [of pre])

lemma ser_inj: "valid x \<Longrightarrow> valid y \<Longrightarrow> ser buffer x = ser buffer y \<Longrightarrow> x = y"
  using roundtrip [of x buffer "[]"] roundtrip [of y buffer "[]"] by simp

lemma length_ser: "length (ser buffer x) = length buffer + length (ser [] x)"
  by (subst ser_append) simp

end

text \<open>Two codecs used one after the other, as every message of the program does.\<close>

locale codec_seq = fst: codec ser1 des1 valid1 + snd: codec ser2 des2 valid2
  for ser1 :: "bytes \<Rightarrow> 'a \<Rightarrow> bytes" and des1 and valid1
  and ser2 :: "bytes \<Rightarrow> 'b \<Rightarrow> bytes" and des2 and valid2
begin

lemma seq_roundtrip:
  assumes "valid1 x" "valid2 y"
  shows "bindE (des1 (ser2 (ser1 buffer x) y @ suf) (length buffer))
           (\<lambda>(x', off). mapE (\<lambda>(y', off'). (x', y', off')) (des2 (ser2 (ser1 buffer x) y @ suf) off))
         = Inr (x, y, length (ser2 (ser1 buffer x) y))"
proof -
  have split: "ser2 (ser1 buffer x) y @ suf = ser1 buffer x @ ser2 [] y @ suf"
    by (subst snd.ser_append) simp
  have "des1 (ser2 (ser1 buffer x) y @ suf) (length buffer) = Inr (x, length (ser1 buffer x))"
    unfolding split by (rule fst.roundtrip [OF assms(1)])
  moreover have "des2 (ser2 (ser1 buffer x) y @ suf) (length (ser1 buffer x))
                   = Inr (y, length (ser2 (ser1 buffer x) y))"
    by (rule snd.roundtrip [OF assms(2)])
  ultimately show ?thesis by simp
qed

end

section \<open>The codecs of the code keep the contract\<close>

lemma read_byte_at: "read_byte (pre @ b # suf) (length pre) = Inr (b, Suc (length pre))"
  by (simp add: read_byte_def)

lemma read_byte_at_Suc:
  "read_byte (pre @ a # b # suf) (Suc (length pre)) = Inr (b, Suc (Suc (length pre)))"
  "read_byte (pre @ a # b # c # suf) (Suc (Suc (length pre))) = Inr (c, Suc (Suc (Suc (length pre))))"
  "read_byte (pre @ a # b # c # d # suf) (Suc (Suc (Suc (length pre)))) = Inr (d, Suc (Suc (Suc (Suc (length pre)))))"
  by (simp_all add: read_byte_def nth_append)

lemmas read_byte_simps = read_byte_at read_byte_at_Suc

lemma ucast_and_FF [simp]:
  "(ucast (x AND 0xFF :: u16) :: u8) = ucast x" "(ucast (y AND 0xFF :: u32) :: u8) = ucast y"
proof -
  have m: "(0xFF :: u16) = mask 8" "(0xFF :: u32) = mask 8" by (simp_all add: mask_eq_exp_minus_1)
  show "(ucast (x AND 0xFF :: u16) :: u8) = ucast x" "(ucast (y AND 0xFF :: u32) :: u8) = ucast y"
    unfolding m by (rule bit_word_eqI, simp add: bit_simps)+
qed

lemma u16_bytes: "push_bit 8 (ucast (ucast (drop_bit 8 x :: u16) :: u8)) OR ucast (ucast x :: u8) = (x :: u16)"
  by (rule bit_word_eqI) (auto simp: bit_simps)

lemma u32_bytes:
  "((push_bit 24 (ucast (ucast (drop_bit 24 x :: u32) :: u8))
      OR push_bit 16 (ucast (ucast (drop_bit 16 x) :: u8)))
      OR push_bit 8 (ucast (ucast (drop_bit 8 x) :: u8)))
      OR ucast (ucast x :: u8) = (x :: u32)"
proof (rule bit_word_eqI)
  fix n assume "n < LENGTH(32)"
  then consider "n < 8" | "8 \<le> n" "n < 16" | "16 \<le> n" "n < 24" | "24 \<le> n" "n < 32" by fastforce
  then show "bit (((push_bit 24 (ucast (ucast (drop_bit 24 x :: u32) :: u8) :: u32)
      OR push_bit 16 (ucast (ucast (drop_bit 16 x) :: u8)))
      OR push_bit 8 (ucast (ucast (drop_bit 8 x) :: u8)))
      OR ucast (ucast x :: u8)) n = bit (x :: u32) n"
    by cases (auto simp: bit_simps)
qed

interpretation bool_codec: codec serialize_bool deserialize_bool "\<lambda>_. True"
  by unfold_locales (auto simp: serialize_bool_def deserialize_bool_def read_byte_simps)

interpretation u8_codec: codec serialize_u8 deserialize_u8 "\<lambda>_. True"
  by unfold_locales (auto simp: serialize_u8_def deserialize_u8_def read_byte_simps)

interpretation u16_codec: codec serialize_u16 deserialize_u16 "\<lambda>_. True"
  by unfold_locales (auto simp: serialize_u16_def deserialize_u16_def read_byte_simps u16_bytes)

interpretation u32_codec: codec serialize_u32 deserialize_u32 "\<lambda>_. True"
  by unfold_locales (auto simp: serialize_u32_def deserialize_u32_def read_byte_simps u32_bytes)

lemma serialize_chars: "foldl (\<lambda>b c. serialize_u8 b (byte_of_char c)) buffer s = buffer @ map byte_of_char s"
  by (induction s arbitrary: buffer) (simp_all add: serialize_u8_def)

lemma serialize_string_eq:
  "serialize_string buffer s = serialize_u32 buffer (of_nat (length s)) @ map byte_of_char s"
  by (simp add: serialize_string_def serialize_chars)

lemma length_serialize_u32 [simp]: "length (serialize_u32 buffer x) = length buffer + 4"
  by (simp add: serialize_u32_def)

lemma deserialize_chars_at:
  "deserialize_chars (length s) (pre @ map byte_of_char s @ suf) (length pre) acc
     = Inr (acc @ s, length pre + length s)"
proof (induction s arbitrary: pre acc)
  case (Cons c s)
  show ?case
    using Cons.IH [of "pre @ [byte_of_char c]" "acc @ [c]"]
    by (simp add: deserialize_u8_def read_byte_simps)
qed simp

interpretation string_codec: codec serialize_string deserialize_string "\<lambda>s. length s < 2 ^ 32"
proof unfold_locales
  show "serialize_string buffer x = buffer @ serialize_string [] x" for buffer x
    unfolding serialize_string_eq by (subst u32_codec.ser_append) simp
next
  fix x :: string and pre suf :: bytes
  assume "length x < 2 ^ 32"
  then have n: "unat (word_of_nat (length x) :: u32) = length x"
    by (simp add: unat_of_nat)
  have "deserialize_u32 (pre @ serialize_u32 [] (word_of_nat (length x)) @ map byte_of_char x @ suf) (length pre)
          = Inr (word_of_nat (length x), length (serialize_u32 pre (word_of_nat (length x))))"
    by (rule u32_codec.roundtrip_mid) simp_all
  moreover have "deserialize_chars (length x)
      (serialize_u32 pre (word_of_nat (length x)) @ map byte_of_char x @ suf)
      (length (serialize_u32 pre (word_of_nat (length x)))) [] = Inr (x, length pre + 4 + length x)"
    by (subst deserialize_chars_at) simp
  ultimately show "deserialize_string (pre @ serialize_string [] x @ suf) (length pre)
      = Inr (x, length pre + length (serialize_string [] x))"
    using u32_codec.ser_append [of pre "word_of_nat (length x)"]
    by (simp add: deserialize_string_def serialize_string_eq n)
qed

interpretation i8_codec: codec serialize_i8 deserialize_i8 "\<lambda>i. - (2 ^ 7) \<le> i \<and> i < 2 ^ 7"
proof unfold_locales
  show "serialize_i8 buffer x = buffer @ serialize_i8 [] x" for buffer x
    unfolding serialize_i8_def by (rule u8_codec.ser_append)
qed (simp add: serialize_i8_def deserialize_i8_def u8_codec.des_ser)

interpretation i16_codec: codec serialize_i16 deserialize_i16 "\<lambda>i. - (2 ^ 15) \<le> i \<and> i < 2 ^ 15"
proof unfold_locales
  show "serialize_i16 buffer x = buffer @ serialize_i16 [] x" for buffer x
    unfolding serialize_i16_def by (rule u16_codec.ser_append)
qed (simp add: serialize_i16_def deserialize_i16_def u16_codec.des_ser)

interpretation i32_codec: codec serialize_i32 deserialize_i32 "\<lambda>i. - (2 ^ 31) \<le> i \<and> i < 2 ^ 31"
proof unfold_locales
  show "serialize_i32 buffer x = buffer @ serialize_i32 [] x" for buffer x
    unfolding serialize_i32_def by (rule u32_codec.ser_append)
qed (simp add: serialize_i32_def deserialize_i32_def u32_codec.des_ser)

interpretation u32_string_codec:
  codec_seq serialize_u32 deserialize_u32 "\<lambda>_. True"
            serialize_string deserialize_string "\<lambda>s. length s < 2 ^ 32"
  by unfold_locales

section \<open>The socket header\<close>

definition HEADER_SIZE :: nat where
  "HEADER_SIZE = 4"

definition preapreHeader :: "bytes \<Rightarrow> u32 \<Rightarrow> bytes" where
  "preapreHeader output_buffer data_size = serialize_u32 output_buffer data_size"

definition decodeMessageLength :: "bytes \<Rightarrow> u32 res" where
  "decodeMessageLength data = mapE fst (deserialize_u32 data 0)"

definition getHeaderSize :: nat where
  "getHeaderSize = HEADER_SIZE"

section \<open>Properties\<close>

lemma deserialize_u32_short: "length buffer < offset + 4 \<Longrightarrow> deserialize_u32 buffer offset = Inl OutOfBounds"
  by (auto simp: deserialize_u32_def read_byte_def bindE_def split: sum.splits)

lemma deserialize_chars_short:
  "offset \<le> length buffer \<Longrightarrow> length buffer < offset + n \<Longrightarrow>
   deserialize_chars n buffer offset acc = Inl OutOfBounds"
  by (induction n arbitrary: offset acc) (auto simp: deserialize_u8_def read_byte_def bindE_def)

text \<open>
  A string serialised into any buffer, with anything after it, is read back unchanged at
  the offset where it was written, and the offset then stands behind it.
\<close>

theorem string_roundtrip:
  "length s < 2 ^ 32 \<Longrightarrow>
   deserialize_string (serialize_string buffer s @ rest) (length buffer)
     = Inr (s, length buffer + 4 + length s)"
  using string_codec.roundtrip [of s buffer rest] by (simp add: serialize_string_eq)

theorem string_roundtrip_witness:
  "deserialize_string (serialize_string [1, 2] ''ok'' @ [7]) (length [1 :: byte, 2])
     = Inr (''ok'', length [1 :: byte, 2] + 4 + length ''ok'')"
  by (rule string_roundtrip) simp

text \<open>
  The header of a message announces its payload: it is exactly \<open>HEADER_SIZE\<close> bytes long,
  it is followed by nothing of its own, and decoding the received bytes gives back the length
  that was announced; fewer than \<open>HEADER_SIZE\<close> bytes are read out of bounds.
\<close>

theorem header_announces_length:
  "length (preapreHeader [] n) = HEADER_SIZE \<and>
   decodeMessageLength (preapreHeader [] n @ payload) = Inr n \<and>
   (k < HEADER_SIZE \<longrightarrow> decodeMessageLength (take k (preapreHeader [] n)) = Inl OutOfBounds)"
proof (intro conjI impI)
  show "length (preapreHeader [] n) = HEADER_SIZE"
    by (simp add: preapreHeader_def HEADER_SIZE_def)
  show "decodeMessageLength (preapreHeader [] n @ payload) = Inr n"
    using u32_codec.roundtrip [where buffer = "[]" and x = n and suf = payload]
    by (simp add: preapreHeader_def decodeMessageLength_def)
  show "decodeMessageLength (take k (preapreHeader [] n)) = Inl OutOfBounds" if "k < HEADER_SIZE"
    using that by (simp add: decodeMessageLength_def HEADER_SIZE_def deserialize_u32_short)
qed

theorem header_announces_length_witness:
  "decodeMessageLength (preapreHeader [] 258 @ [9]) = Inr 258 \<and>
   decodeMessageLength (take 3 (preapreHeader [] 258)) = Inl OutOfBounds"
  using header_announces_length [of 258 "[9]" 3] by (simp add: HEADER_SIZE_def)

end
