(* ===== verification/LineFramer.thy ===== *)
theory LineFramer
  imports Prelude
begin

text \<open>
  The receive buffer every driver uses in new-line mode (\<open>m_recv_buffer\<close>,
  \<open>m_recv_buffer_idx\<close> and the loops around \<open>std::find\<close> and \<open>std::copy\<close> in
  \<open>sw/Drivers/source\<close>): a vector of fixed size, an index behind the bytes received so
  far, one pass that receives into the free part and then hands out every complete line.
  The abstract side is the byte stream split at new lines; the buffer is shown to implement
  it for every way the stream is cut into chunks.
\<close>

section \<open>The buffer\<close>

record recv_buffer =
  rb_data :: bytes
  rb_idx :: nat

definition NEWLINE :: byte where
  "NEWLINE = 10"

definition empty_buffer :: "nat \<Rightarrow> recv_buffer" where
  "empty_buffer cap = \<lparr>rb_data = replicate cap 0, rb_idx = 0\<rparr>"

text \<open>\<open>if (m_recv_buffer_idx == m_recv_buffer.size()) m_recv_buffer_idx = 0;\<close>\<close>

definition wrap_if_full :: "recv_buffer \<Rightarrow> recv_buffer" where
  "wrap_if_full b = (if rb_idx b = length (rb_data b) then b\<lparr>rb_idx := 0\<rparr> else b)"

text \<open>The number of bytes the driver asks the operating system for.\<close>

definition recv_space :: "recv_buffer \<Rightarrow> nat" where
  "recv_space b = length (rb_data (wrap_if_full b)) - rb_idx (wrap_if_full b)"

text \<open>\<open>recv\<close> writes its bytes at the index, which then moves behind them.\<close>

definition store_chunk :: "bytes \<Rightarrow> recv_buffer \<Rightarrow> recv_buffer" where
  "store_chunk chunk b = b\<lparr>rb_data := overwrite (rb_idx b) chunk (rb_data b), rb_idx := rb_idx b + length chunk\<rparr>"

text \<open>
  The loop that finds a new line among the received bytes, notifies the listeners of the
  bytes up to it, and copies the rest to the front. The lines notified are the result.
\<close>

function drain_lines :: "recv_buffer \<Rightarrow> bytes list \<times> recv_buffer" where
  "drain_lines b =
     (let it = find_pos (\<lambda>c. c = NEWLINE) (take (rb_idx b) (rb_data b))
      in if it < rb_idx b \<and> it < length (rb_data b)
         then let it' = Suc it;
                  line = take it' (rb_data b);
                  b' = b\<lparr>rb_data := overwrite 0 (drop it' (take (rb_idx b) (rb_data b))) (rb_data b),
                         rb_idx := rb_idx b - it'\<rparr>;
                  (lines, b'') = drain_lines b'
              in (line # lines, b'')
         else ([], b))"
  by pat_completeness auto
termination
  by (relation "measure rb_idx") auto

declare drain_lines.simps [simp del]

text \<open>One received chunk: make room, store it, hand out the complete lines.\<close>

definition recv_lines :: "bytes \<Rightarrow> recv_buffer \<Rightarrow> bytes list \<times> recv_buffer" where
  "recv_lines chunk b = drain_lines (store_chunk chunk (wrap_if_full b))"

fun recv_all :: "bytes list \<Rightarrow> recv_buffer \<Rightarrow> bytes list \<times> recv_buffer" where
  "recv_all [] b = ([], b)"
| "recv_all (c # cs) b =
     (let (ls, b') = recv_lines c b; (ls', b'') = recv_all cs b' in (ls @ ls', b''))"

section \<open>The byte stream split at new lines\<close>

function split_lines :: "bytes \<Rightarrow> bytes list \<times> bytes" where
  "split_lines s =
     (if NEWLINE \<in> set s
      then let (ls, r) = split_lines (tl (dropWhile (\<lambda>c. c \<noteq> NEWLINE) s))
           in ((takeWhile (\<lambda>c. c \<noteq> NEWLINE) s @ [NEWLINE]) # ls, r)
      else ([], s))"
  by pat_completeness auto
termination
proof (relation "measure length", simp)
  fix s :: bytes
  assume "NEWLINE \<in> set s"
  then have "dropWhile (\<lambda>c. c \<noteq> NEWLINE) s \<noteq> []" by (simp add: dropWhile_eq_Nil_conv)
  then show "(tl (dropWhile (\<lambda>c. c \<noteq> NEWLINE) s), s) \<in> measure length"
    using length_dropWhile_le [of "\<lambda>c. c \<noteq> NEWLINE" s]
    by (cases "dropWhile (\<lambda>c. c \<noteq> NEWLINE) s") auto
qed

declare split_lines.simps [simp del]

lemma split_lines_none [simp]: "NEWLINE \<notin> set s \<Longrightarrow> split_lines s = ([], s)"
  by (simp add: split_lines.simps)

lemma split_at_newline:
  "NEWLINE \<notin> set x \<Longrightarrow> takeWhile (\<lambda>c. c \<noteq> NEWLINE) (x @ NEWLINE # s) = x"
  "NEWLINE \<notin> set x \<Longrightarrow> dropWhile (\<lambda>c. c \<noteq> NEWLINE) (x @ NEWLINE # s) = NEWLINE # s"
  by (induction x) auto

lemma split_lines_line:
  "NEWLINE \<notin> set x \<Longrightarrow>
   split_lines (x @ NEWLINE # s) = ((x @ [NEWLINE]) # fst (split_lines s), snd (split_lines s))"
  by (subst split_lines.simps) (simp add: split_at_newline case_prod_unfold Let_def)

lemma stream_cases:
  obtains "NEWLINE \<notin> set s" | x t where "s = x @ NEWLINE # t" "NEWLINE \<notin> set x"
  by (meson split_list_first)

lemma split_lines_concat: "concat (fst (split_lines s)) @ snd (split_lines s) = s"
proof (induction s rule: length_induct)
  case (1 s)
  show ?case
  proof (cases rule: stream_cases [of s])
    case (2 x t)
    with 1 [rule_format, of t] show ?thesis by (simp add: split_lines_line)
  qed simp
qed

lemma split_lines_rest: "NEWLINE \<notin> set (snd (split_lines s))"
proof (induction s rule: length_induct)
  case (1 s)
  show ?case
  proof (cases rule: stream_cases [of s])
    case (2 x t)
    with 1 [rule_format, of t] show ?thesis by (simp add: split_lines_line)
  qed simp
qed

lemma split_lines_each:
  "l \<in> set (fst (split_lines s)) \<Longrightarrow> \<exists>x. l = x @ [NEWLINE] \<and> NEWLINE \<notin> set x"
proof (induction s rule: length_induct)
  case (1 s)
  show ?case
  proof (cases rule: stream_cases [of s])
    case 1
    with "1.prems" show ?thesis by simp
  next
    case (2 x t)
    with "1.IH" [rule_format, of t] "1.prems" show ?thesis by (auto simp: split_lines_line)
  qed
qed

lemma split_lines_append:
  "split_lines (s @ t) =
     (fst (split_lines s) @ fst (split_lines (snd (split_lines s) @ t)),
      snd (split_lines (snd (split_lines s) @ t)))"
proof (induction s rule: length_induct)
  case (1 s)
  show ?case
  proof (cases rule: stream_cases [of s])
    case (2 x u)
    with 1 [rule_format, of u] show ?thesis by (simp add: split_lines_line)
  qed simp
qed

section \<open>The buffer implements the stream\<close>

definition pending :: "recv_buffer \<Rightarrow> bytes" where
  "pending b = take (rb_idx b) (rb_data b)"

definition buffer_ok :: "nat \<Rightarrow> recv_buffer \<Rightarrow> bool" where
  "buffer_ok cap b \<longleftrightarrow> length (rb_data b) = cap \<and> rb_idx b \<le> cap"

lemma length_pending [simp]: "buffer_ok cap b \<Longrightarrow> length (pending b) = rb_idx b"
  by (simp add: pending_def buffer_ok_def)

lemma drain_lines_refines:
  "buffer_ok cap b \<Longrightarrow>
   buffer_ok cap (snd (drain_lines b)) \<and>
   (fst (drain_lines b), pending (snd (drain_lines b))) = split_lines (pending b)"
proof (induction b rule: drain_lines.induct)
  case (1 b)
  note ok = "1.prems"
  let ?it = "find_pos (\<lambda>c. c = NEWLINE) (take (rb_idx b) (rb_data b))"
  have len: "length (take (rb_idx b) (rb_data b)) = rb_idx b"
    using ok by (simp add: buffer_ok_def)
  have "?it < length (take (rb_idx b) (rb_data b)) \<longleftrightarrow> (\<exists>c \<in> set (take (rb_idx b) (rb_data b)). c = NEWLINE)"
    by (rule find_pos_less_iff)
  then have pos: "?it < rb_idx b \<longleftrightarrow> NEWLINE \<in> set (pending b)"
    unfolding len pending_def by blast
  show ?case
  proof (cases "NEWLINE \<in> set (pending b)")
    case False
    then have "\<not> ?it < rb_idx b" using pos by simp
    then have "drain_lines b = ([], b)" by (subst drain_lines.simps) simp
    then show ?thesis using ok False by simp
  next
    case True
    then have it: "?it < rb_idx b" using pos by simp
    then have it2: "?it < length (rb_data b)" using ok by (simp add: buffer_ok_def)
    define b' where "b' = b\<lparr>rb_data := overwrite 0 (drop (Suc ?it) (take (rb_idx b) (rb_data b))) (rb_data b),
                            rb_idx := rb_idx b - Suc ?it\<rparr>"
    have pend': "pending b' = drop (Suc ?it) (pending b)"
      using len it by (simp add: b'_def pending_def)
    have ok': "buffer_ok cap b'"
      using ok it by (auto simp: b'_def buffer_ok_def overwrite_def min_def)
    have step: "drain_lines b = (take (Suc ?it) (rb_data b) # fst (drain_lines b'), snd (drain_lines b'))"
      using it it2 by (subst drain_lines.simps) (simp add: Let_def b'_def case_prod_unfold)
    have IH: "buffer_ok cap (snd (drain_lines b')) \<and>
        (fst (drain_lines b'), pending (snd (drain_lines b'))) = split_lines (pending b')"
      using "1.IH" [OF refl _ refl refl _] it it2 ok' by (simp add: b'_def)
    have nth: "pending b ! ?it = NEWLINE"
      using True find_pos_sound [of "pending b" "\<lambda>c. c = NEWLINE"] by (auto simp: pending_def)
    have "pending b = take ?it (pending b) @ NEWLINE # drop (Suc ?it) (pending b)"
      using it len nth by (metis id_take_nth_drop pending_def)
    moreover have "NEWLINE \<notin> set (take ?it (pending b))"
      using take_find_pos [of "\<lambda>c. c = NEWLINE" "pending b"] by (metis pending_def set_takeWhileD)
    ultimately have split: "split_lines (pending b) =
        ((take ?it (pending b) @ [NEWLINE]) # fst (split_lines (pending b')), snd (split_lines (pending b')))"
      unfolding pend' by (metis split_lines_line)
    have line: "take (Suc ?it) (rb_data b) = take ?it (pending b) @ [NEWLINE]"
      using it it2 nth by (simp add: pending_def take_Suc_conv_app_nth min_def)
    show ?thesis using IH by (simp add: step split line prod_eq_iff)
  qed
qed

lemma wrap_if_full_ok: "buffer_ok cap b \<Longrightarrow> buffer_ok cap (wrap_if_full b)"
  by (simp add: wrap_if_full_def buffer_ok_def)

lemma pending_store_chunk:
  "buffer_ok cap b \<Longrightarrow> rb_idx b + length chunk \<le> cap \<Longrightarrow>
   buffer_ok cap (store_chunk chunk b) \<and> pending (store_chunk chunk b) = pending b @ chunk"
  by (simp add: store_chunk_def buffer_ok_def pending_def)

lemma pending_wrap: "pending (wrap_if_full b) = (if rb_idx b = length (rb_data b) then [] else pending b)"
  by (simp add: wrap_if_full_def pending_def)

text \<open>What one chunk does, for every buffer the driver can have and every answer of the system.\<close>

lemma recv_lines_refines:
  assumes "buffer_ok cap b" "length chunk \<le> recv_space b"
  shows "buffer_ok cap (snd (recv_lines chunk b)) \<and>
         (fst (recv_lines chunk b), pending (snd (recv_lines chunk b)))
           = split_lines ((if rb_idx b = cap then [] else pending b) @ chunk)"
proof -
  let ?w = "wrap_if_full b"
  have w: "buffer_ok cap ?w" by (rule wrap_if_full_ok [OF assms(1)])
  have "rb_idx ?w + length chunk \<le> cap"
    using assms w unfolding recv_space_def buffer_ok_def by arith
  note store = pending_store_chunk [OF w this]
  show ?thesis
    using drain_lines_refines [OF conjunct1 [OF store]] store assms(1)
    by (simp add: recv_lines_def pending_wrap buffer_ok_def)
qed

text \<open>
  The answers of the system over a whole connection: each chunk is not empty and fits into
  the space the driver offered (the contract of \<open>recv\<close> and \<open>read\<close>).
\<close>

fun chunks_fit :: "bytes list \<Rightarrow> recv_buffer \<Rightarrow> bool" where
  "chunks_fit [] b = True"
| "chunks_fit (c # cs) b =
     (c \<noteq> [] \<and> length c \<le> recv_space b \<and> chunks_fit cs (snd (recv_lines c b)))"

text \<open>No line of the stream, its new line included, is longer than the buffer.\<close>

definition lines_fit :: "nat \<Rightarrow> bytes \<Rightarrow> bool" where
  "lines_fit cap s \<longleftrightarrow>
     (\<forall>l \<in> set (fst (split_lines s)). length l \<le> cap) \<and> length (snd (split_lines s)) < cap"

lemma lines_fit_appendD:
  assumes "lines_fit cap (s @ t)"
  shows "lines_fit cap s" "lines_fit cap (snd (split_lines s) @ t)"
proof -
  let ?r = "snd (split_lines s)"
  have "length ?r < cap"
  proof (cases rule: stream_cases [of t])
    case 1
    then show ?thesis using assms split_lines_rest [of s]
      by (simp add: lines_fit_def split_lines_append [of s])
  next
    case (2 x u)
    then have "split_lines (?r @ t) = ((?r @ x @ [NEWLINE]) # fst (split_lines u), snd (split_lines u))"
      using split_lines_line [of "?r @ x" u] split_lines_rest [of s] by simp
    then show ?thesis using assms by (auto simp: lines_fit_def split_lines_append [of s])
  qed
  then show "lines_fit cap s" "lines_fit cap (?r @ t)"
    using assms by (auto simp: lines_fit_def split_lines_append [of s])
qed

lemma recv_all_refines:
  "\<lbrakk>buffer_ok cap b; NEWLINE \<notin> set (pending b); chunks_fit chunks b;
    lines_fit cap (pending b @ concat chunks)\<rbrakk> \<Longrightarrow>
   (fst (recv_all chunks b), pending (snd (recv_all chunks b))) = split_lines (pending b @ concat chunks)"
proof (induction chunks arbitrary: b)
  case Nil
  then show ?case by simp
next
  case (Cons c cs)
  let ?r = "recv_lines c b"
  let ?s = "pending b @ c"
  have nf: "rb_idx b \<noteq> cap"
    using lines_fit_appendD(1) [of cap "pending b" "concat (c # cs)"] Cons.prems by (simp add: lines_fit_def)
  have one: "buffer_ok cap (snd ?r)" "fst ?r = fst (split_lines ?s)" "pending (snd ?r) = snd (split_lines ?s)"
    using recv_lines_refines [of cap b c] Cons.prems nf by (auto simp: prod_eq_iff)
  have fit: "lines_fit cap (pending (snd ?r) @ concat cs)"
    using lines_fit_appendD(2) [of cap ?s "concat cs"] Cons.prems(4) one by simp
  have "(fst (recv_all cs (snd ?r)), pending (snd (recv_all cs (snd ?r))))
          = split_lines (pending (snd ?r) @ concat cs)"
    by (rule Cons.IH) (use one fit Cons.prems split_lines_rest in auto)
  moreover have "split_lines (pending b @ concat (c # cs)) =
      (fst (split_lines ?s) @ fst (split_lines (pending (snd ?r) @ concat cs)),
       snd (split_lines (pending (snd ?r) @ concat cs)))"
    using split_lines_append [of ?s "concat cs"] one by simp
  ultimately show ?case
    using one by (simp add: case_prod_unfold Let_def prod_eq_iff)
qed

lemma empty_buffer_ok [simp]:
  "buffer_ok cap (empty_buffer cap)" "pending (empty_buffer cap) = []"
  by (simp_all add: empty_buffer_def buffer_ok_def pending_def)

lemma wrap_empty_buffer [simp]: "0 < cap \<Longrightarrow> wrap_if_full (empty_buffer cap) = empty_buffer cap"
  by (simp add: wrap_if_full_def empty_buffer_def)

lemma recv_space_empty [simp]: "recv_space (empty_buffer cap) = cap"
  by (auto simp: recv_space_def wrap_if_full_def empty_buffer_def)

lemma recv_unfinished:
  assumes "x \<noteq> []" "length x \<le> cap" "NEWLINE \<notin> set x"
  defines "b \<equiv> snd (recv_lines x (empty_buffer cap))"
  shows "buffer_ok cap b" "fst (recv_lines x (empty_buffer cap)) = []" "pending b = x" "rb_idx b = length x"
proof -
  have "rb_idx (empty_buffer cap) = 0" by (simp add: empty_buffer_def)
  then show one: "buffer_ok cap b" and "fst (recv_lines x (empty_buffer cap)) = []" and p: "pending b = x"
    using recv_lines_refines [of cap "empty_buffer cap" x] assms by (auto simp: prod_eq_iff)
  show "rb_idx b = length x" using length_pending [OF one] p by simp
qed

text \<open>The invariant of the buffer over a whole connection, full buffers included.\<close>

lemma recv_all_ok:
  "buffer_ok cap b \<Longrightarrow> chunks_fit chunks b \<Longrightarrow> buffer_ok cap (snd (recv_all chunks b))"
proof (induction chunks arbitrary: b)
  case (Cons c cs)
  then have "buffer_ok cap (snd (recv_lines c b))" using recv_lines_refines by auto
  with Cons show ?case by (simp add: case_prod_unfold Let_def)
qed simp

section \<open>Properties\<close>

text \<open>
  C16. However the operating system cuts a stream into chunks, a driver in new-line mode
  notifies exactly the lines of the stream, in order, each with its new line, and keeps
  exactly the unfinished rest in its buffer, provided no line is longer than the buffer.
\<close>

theorem framing_is_chunk_independent:
  "\<lbrakk>chunks_fit chunks (empty_buffer cap); lines_fit cap (concat chunks)\<rbrakk> \<Longrightarrow>
   fst (recv_all chunks (empty_buffer cap)) = fst (split_lines (concat chunks)) \<and>
   pending (snd (recv_all chunks (empty_buffer cap))) = snd (split_lines (concat chunks))"
  using recv_all_refines [of cap "empty_buffer cap" chunks] by (simp add: prod_eq_iff)

theorem framing_is_chunk_independent_witness:
  "fst (recv_all [[65], [10, 66], [67, 10, 68]] (empty_buffer 4)) = fst (split_lines [65, 10, 66, 67, 10, 68]) \<and>
   pending (snd (recv_all [[65], [10, 66], [67, 10, 68]] (empty_buffer 4))) = snd (split_lines [65, 10, 66, 67, 10, 68])"
proof -
  have fit: "chunks_fit [[65], [10, 66], [67, 10, 68]] (empty_buffer 4)" by code_simp
  have lines: "lines_fit 4 (concat [[65], [10, 66], [67, 10, 68]])" by code_simp
  show ?thesis using framing_is_chunk_independent [OF fit lines] by simp
qed

text \<open>
  A line that fills the whole buffer is lost: when the buffer is full and holds no new
  line, the next chunk overwrites it, so a line longer than the buffer is notified without
  its first \<open>cap\<close> bytes.
\<close>

theorem full_buffer_drops_line:
  "\<lbrakk>0 < cap; length x = cap; NEWLINE \<notin> set x; length y < cap; NEWLINE \<notin> set y\<rbrakk> \<Longrightarrow>
   fst (recv_all [x, y @ [NEWLINE]] (empty_buffer cap)) = [y @ [NEWLINE]]"
proof -
  assume a: "0 < cap" "length x = cap" "NEWLINE \<notin> set x" "length y < cap" "NEWLINE \<notin> set y"
  let ?b = "empty_buffer cap"
  have sp: "recv_space ?b = cap" using a(1) by (simp add: recv_space_def wrap_if_full_def empty_buffer_def)
  have one: "buffer_ok cap (snd (recv_lines x ?b))" "fst (recv_lines x ?b) = []"
      "pending (snd (recv_lines x ?b)) = x"
    using recv_lines_refines [of cap ?b x] a sp by (auto simp: prod_eq_iff)
  then have full: "rb_idx (snd (recv_lines x ?b)) = cap"
    using length_pending [OF one(1)] a(2) by simp
  moreover have "recv_space (snd (recv_lines x ?b)) = cap"
    using one(1) full by (simp add: recv_space_def wrap_if_full_def buffer_ok_def)
  ultimately have "fst (recv_lines (y @ [NEWLINE]) (snd (recv_lines x ?b))) = [y @ [NEWLINE]]"
    using recv_lines_refines [OF one(1), of "y @ [NEWLINE]"] a split_lines_line [of y "[]"]
    by (auto simp: prod_eq_iff)
  then show ?thesis using one by (simp add: case_prod_unfold Let_def)
qed

theorem full_buffer_drops_line_witness:
  "fst (recv_all [[65, 66], [67] @ [NEWLINE]] (empty_buffer 2)) = [[67] @ [NEWLINE]]"
  by (rule full_buffer_drops_line) (simp_all add: NEWLINE_def)

end
