(* ===== verification/SocketWrite.thy ===== *)
theory SocketWrite
  imports Serialize
begin

text \<open>
  The sending side of the drivers: \<open>SocketClient::write\<close> and \<open>ClientHandler::write\<close>
  (a loop over \<open>send\<close>), \<open>SerialDriver::write\<close> (one \<open>write\<close>) and the
  \<open>write\<close> / \<open>writePendingData\<close> pair of the Qt drivers. The operating system's answers
  are a list, one per call; running out of answers is \<open>None\<close> (a call that never returns).
\<close>

definition SOCKET_MAX_PAYLOAD_LENGTH :: nat where
  "SOCKET_MAX_PAYLOAD_LENGTH = 4096"

definition SERIAL_MAX_PAYLOAD_LENGTH :: nat where
  "SERIAL_MAX_PAYLOAD_LENGTH = 4096"

datatype DataMode = NEW_LINE_DELIMITER | PAYLOAD_HEADER

section \<open>The POSIX send loop\<close>

text \<open>
  The loop of \<open>SocketClient::write\<close>, over the variables \<open>bytes_to_write\<close> and
  \<open>bytes_written\<close> of type \<open>ssize_t\<close>; the last argument collects the bytes the system
  accepted. As in the code, each round subtracts the running total \<open>bytes_written\<close>.
\<close>

fun send_loop :: "int list \<Rightarrow> int \<Rightarrow> int \<Rightarrow> bytes \<Rightarrow> bytes \<Rightarrow> (bool \<times> bytes) option" where
  "send_loop replies bytes_to_write bytes_written buffer sent =
     (if bytes_to_write > 0
      then (case replies of
              [] \<Rightarrow> None
            | current_write # rest \<Rightarrow>
                if current_write > 0
                then send_loop rest (bytes_to_write - (bytes_written + current_write))
                       (bytes_written + current_write) buffer
                       (sent @ take (nat current_write) (drop (nat bytes_written) buffer))
                else Some (False, sent))
      else Some (True, sent))"

declare send_loop.simps [simp del]

definition write_buffer :: "DataMode \<Rightarrow> bytes \<Rightarrow> nat \<Rightarrow> bytes" where
  "write_buffer mode data sz =
     (if mode = PAYLOAD_HEADER then preapreHeader [] (word_of_nat sz) else []) @ take sz data"

definition socket_client_write ::
  "DataMode \<Rightarrow> int list \<Rightarrow> bytes \<Rightarrow> nat \<Rightarrow> (bool \<times> bytes) option res" where
  "socket_client_write mode replies data sz =
     (if length data < sz then Inl OutOfBounds
      else let buffer = write_buffer mode data sz
           in if length buffer \<le> SOCKET_MAX_PAYLOAD_LENGTH
              then Inr (send_loop replies (int (length buffer)) 0 buffer [])
              else Inr (Some (False, [])))"

text \<open>\<open>ClientHandler::write\<close> is the same code on the server's side.\<close>

definition client_handler_write ::
  "DataMode \<Rightarrow> int list \<Rightarrow> bytes \<Rightarrow> nat \<Rightarrow> (bool \<times> bytes) option res" where
  "client_handler_write mode replies data sz =
     (if length data < sz then Inl OutOfBounds
      else let buffer = write_buffer mode data sz
           in if length buffer \<le> SOCKET_MAX_PAYLOAD_LENGTH
              then Inr (send_loop replies (int (length buffer)) 0 buffer [])
              else Inr (Some (False, [])))"

text \<open>\<open>SerialDriver::write\<close>: one call that offers the whole vector; true when the answer is \<open>size\<close>.\<close>

definition serial_write :: "int \<Rightarrow> bytes \<Rightarrow> int \<Rightarrow> bool" where
  "serial_write reply data sz \<longleftrightarrow> reply = sz"

text \<open>
  The contract of \<open>send\<close>: it never accepts more than it was offered. The offers of the loop
  depend on the earlier answers.
\<close>

fun replies_fit :: "int list \<Rightarrow> int \<Rightarrow> int \<Rightarrow> bool" where
  "replies_fit [] to_write written = True"
| "replies_fit (r # rs) to_write written =
     (to_write > 0 \<longrightarrow> r \<le> to_write \<and> (r > 0 \<longrightarrow> replies_fit rs (to_write - (written + r)) (written + r)))"

lemma send_loop_prefix:
  assumes "send_loop replies to_write (int (length sent)) buffer sent = Some (ok, out)"
    and "replies_fit replies to_write (int (length sent))"
    and "sent = take (length sent) buffer"
    and "to_write + int (length sent) \<le> int (length buffer)"
  shows "\<exists>k \<le> length buffer. out = take k buffer"
  using assms
proof (induction replies arbitrary: to_write sent)
  case Nil
  then have "out = sent" by (subst (asm) send_loop.simps) (auto split: if_splits)
  with Nil.prems(3) show ?case by (metis length_take min.cobounded1)
next
  case (Cons r rs)
  let ?sent = "sent @ take (nat r) (drop (length sent) buffer)"
  show ?case
  proof (cases "to_write > 0 \<and> r > 0")
    case False
    with Cons.prems(1) have "out = sent"
      by (subst (asm) send_loop.simps) (auto split: if_splits)
    with Cons.prems(3) show ?thesis by (metis length_take min.cobounded1)
  next
    case True
    have r: "r \<le> to_write" using Cons.prems(2) True by simp
    have len: "int (length ?sent) = int (length sent) + r"
      using True r Cons.prems(4) by auto
    have pre: "?sent = take (length ?sent) buffer"
    proof -
      have "?sent = take (length sent + nat r) buffer"
        using Cons.prems(3) by (metis take_add)
      moreover have "length ?sent = length sent + nat r" using len True by linarith
      ultimately show ?thesis by simp
    qed
    have "send_loop rs (to_write - int (length ?sent)) (int (length ?sent)) buffer ?sent = Some (ok, out)"
      using Cons.prems(1) True len by (subst (asm) send_loop.simps) simp
    moreover have "replies_fit rs (to_write - int (length ?sent)) (int (length ?sent))"
      using Cons.prems(2) True len by simp
    moreover have "to_write - int (length ?sent) + int (length ?sent) \<le> int (length buffer)"
      using Cons.prems(4) by simp
    ultimately show ?thesis using Cons.IH pre by blast
  qed
qed

text \<open>
  Whatever the system answers within its contract, the bytes sent are a prefix of the
  message in order: nothing is reordered, repeated or read from outside the buffer.
\<close>

theorem socket_write_sends_prefix:
  "\<lbrakk>socket_client_write mode replies data sz = Inr (Some (ok, out));
    replies_fit replies (int (length (write_buffer mode data sz))) 0\<rbrakk> \<Longrightarrow>
   \<exists>k \<le> length (write_buffer mode data sz). out = take k (write_buffer mode data sz)"
proof -
  assume a: "socket_client_write mode replies data sz = Inr (Some (ok, out))"
    and fit: "replies_fit replies (int (length (write_buffer mode data sz))) 0"
  show ?thesis
  proof (cases "length (write_buffer mode data sz) \<le> SOCKET_MAX_PAYLOAD_LENGTH")
    case True
    then have "send_loop replies (int (length (write_buffer mode data sz))) 0 (write_buffer mode data sz) [] = Some (ok, out)"
      using a by (auto simp: socket_client_write_def Let_def split: if_splits)
    then show ?thesis
      using send_loop_prefix [of replies _ "[]" "write_buffer mode data sz" ok out] fit by simp
  next
    case False
    then show ?thesis using a
      by (intro exI [of _ 0]) (auto simp: socket_client_write_def Let_def split: if_splits)
  qed
qed

theorem socket_write_sends_prefix_witness:
  "\<exists>k \<le> length (write_buffer NEW_LINE_DELIMITER [1, 2, 3] 3). [1, 2] = take k (write_buffer NEW_LINE_DELIMITER [1, 2, 3] 3)"
  by (rule socket_write_sends_prefix [of NEW_LINE_DELIMITER "[2, 0]" "[1, 2, 3]" 3 False "[1, 2]"])
     (simp_all add: socket_client_write_def write_buffer_def SOCKET_MAX_PAYLOAD_LENGTH_def send_loop.simps)

text \<open>
  When the system accepts the message in one call, or the rest of it in a second call,
  \<open>write\<close> returns true and exactly the message was sent.
\<close>

theorem socket_write_complete:
  "\<lbrakk>sz \<le> length data; length (write_buffer mode data sz) \<le> SOCKET_MAX_PAYLOAD_LENGTH;
    0 < k; k \<le> length (write_buffer mode data sz)\<rbrakk> \<Longrightarrow>
   socket_client_write mode (int k # (int (length (write_buffer mode data sz)) - int k) # rest) data sz
     = Inr (Some (True, write_buffer mode data sz))"
proof -
  let ?b = "write_buffer mode data sz"
  assume a: "sz \<le> length data" "length ?b \<le> SOCKET_MAX_PAYLOAD_LENGTH" "0 < k" "k \<le> length ?b"
  have "send_loop (int k # (int (length ?b) - int k) # rest) (int (length ?b)) 0 ?b []
          = Some (True, ?b)"
    using a(3,4) by (simp add: send_loop.simps nat_diff_distrib)
  then show ?thesis using a(1,2) by (simp add: socket_client_write_def)
qed

theorem socket_write_complete_witness:
  "socket_client_write NEW_LINE_DELIMITER [2, 1] [1, 2, 3] 3
     = Inr (Some (True, write_buffer NEW_LINE_DELIMITER [1, 2, 3] 3))"
  using socket_write_complete [of 3 "[1, 2, 3]" NEW_LINE_DELIMITER 2 "[]"]
  by (simp add: write_buffer_def SOCKET_MAX_PAYLOAD_LENGTH_def)

text \<open>
  The loop subtracts the running total instead of the last amount, so it can stop early:
  after two partial sends of \<open>k\<close> and \<open>m\<close> bytes with \<open>2 * k + m\<close> at least the length of
  the message, \<open>write\<close> returns true although the message was not sent completely.
\<close>

theorem socket_write_early_success:
  "\<lbrakk>sz \<le> length data; length (write_buffer mode data sz) \<le> SOCKET_MAX_PAYLOAD_LENGTH;
    0 < k; 0 < m; k + m < length (write_buffer mode data sz); length (write_buffer mode data sz) \<le> 2 * k + m\<rbrakk> \<Longrightarrow>
   socket_client_write mode (int k # int m # rest) data sz
     = Inr (Some (True, take (k + m) (write_buffer mode data sz))) \<and>
   take (k + m) (write_buffer mode data sz) \<noteq> write_buffer mode data sz"
proof -
  let ?b = "write_buffer mode data sz"
  assume a: "sz \<le> length data" "length ?b \<le> SOCKET_MAX_PAYLOAD_LENGTH"
    "0 < k" "0 < m" "k + m < length ?b" "length ?b \<le> 2 * k + m"
  have "send_loop (int k # int m # rest) (int (length ?b)) 0 ?b [] = Some (True, take (k + m) ?b)"
    using a(3-6) by (simp add: send_loop.simps take_add)
  moreover have "length (take (k + m) ?b) \<noteq> length ?b" using a(5) by simp
  ultimately show ?thesis using a(1,2) by (auto simp: socket_client_write_def)
qed

theorem socket_write_early_success_witness:
  "socket_client_write NEW_LINE_DELIMITER [2, 1] [1, 2, 3, 4, 5] 5
     = Inr (Some (True, [1, 2, 3]))"
  using socket_write_early_success [of 5 "[1, 2, 3, 4, 5]" NEW_LINE_DELIMITER 2 1 "[]"]
  by (simp add: write_buffer_def SOCKET_MAX_PAYLOAD_LENGTH_def)

section \<open>The Qt drivers: write and writePendingData\<close>

text \<open>
  \<open>writePendingData\<close> with its \<open>size_t\<close> variables as 64-bit words. Each call of
  \<open>QIODevice::write\<close> gets the bytes from \<open>bytes_written\<close> on; a call whose range leaves
  the vector reads outside it (\<open>OutOfBounds\<close>). The answer (a \<open>qint64\<close>, \<open>-1\<close> on
  error) is converted to \<open>size_t\<close>. The result is the buffer left behind; it is empty
  exactly when the waiting \<open>write\<close> is released.
\<close>

type_synonym size_t = "64 word"

fun qt_write_loop :: "int list \<Rightarrow> size_t \<Rightarrow> size_t \<Rightarrow> nat \<Rightarrow> size_t option res" where
  "qt_write_loop replies bytes_to_write bytes_written len =
     (if bytes_to_write > 0
      then if unat bytes_written + unat bytes_to_write \<le> len
           then (case replies of
                   [] \<Rightarrow> Inr None
                 | r # rest \<Rightarrow>
                     let current_write = word_of_int r
                     in if current_write > 0
                        then qt_write_loop rest (bytes_to_write - (bytes_written + current_write))
                               (bytes_written + current_write) len
                        else Inr (Some bytes_written))
           else Inl OutOfBounds
      else Inr (Some bytes_written))"

declare qt_write_loop.simps [simp del]

definition qt_write_pending :: "nat \<Rightarrow> bool \<Rightarrow> int list \<Rightarrow> bytes \<Rightarrow> bytes option res" where
  "qt_write_pending limit socket replies buffer =
     (if buffer = [] then Inr (Some [])
      else bindE (if socket \<and> length buffer \<le> limit
                  then qt_write_loop replies (word_of_nat (length buffer)) 0 (length buffer)
                  else Inr (Some 0))
             (\<lambda>r. case r of
                None \<Rightarrow> Inr None
              | Some bytes_written \<Rightarrow>
                  Inr (Some (if length buffer = unat bytes_written then [] else buffer))))"

definition qt_socket_client_writePendingData :: "bool \<Rightarrow> int list \<Rightarrow> bytes \<Rightarrow> bytes option res" where
  "qt_socket_client_writePendingData = qt_write_pending SOCKET_MAX_PAYLOAD_LENGTH"

definition qt_client_handler_writePendingData :: "bool \<Rightarrow> int list \<Rightarrow> bytes \<Rightarrow> bytes option res" where
  "qt_client_handler_writePendingData = qt_write_pending SOCKET_MAX_PAYLOAD_LENGTH"

definition qt_serial_writePendingData :: "bool \<Rightarrow> int list \<Rightarrow> bytes \<Rightarrow> bytes option res" where
  "qt_serial_writePendingData = qt_write_pending SERIAL_MAX_PAYLOAD_LENGTH"

lemma unat_uminus_of_nat:
  assumes "0 < k" "k < 2 ^ 64"
  shows "unat (- word_of_nat k :: size_t) = 2 ^ 64 - k"
proof -
  have "(word_of_nat (2 ^ 64) :: size_t) = 0" by simp
  then have "(word_of_nat (2 ^ 64 - k) :: size_t) = - word_of_nat k"
    using assms by (simp only: of_nat_diff less_imp_le) simp
  then have "unat (- word_of_nat k :: size_t) = unat (word_of_nat (2 ^ 64 - k) :: size_t)" by simp
  also have "\<dots> = 2 ^ 64 - k" using assms by (subst unat_of_nat) simp
  finally show ?thesis .
qed

text \<open>
  A Qt driver's pending message survives one round of \<open>writePendingData\<close> safely only
  if the device takes all of it or nothing: taken whole, the buffer is emptied and the waiting
  \<open>write\<close> succeeds; refused with 0, it is kept for the next round; refused with \<open>-1\<close>
  (an error), the conversion to \<open>size_t\<close> makes the next call read outside the buffer.
\<close>

theorem qt_write_pending_cases:
  "\<lbrakk>buffer \<noteq> []; length buffer \<le> SOCKET_MAX_PAYLOAD_LENGTH\<rbrakk> \<Longrightarrow>
   qt_socket_client_writePendingData True (int (length buffer) # rest) buffer = Inr (Some []) \<and>
   qt_socket_client_writePendingData True (0 # rest) buffer = Inr (Some buffer) \<and>
   qt_socket_client_writePendingData True (- 1 # rest) buffer = Inl OutOfBounds"
proof -
  assume ne: "buffer \<noteq> []" and le: "length buffer \<le> SOCKET_MAX_PAYLOAD_LENGTH"
  define n where "n = length buffer"
  have n: "0 < n" "n \<le> 4096" using ne le by (simp_all add: n_def SOCKET_MAX_PAYLOAD_LENGTH_def)
  have u: "unat (word_of_nat n :: size_t) = n" using n by (simp add: unat_of_nat)
  have pos: "(word_of_nat n :: size_t) > 0" using n u by (metis unat_0 word_less_nat_alt)
  have big: "unat (- 1 :: size_t) = 2 ^ 64 - 1" using unat_uminus_of_nat [of 1] by simp
  have "qt_write_loop (int n # rest) (word_of_nat n) 0 n = Inr (Some (word_of_nat n))"
    using pos u by (subst qt_write_loop.simps) (simp add: qt_write_loop.simps [of rest 0])
  moreover have "qt_write_loop (0 # rest) (word_of_nat n) 0 n = Inr (Some 0)"
    using pos u by (subst qt_write_loop.simps) simp
  moreover have "qt_write_loop (- 1 # rest) (word_of_nat n) 0 n = Inl OutOfBounds"
  proof -
    have "unat (word_of_nat n + 1 :: size_t) = n + 1"
      using n u by (simp add: unat_word_ariths)
    then have "(word_of_nat n + 1 :: size_t) > 0" by (metis add_is_0 unat_0 word_neq_0_conv zero_neq_one)
    then have "qt_write_loop rest (word_of_nat n + 1) (- 1) n = Inl OutOfBounds"
      using big n by (subst qt_write_loop.simps) simp
    moreover have "(- 1 :: size_t) > 0" using big by (simp add: word_less_nat_alt)
    ultimately show ?thesis
      using pos u by (subst qt_write_loop.simps) (simp add: Let_def)
  qed
  ultimately show ?thesis
    using ne le u n by (simp add: qt_socket_client_writePendingData_def qt_write_pending_def n_def [symmetric])
qed

theorem qt_write_pending_cases_witness:
  "qt_socket_client_writePendingData True [3] [1, 2, 3] = Inr (Some []) \<and>
   qt_socket_client_writePendingData True [- 1] [1, 2, 3] = Inl OutOfBounds"
  using qt_write_pending_cases [of "[1, 2, 3]" "[]"] by (simp add: SOCKET_MAX_PAYLOAD_LENGTH_def)

text \<open>
  A partial write of a Qt driver followed by the rest also runs out of the buffer: the
  subtraction of the running total wraps around, and the next call reads outside it.
\<close>

theorem qt_write_pending_partial:
  "\<lbrakk>0 < k; k < length buffer; length buffer \<le> SOCKET_MAX_PAYLOAD_LENGTH\<rbrakk> \<Longrightarrow>
   qt_socket_client_writePendingData True (int k # int (length buffer - k) # rest) buffer = Inl OutOfBounds"
proof -
  assume a: "0 < k" "k < length buffer" "length buffer \<le> SOCKET_MAX_PAYLOAD_LENGTH"
  define n where "n = length buffer"
  have n: "0 < k" "k < n" "n \<le> 4096" using a by (simp_all add: n_def SOCKET_MAX_PAYLOAD_LENGTH_def)
  let ?w = "word_of_nat :: nat \<Rightarrow> size_t"
  have u: "unat (?w n) = n" "unat (?w k) = k" using n by (simp_all add: unat_of_nat)
  have "unat (?w (n - k)) = n - k" using n by (subst unat_of_nat) simp
  then have pos: "?w n > 0" "?w k > 0" "?w (n - k) > 0"
    using n u unfolding word_less_nat_alt by simp_all
  have sub: "?w n - ?w k = ?w (n - k)" using n by (simp add: of_nat_diff)
  have sum: "?w k + ?w (n - k) = ?w n" using n by (simp add: of_nat_diff)
  have wrap: "unat (?w (n - k) - ?w n) = 2 ^ 64 - k"
  proof -
    have "?w (n - k) - ?w n = - ?w k" using n by (simp add: of_nat_diff)
    moreover have "unat (- ?w k) = 2 ^ 64 - k" using n by (simp add: unat_uminus_of_nat)
    ultimately show ?thesis by simp
  qed
  have last: "qt_write_loop rest (?w (n - k) - ?w n) (?w n) n = Inl OutOfBounds"
  proof -
    have "?w (n - k) - ?w n > 0" using wrap n by (simp add: word_less_nat_alt)
    moreover have "\<not> unat (?w n) + unat (?w (n - k) - ?w n) \<le> n"
      unfolding wrap u using n zero_less_diff [of k "2 ^ 64"] by simp
    ultimately show ?thesis by (subst qt_write_loop.simps) simp
  qed
  have mid: "qt_write_loop (int (n - k) # rest) (?w (n - k)) (?w k) n = Inl OutOfBounds"
    using last pos u n sum by (subst qt_write_loop.simps) (simp add: Let_def unat_of_nat)
  have "qt_write_loop (int k # int (n - k) # rest) (?w n) 0 n = Inl OutOfBounds"
    using mid pos u sub by (subst qt_write_loop.simps) (simp add: Let_def)
  then show ?thesis
    using a by (auto simp: qt_socket_client_writePendingData_def qt_write_pending_def n_def)
qed

theorem qt_write_pending_partial_witness:
  "qt_socket_client_writePendingData True [1, 2] [1, 2, 3] = Inl OutOfBounds"
  using qt_write_pending_partial [of 1 "[1, 2, 3]" "[]"] by (simp add: SOCKET_MAX_PAYLOAD_LENGTH_def)

end
