(* ===== verification/DriverReceive.thy ===== *)
theory DriverReceive
  imports LineFramer SocketWrite
begin

text \<open>
  The receiving loops of the drivers in \<open>sw/Drivers/source\<close>: new-line mode and header mode
  of \<open>SocketClient.cpp\<close>, \<open>ClientHandler.cpp\<close>, \<open>QtSocketClient.cpp\<close> and
  \<open>QtClientHandler.cpp\<close>, and the reading loops of \<open>SerialDriver.cpp\<close> and
  \<open>QtSerialDriver.cpp\<close>. A loop runs over the answers of the operating system; the list of
  answers ends when the driver's state is no longer connected (or its thread no longer
  running) at the loop's test. The result is the listener's calls in order and the buffer.
\<close>

section \<open>Answers of the operating system\<close>

text \<open>The result of \<open>recv\<close> or \<open>read\<close>: some bytes, 0, or -1.\<close>

datatype recv_reply = Received bytes | Closed | Failed

fun reply_count :: "recv_reply \<Rightarrow> int" where
  "reply_count (Received bs) = int (length bs)"
| "reply_count Closed = 0"
| "reply_count Failed = - 1"

fun reply_bytes :: "recv_reply \<Rightarrow> bytes" where
  "reply_bytes (Received bs) = bs"
| "reply_bytes Closed = []"
| "reply_bytes Failed = []"

text \<open>\<open>static_cast<uint32_t>(recv_bytes)\<close>\<close>

definition reply_u32 :: "recv_reply \<Rightarrow> u32" where
  "reply_u32 r = word_of_int (reply_count r)"

text \<open>The listeners' calls: the event with its data and size arguments.\<close>

datatype client_event = SERVER_DISCONNECTED | SERVER_DATA_RECV bytes nat

datatype handler_event = CLIENT_DISCONNECTED int | DATA_RECEIVED int bytes nat

datatype serial_event = COMMUNICATION_ERROR | DATA_RECV bytes nat

definition server_data :: "bytes \<Rightarrow> client_event" where
  "server_data line = SERVER_DATA_RECV line (length line)"

definition handler_data :: "int \<Rightarrow> bytes \<Rightarrow> handler_event" where
  "handler_data client_id line = DATA_RECEIVED client_id line (length line)"

definition serial_data :: "bytes \<Rightarrow> serial_event" where
  "serial_data line = DATA_RECV line (length line)"

section \<open>New-line mode\<close>

fun client_delimiter_mode :: "recv_reply list \<Rightarrow> recv_buffer \<Rightarrow> client_event list \<times> recv_buffer" where
  "client_delimiter_mode [] b = ([], b)"
| "client_delimiter_mode (r # rs) b =
     (let b0 = wrap_if_full b
      in if reply_count r > 0
         then let (lines, b1) = drain_lines (store_chunk (reply_bytes r) b0);
                  (es, b2) = client_delimiter_mode rs b1
              in (map server_data lines @ es, b2)
         else if reply_count r = 0
         then ([SERVER_DISCONNECTED], b0)
         else client_delimiter_mode rs b0)"

fun handler_delimiter_mode ::
  "int \<Rightarrow> recv_reply list \<Rightarrow> recv_buffer \<Rightarrow> handler_event list \<times> recv_buffer" where
  "handler_delimiter_mode client_id [] b = ([], b)"
| "handler_delimiter_mode client_id (r # rs) b =
     (let b0 = wrap_if_full b
      in if reply_count r > 0
         then let (lines, b1) = drain_lines (store_chunk (reply_bytes r) b0);
                  (es, b2) = handler_delimiter_mode client_id rs b1
              in (map (handler_data client_id) lines @ es, b2)
         else if reply_count r = 0
         then ([CLIENT_DISCONNECTED client_id], b0)
         else handler_delimiter_mode client_id rs b0)"

text \<open>
  \<open>SerialDriver::startReadingLoop\<close>: every answer comes with the result of
  \<open>tcgetattr\<close>, which the driver asks for when \<open>read\<close> gave 0.
\<close>

fun startReadingLoop :: "(recv_reply \<times> bool) list \<Rightarrow> recv_buffer \<Rightarrow> serial_event list \<times> recv_buffer" where
  "startReadingLoop [] b = ([], b)"
| "startReadingLoop ((r, device_ok) # rs) b =
     (let b0 = wrap_if_full b
      in if reply_count r > 0
         then let (lines, b1) = drain_lines (store_chunk (reply_bytes r) b0);
                  (es, b2) = startReadingLoop rs b1
              in (map serial_data lines @ es, b2)
         else if reply_count r = 0
         then if \<not> device_ok
              then ([COMMUNICATION_ERROR], b0)
              else startReadingLoop rs b0
         else ([COMMUNICATION_ERROR], b0))"

text \<open>
  A round of a Qt loop: \<open>waitForReadyRead\<close> succeeded and the answers of \<open>read\<close> follow
  until it gives 0, or it failed, with or without \<open>RemoteHostClosedError\<close>.
\<close>

datatype qt_round = Ready "recv_reply list" | Not_Ready bool

fun qt_read_lines :: "recv_reply list \<Rightarrow> recv_buffer \<Rightarrow> bytes list \<times> recv_buffer" where
  "qt_read_lines [] b = ([], b)"
| "qt_read_lines (r # rs) b =
     (let b0 = wrap_if_full b
      in if reply_count r > 0
         then let (lines, b1) = drain_lines (store_chunk (reply_bytes r) b0);
                  (ls, b2) = qt_read_lines rs b1
              in (lines @ ls, b2)
         else if reply_count r = 0
         then ([], b0)
         else qt_read_lines rs b0)"

fun qt_client_delimiter_mode :: "qt_round list \<Rightarrow> recv_buffer \<Rightarrow> client_event list \<times> recv_buffer" where
  "qt_client_delimiter_mode [] b = ([], b)"
| "qt_client_delimiter_mode (Ready replies # rounds) b =
     (let (lines, b1) = qt_read_lines replies b;
          (es, b2) = qt_client_delimiter_mode rounds b1
      in (map server_data lines @ es, b2))"
| "qt_client_delimiter_mode (Not_Ready remote_closed # rounds) b =
     (if remote_closed then ([SERVER_DISCONNECTED], b) else qt_client_delimiter_mode rounds b)"

fun qt_handler_delimiter_mode ::
  "int \<Rightarrow> qt_round list \<Rightarrow> recv_buffer \<Rightarrow> handler_event list \<times> recv_buffer" where
  "qt_handler_delimiter_mode client_id [] b = ([], b)"
| "qt_handler_delimiter_mode client_id (Ready replies # rounds) b =
     (let (lines, b1) = qt_read_lines replies b;
          (es, b2) = qt_handler_delimiter_mode client_id rounds b1
      in (map (handler_data client_id) lines @ es, b2))"
| "qt_handler_delimiter_mode client_id (Not_Ready remote_closed # rounds) b =
     (if remote_closed then ([CLIENT_DISCONNECTED client_id], b) else qt_handler_delimiter_mode client_id rounds b)"

text \<open>
  The reading part of \<open>QtSerialDriver::receivingThread\<close>. It always asks for
  \<open>SERIAL_MAX_PAYLOAD_LENGTH\<close> bytes at the index and never makes room, so an answer that
  does not fit the rest of the vector is written outside it.
\<close>

fun qt_serial_read :: "recv_reply list \<Rightarrow> recv_buffer \<Rightarrow> (serial_event list \<times> recv_buffer) res" where
  "qt_serial_read [] b = Inr ([], b)"
| "qt_serial_read (r # rs) b =
     (if reply_count r > 0
      then if rb_idx b + length (reply_bytes r) \<le> length (rb_data b)
           then let (lines, b1) = drain_lines (store_chunk (reply_bytes r) b)
                in mapE (\<lambda>(es, b2). (map serial_data lines @ es, b2)) (qt_serial_read rs b1)
           else Inl OutOfBounds
      else qt_serial_read rs b)"

section \<open>Header mode\<close>

text \<open>
  One message of \<open>SocketClient::startHeaderMode\<close>: a \<open>recv\<close> of the header and, if it is
  complete, a \<open>recv\<close> of the payload into a buffer of the announced size.
\<close>

definition payload_buffer :: "u32 \<Rightarrow> recv_reply \<Rightarrow> bytes" where
  "payload_buffer payload_size r = overwrite 0 (reply_bytes r) (replicate (unat payload_size) 0)"

function client_header_mode :: "recv_reply list \<Rightarrow> bytes \<Rightarrow> (client_event list \<times> bytes) res" where
  "client_header_mode [] buffer = Inr ([], buffer)"
| "client_header_mode (h # rs) buffer =
     (if reply_count h = int HEADER_SIZE
      then bindE (decodeMessageLength (reply_bytes h)) (\<lambda>payload_size.
             case rs of
               [] \<Rightarrow> Inr ([], replicate (unat payload_size) 0)
             | r # rs' \<Rightarrow>
                 let buffer' = payload_buffer payload_size r
                 in if reply_u32 r = payload_size
                    then mapE (\<lambda>(es, b). (SERVER_DATA_RECV buffer' (unat payload_size) # es, b))
                           (client_header_mode rs' buffer')
                    else if reply_count r = 0
                    then Inr ([SERVER_DISCONNECTED], buffer')
                    else client_header_mode rs' buffer')
      else if reply_count h = 0
      then Inr ([SERVER_DISCONNECTED], buffer)
      else client_header_mode rs buffer)"
  by pat_completeness auto
termination
  by (relation "measure (length \<circ> fst)") auto

text \<open>
  \<open>ClientHandler::startHeaderMode\<close> receives the payload into its fixed buffer, whatever
  size was announced, and passes the whole buffer on.
\<close>

function handler_header_mode :: "int \<Rightarrow> recv_reply list \<Rightarrow> bytes \<Rightarrow> (handler_event list \<times> bytes) res" where
  "handler_header_mode client_id [] buffer = Inr ([], buffer)"
| "handler_header_mode client_id (h # rs) buffer =
     (if reply_count h = int HEADER_SIZE
      then bindE (decodeMessageLength (reply_bytes h)) (\<lambda>payload_size.
             case rs of
               [] \<Rightarrow> Inr ([], buffer)
             | r # rs' \<Rightarrow>
                 if length (reply_bytes r) \<le> length buffer
                 then let buffer' = overwrite 0 (reply_bytes r) buffer
                      in if reply_u32 r = payload_size
                         then mapE (\<lambda>(es, b). (DATA_RECEIVED client_id buffer' (unat payload_size) # es, b))
                                (handler_header_mode client_id rs' buffer')
                         else if reply_count r = 0
                         then Inr ([CLIENT_DISCONNECTED client_id], buffer')
                         else handler_header_mode client_id rs' buffer'
                 else Inl OutOfBounds)
      else if reply_count h = 0
      then Inr ([CLIENT_DISCONNECTED client_id], buffer)
      else handler_header_mode client_id rs buffer)"
  by pat_completeness auto
termination
  by (relation "measure (length \<circ> fst \<circ> snd)") auto

text \<open>
  The header mode of the Qt classes: any non-empty answer is taken for a header, decoded from
  the header vector (whose other bytes are those of the message before).
\<close>

function qt_read_messages :: "recv_reply list \<Rightarrow> bytes \<Rightarrow> bytes \<Rightarrow> (bytes option list \<times> bytes \<times> bytes) res" where
  "qt_read_messages [] header buffer = Inr ([], header, buffer)"
| "qt_read_messages (h # rs) header buffer =
     (if reply_count h > 0
      then let header' = overwrite 0 (reply_bytes h) header
           in bindE (decodeMessageLength header') (\<lambda>payload_size.
             case rs of
               [] \<Rightarrow> Inr ([], header', replicate (unat payload_size) 0)
             | r # rs' \<Rightarrow>
                 let buffer' = payload_buffer payload_size r
                 in if reply_u32 r = payload_size
                    then mapE (\<lambda>(ms, hb). (Some buffer' # ms, hb)) (qt_read_messages rs' header' buffer')
                    else if reply_count r = 0
                    then Inr ([None], header', buffer')
                    else qt_read_messages rs' header' buffer')
      else if reply_count h = 0
      then Inr ([], header, buffer)
      else qt_read_messages rs header buffer)"
  by pat_completeness auto
termination
  by (relation "measure (length \<circ> fst)") auto

definition qt_client_message :: "bytes option \<Rightarrow> client_event" where
  "qt_client_message m = (case m of None \<Rightarrow> SERVER_DISCONNECTED | Some p \<Rightarrow> SERVER_DATA_RECV p (length p))"

definition qt_handler_message :: "int \<Rightarrow> bytes option \<Rightarrow> handler_event" where
  "qt_handler_message client_id m =
     (case m of None \<Rightarrow> CLIENT_DISCONNECTED client_id | Some p \<Rightarrow> DATA_RECEIVED client_id p (length p))"

fun qt_client_header_mode :: "qt_round list \<Rightarrow> bytes \<Rightarrow> bytes \<Rightarrow> (client_event list \<times> bytes) res" where
  "qt_client_header_mode [] header buffer = Inr ([], buffer)"
| "qt_client_header_mode (Ready replies # rounds) header buffer =
     bindE (qt_read_messages replies header buffer) (\<lambda>(ms, header', buffer').
       mapE (\<lambda>(es, b). (map qt_client_message ms @ es, b)) (qt_client_header_mode rounds header' buffer'))"
| "qt_client_header_mode (Not_Ready remote_closed # rounds) header buffer =
     (if remote_closed then Inr ([SERVER_DISCONNECTED], buffer) else qt_client_header_mode rounds header buffer)"

fun qt_handler_header_mode :: "int \<Rightarrow> qt_round list \<Rightarrow> bytes \<Rightarrow> bytes \<Rightarrow> (handler_event list \<times> bytes) res" where
  "qt_handler_header_mode client_id [] header buffer = Inr ([], buffer)"
| "qt_handler_header_mode client_id (Ready replies # rounds) header buffer =
     bindE (qt_read_messages replies header buffer) (\<lambda>(ms, header', buffer').
       mapE (\<lambda>(es, b). (map (qt_handler_message client_id) ms @ es, b))
         (qt_handler_header_mode client_id rounds header' buffer'))"
| "qt_handler_header_mode client_id (Not_Ready remote_closed # rounds) header buffer =
     (if remote_closed then Inr ([CLIENT_DISCONNECTED client_id], buffer)
      else qt_handler_header_mode client_id rounds header buffer)"

section \<open>The contract of a loop that frames lines\<close>

text \<open>
  What the loops in new-line mode have in common, whatever events they make of a line: an
  answer with data stores it and hands out the complete lines.
\<close>

locale line_reader =
  fixes reader :: "'r list \<Rightarrow> recv_buffer \<Rightarrow> 'e list \<times> recv_buffer"
    and chunk :: "bytes \<Rightarrow> 'r"
    and line_event :: "bytes \<Rightarrow> 'e"
  assumes reader_end: "reader [] b = ([], b)"
    and reader_data: "c \<noteq> [] \<Longrightarrow>
      reader (chunk c # rs) b =
        (map line_event (fst (recv_lines c b)) @ fst (reader rs (snd (recv_lines c b))),
         snd (reader rs (snd (recv_lines c b))))"
begin

lemma reads_all:
  "\<forall>c \<in> set cs. c \<noteq> [] \<Longrightarrow>
   reader (map chunk cs @ rs) b =
     (map line_event (fst (recv_all cs b)) @ fst (reader rs (snd (recv_all cs b))),
      snd (reader rs (snd (recv_all cs b))))"
  by (induction cs arbitrary: b) (simp_all add: reader_data case_prod_unfold Let_def)

lemma chunks_nonempty: "chunks_fit cs b \<Longrightarrow> \<forall>c \<in> set cs. c \<noteq> []"
  by (induction cs arbitrary: b) auto

lemma delivers_lines:
  assumes "chunks_fit cs (empty_buffer cap)" "lines_fit cap (concat cs)"
  shows "fst (reader (map chunk cs @ rs) (empty_buffer cap)) =
     map line_event (fst (split_lines (concat cs))) @ fst (reader rs (snd (recv_all cs (empty_buffer cap))))"
  using reads_all [OF chunks_nonempty [OF assms(1)], of rs "empty_buffer cap"]
    recv_all_refines [of cap "empty_buffer cap" cs] assms
  by (simp add: prod_eq_iff)

text \<open>The unfinished line a connection leaves behind is put in front of what comes next.\<close>

lemma keeps_rest:
  assumes "buffer_ok cap b" "NEWLINE \<notin> set (pending b)" "chunks_fit cs b" "lines_fit cap (pending b @ concat cs)"
  shows "fst (reader (map chunk cs) b) = map line_event (fst (split_lines (pending b @ concat cs)))"
  using reads_all [OF chunks_nonempty [OF assms(3)], of "[]" b] recv_all_refines [OF assms]
  by (simp add: prod_eq_iff reader_end)

end

lemma received_step:
  "c \<noteq> [] \<Longrightarrow> reply_count (Received c) > 0"
  "recv_lines c b = drain_lines (store_chunk c (wrap_if_full b))"
  by (simp_all add: recv_lines_def)

interpretation client_lines: line_reader client_delimiter_mode Received server_data
  by unfold_locales (simp_all add: received_step case_prod_unfold Let_def)

interpretation handler_lines: line_reader "handler_delimiter_mode client_id" Received "handler_data client_id"
  for client_id
  by unfold_locales (simp_all add: received_step case_prod_unfold Let_def)

interpretation serial_lines: line_reader startReadingLoop "\<lambda>c. (Received c, ok)" serial_data
  for ok
  by unfold_locales (simp_all add: received_step case_prod_unfold Let_def)

interpretation qt_client_lines: line_reader qt_client_delimiter_mode "\<lambda>c. Ready [Received c]" server_data
  by unfold_locales (simp_all add: received_step case_prod_unfold Let_def)

interpretation qt_handler_lines:
  line_reader "qt_handler_delimiter_mode client_id" "\<lambda>c. Ready [Received c]" "handler_data client_id"
  for client_id
  by unfold_locales (simp_all add: received_step case_prod_unfold Let_def)

section \<open>Properties of new-line mode\<close>



text \<open>
  The serial driver delivers the lines of the stream too, also when the device pauses (an
  empty read with the device still there); when the device is gone, or a read fails, its
  listeners get one communication error and the loop ends.
\<close>

theorem serial_delivers_lines:
  "\<lbrakk>chunks_fit cs (empty_buffer SERIAL_MAX_PAYLOAD_LENGTH); lines_fit SERIAL_MAX_PAYLOAD_LENGTH (concat cs);
    (r, ok) = (Closed, False) \<or> r = Failed\<rbrakk> \<Longrightarrow>
   fst (startReadingLoop (map (\<lambda>c. (Received c, True)) cs @ (r, ok) # rs) (empty_buffer SERIAL_MAX_PAYLOAD_LENGTH)) =
     map serial_data (fst (split_lines (concat cs))) @ [COMMUNICATION_ERROR] \<and>
   fst (startReadingLoop ((Closed, True) # map (\<lambda>c. (Received c, True)) cs @ (r, ok) # rs) (empty_buffer SERIAL_MAX_PAYLOAD_LENGTH)) =
     map serial_data (fst (split_lines (concat cs))) @ [COMMUNICATION_ERROR]"
proof -
  assume a: "chunks_fit cs (empty_buffer SERIAL_MAX_PAYLOAD_LENGTH)" "lines_fit SERIAL_MAX_PAYLOAD_LENGTH (concat cs)"
    "(r, ok) = (Closed, False) \<or> r = Failed"
  have "wrap_if_full (empty_buffer SERIAL_MAX_PAYLOAD_LENGTH) = empty_buffer SERIAL_MAX_PAYLOAD_LENGTH"
    by (rule wrap_empty_buffer) (simp add: SERIAL_MAX_PAYLOAD_LENGTH_def)
  then show ?thesis
    using serial_lines.delivers_lines [OF a(1,2), of True "(r, ok) # rs"] a(3) by auto
qed

theorem serial_delivers_lines_witness:
  "fst (startReadingLoop [(Received [65, 10], True), (Failed, True)] (empty_buffer SERIAL_MAX_PAYLOAD_LENGTH)) =
     [serial_data [65, 10], COMMUNICATION_ERROR]"
proof -
  have split: "split_lines [65, 10] = ([[65, 10]], [])"
    using split_lines_line [of "[65]" "[]"] by (simp add: NEWLINE_def)
  have "chunks_fit [[65, 10]] (empty_buffer SERIAL_MAX_PAYLOAD_LENGTH)"
    "lines_fit SERIAL_MAX_PAYLOAD_LENGTH (concat [[65, 10]])"
    by (simp_all add: lines_fit_def split SERIAL_MAX_PAYLOAD_LENGTH_def)
  from serial_delivers_lines [OF this, of Failed True "[]"] show ?thesis by (simp add: split)
qed

text \<open>
  The index of the buffer is not reset when a connection ends: an unfinished line of one
  connection is put in front of the first line of the next.
\<close>

theorem reconnect_prefixes_old_line:
  "\<lbrakk>x \<noteq> []; NEWLINE \<notin> set x; NEWLINE \<notin> set y; length x + length y + 1 \<le> cap\<rbrakk> \<Longrightarrow>
   fst (client_delimiter_mode [Received x, Closed] (empty_buffer cap)) = [SERVER_DISCONNECTED] \<and>
   fst (client_delimiter_mode [Received (y @ [NEWLINE])] (snd (client_delimiter_mode [Received x, Closed] (empty_buffer cap)))) =
     [server_data (x @ y @ [NEWLINE])]"
proof -
  assume a: "x \<noteq> []" "NEWLINE \<notin> set x" "NEWLINE \<notin> set y" "length x + length y + 1 \<le> cap"
  let ?b = "snd (recv_lines x (empty_buffer cap))"
  have one: "buffer_ok cap ?b" "fst (recv_lines x (empty_buffer cap)) = []" "pending ?b = x" "rb_idx ?b = length x"
    by (rule recv_unfinished; use a in simp)+
  note idx = one(4)
  then have w2: "wrap_if_full ?b = ?b" using a one(1) by (simp add: wrap_if_full_def buffer_ok_def)
  have fst1: "client_delimiter_mode [Received x, Closed] (empty_buffer cap) = ([SERVER_DISCONNECTED], ?b)"
    using client_lines.reads_all [of "[x]" "[Closed]" "empty_buffer cap"] a(1) one(2) w2
    by (simp add: case_prod_unfold Let_def)
  have sp2: "recv_space ?b = cap - length x" using one(1) idx w2 by (simp add: recv_space_def buffer_ok_def)
  have split: "split_lines (x @ y @ [NEWLINE]) = ([x @ y @ [NEWLINE]], [])"
    using split_lines_line [of "x @ y" "[]"] a by simp
  have "fst (client_delimiter_mode (map Received [y @ [NEWLINE]]) ?b) =
      map server_data (fst (split_lines (pending ?b @ concat [y @ [NEWLINE]])))"
    by (rule client_lines.keeps_rest [OF one(1)]) (use a sp2 one(3) split in \<open>simp_all add: lines_fit_def\<close>)
  then show ?thesis using fst1 split one(3) by simp
qed

theorem reconnect_prefixes_old_line_witness:
  "fst (client_delimiter_mode [Received ([66] @ [NEWLINE])] (snd (client_delimiter_mode [Received [65], Closed] (empty_buffer 4)))) =
     [server_data ([65] @ [66] @ [NEWLINE])]"
  using reconnect_prefixes_old_line [of "[65]" "[66]" 4] by (simp add: NEWLINE_def)

section \<open>Properties of header mode\<close>

definition sent_message :: "bytes \<Rightarrow> recv_reply list" where
  "sent_message p = [Received (preapreHeader [] (word_of_nat (length p))), (if p = [] then Closed else Received p)]"

lemma header_reply [simp]: "length (preapreHeader [] n) = HEADER_SIZE"
  using header_announces_length by blast

lemma decode_header [simp]: "decodeMessageLength (preapreHeader [] n) = Inr n"
  using header_announces_length [of n "[]"] by simp

lemma length_u32 [simp]: "length p < 2 ^ 32 \<Longrightarrow> unat (word_of_nat (length p) :: u32) = length p"
  by (simp add: unat_of_nat)

lemma header_step:
  assumes "length p < 2 ^ 32"
  shows "client_header_mode (sent_message p @ rs) buffer =
    mapE (\<lambda>(es, b). (server_data p # es, b)) (client_header_mode rs p)"
proof -
  note len = length_u32 [OF assms]
  have pb: "payload_buffer (word_of_nat (length p)) (if p = [] then Closed else Received p) = p"
    unfolding payload_buffer_def len by (simp add: overwrite_def)
  then show ?thesis using len by (simp add: sent_message_def reply_u32_def server_data_def Let_def)
qed

text \<open>
  In header mode a socket client delivers every message of the server whole, empty ones
  included, when each \<open>recv\<close> returns what it asked for.
\<close>

theorem header_mode_delivers_messages:
  "\<forall>p \<in> set ps. length p < 2 ^ 32 \<Longrightarrow>
   mapE fst (client_header_mode (concat (map sent_message ps)) buffer) = Inr (map server_data ps)"
proof (induction ps arbitrary: buffer)
  case (Cons p ps)
  then have "mapE fst (client_header_mode (concat (map sent_message ps)) p) = Inr (map server_data ps)" by simp
  then show ?case
    using Cons.prems by (cases "client_header_mode (concat (map sent_message ps)) p") (auto simp: header_step)
qed simp

theorem header_mode_delivers_messages_witness:
  "mapE fst (client_header_mode (concat (map sent_message [[1, 2, 3], [], [4]])) []) =
     Inr (map server_data [[1, 2, 3], [], [4]])"
  by (rule header_mode_delivers_messages) simp

text \<open>
  A payload that arrives in two parts is lost, and the stream is out of step from then on:
  the first part is dropped without an event, and the next four bytes of the payload are taken
  for a header.
\<close>

theorem header_mode_split_payload:
  "\<lbrakk>p = a @ b; a \<noteq> []; length b = HEADER_SIZE; length p < 2 ^ 32; decodeMessageLength b = Inr n; n \<noteq> 0\<rbrakk> \<Longrightarrow>
   mapE fst (client_header_mode [Received (preapreHeader [] (word_of_nat (length p))), Received a, Received b, Closed] buffer)
     = Inr [SERVER_DISCONNECTED]"
proof -
  assume as: "p = a @ b" "a \<noteq> []" "length b = HEADER_SIZE" "length p < 2 ^ 32" "decodeMessageLength b = Inr n" "n \<noteq> 0"
  have "length a < 2 ^ 32" "length a \<noteq> length p" using as by (simp_all add: HEADER_SIZE_def)
  then have "unat (word_of_nat (length a) :: u32) \<noteq> unat (word_of_nat (length p) :: u32)"
    using length_u32 as(4) by metis
  then have ne: "(word_of_nat (length a) :: u32) \<noteq> word_of_nat (length p)" by metis
  then show ?thesis using as by (simp add: reply_u32_def Let_def)
qed

theorem header_mode_split_payload_witness:
  "mapE fst (client_header_mode [Received (preapreHeader [] (word_of_nat (length [7 :: byte, 0, 0, 0, 5]))), Received [7],
      Received [0, 0, 0, 5], Closed] []) = Inr [SERVER_DISCONNECTED]"
proof -
  have "decodeMessageLength [0, 0, 0, 5] = Inr 5" by code_simp
  from header_mode_split_payload [of "[7, 0, 0, 0, 5]" "[7]" "[0, 0, 0, 5]", OF _ _ _ _ this]
  show ?thesis by (simp add: HEADER_SIZE_def)
qed

text \<open>
  The server's handler receives a payload into a buffer of fixed size whatever the client
  announced: a longer payload is written outside the buffer.
\<close>

theorem handler_header_overflow:
  "\<lbrakk>length buffer < length p; length p < 2 ^ 32\<rbrakk> \<Longrightarrow>
   handler_header_mode client_id (sent_message p @ rs) buffer = Inl OutOfBounds"
  by (auto simp: sent_message_def)

theorem handler_header_overflow_witness:
  "handler_header_mode 3 (sent_message (replicate 4097 0) @ []) (replicate SOCKET_MAX_PAYLOAD_LENGTH 0) = Inl OutOfBounds"
  by (rule handler_header_overflow) (simp_all add: SOCKET_MAX_PAYLOAD_LENGTH_def)

text \<open>
  The Qt serial driver asks for a full buffer at whatever index it is: a line that is
  not finished makes the next large enough read go outside the buffer.
\<close>

theorem qt_serial_overflow:
  "\<lbrakk>x \<noteq> []; NEWLINE \<notin> set x; length x < cap; length y = cap\<rbrakk> \<Longrightarrow>
   qt_serial_read [Received x, Received y] (empty_buffer cap) = Inl OutOfBounds"
proof -
  assume a: "x \<noteq> []" "NEWLINE \<notin> set x" "length x < cap" "length y = cap"
  let ?d = "drain_lines (store_chunk x (empty_buffer cap))"
  have d: "?d = recv_lines x (empty_buffer cap)" using a by (auto simp: recv_lines_def)
  have "buffer_ok cap (snd ?d)" "rb_idx (snd ?d) = length x"
    unfolding d by (rule recv_unfinished; use a in simp)+
  then have "rb_idx (snd ?d) = length x" "length (rb_data (snd ?d)) = cap" by (simp_all add: buffer_ok_def)
  then show ?thesis
    using a by (simp add: case_prod_unfold Let_def)
qed

theorem qt_serial_overflow_witness:
  "qt_serial_read [Received [65], Received [66, 67]] (empty_buffer 2) = Inl OutOfBounds"
  by (rule qt_serial_overflow) (simp_all add: NEWLINE_def)

end
