(* ===== verification/SocketLink.thy ===== *)
theory SocketLink
  imports Prelude
begin

text \<open>
  The connection of \<open>sw/Drivers/source/SocketClient.cpp\<close>: \<open>connect\<close>, \<open>disconnect\<close>,
  the destructor and the outer loop of \<open>receivingThread\<close>, as an interleaving of the calling
  thread with the receiving thread over \<open>m_state\<close> and \<open>m_sock_fd\<close>. The operating system's
  table of open descriptors is part of the state, so that leaks and double uses show.
\<close>

section \<open>State\<close>

datatype link_state = IDLE | CONNECTING | CONNECTED | DISCONNECTING | CLOSING

text \<open>Where the receiving thread is in the body of its loop.\<close>

datatype receiver_pc = R_Check | R_Wait | R_Receive | R_SetIdle | R_Close | R_ResetFd | R_Ended

text \<open>
  Where the calling thread is: outside, between \<open>socket\<close> and the other calls of
  \<open>connect\<close>, in the wait of \<open>connect\<close> or of \<open>disconnect\<close>, in the destructor before
  the end of the worker is requested, or joining it.
\<close>

datatype caller_pc = C_Out | C_Setup | C_WaitConnected | C_WaitIdle | C_Destroy | C_Join

record link =
  m_state :: link_state
  m_sock_fd :: int
  open_fds :: "int list"
  receiver :: receiver_pc
  worker_running :: bool
  caller :: caller_pc
  result :: bool

definition link_init :: link where
  "link_init = \<lparr>m_state = IDLE, m_sock_fd = - 1, open_fds = [], receiver = R_Check, worker_running = True,
                caller = C_Out, result = False\<rparr>"

definition isConnected :: "link \<Rightarrow> bool" where
  "isConnected s \<longleftrightarrow> m_state s = CONNECTING \<or> m_state s = CONNECTED"

definition close_fd :: "int \<Rightarrow> link \<Rightarrow> link" where
  "close_fd fd s = s\<lparr>open_fds := removeAll fd (open_fds s)\<rparr>"

section \<open>The calling thread\<close>

text \<open>The answers of the calls after \<open>socket\<close>, in their order.\<close>

definition setup_ok :: "int \<Rightarrow> int \<Rightarrow> int \<Rightarrow> bool" where
  "setup_ok setsockopt_ret inet_pton_ret connect_ret \<longleftrightarrow>
     setsockopt_ret \<noteq> - 1 \<and> inet_pton_ret > 0 \<and> connect_ret = 0"

datatype caller_move =
    ConnectSocket int
  | ConnectSetup int int int
  | WaitOver
  | Disconnect
  | Destroy
  | StopWorker

text \<open>
  \<open>connect\<close> up to the call of \<open>socket\<close>, which answers with an unused descriptor or a
  negative number.
\<close>

definition connect_socket :: "int \<Rightarrow> link \<Rightarrow> link option" where
  "connect_socket fd s =
     (if caller s \<noteq> C_Out \<or> fd \<in> set (open_fds s) then None
      else if isConnected s then Some (s\<lparr>result := False\<rparr>)
      else if fd \<ge> 0 then Some (s\<lparr>m_sock_fd := fd, open_fds := fd # open_fds s, caller := C_Setup\<rparr>)
      else Some (s\<lparr>m_sock_fd := fd, result := False\<rparr>))"

definition connect_setup :: "int \<Rightarrow> int \<Rightarrow> int \<Rightarrow> link \<Rightarrow> link option" where
  "connect_setup setsockopt_ret inet_pton_ret connect_ret s =
     (if caller s \<noteq> C_Setup then None
      else if setup_ok setsockopt_ret inet_pton_ret connect_ret
      then Some (s\<lparr>m_state := CONNECTING, caller := C_WaitConnected\<rparr>)
      else Some (close_fd (m_sock_fd s) s\<lparr>m_sock_fd := - 1, caller := C_Out, result := False\<rparr>))"

text \<open>
  The end of a wait, by its condition or by its timeout: \<open>connect\<close> then returns whether the
  condition holds.
\<close>

definition wait_over :: "link \<Rightarrow> link option" where
  "wait_over s =
     (case caller s of
        C_WaitConnected \<Rightarrow> Some (s\<lparr>caller := C_Out, result := (m_state s \<noteq> CONNECTING)\<rparr>)
      | C_WaitIdle \<Rightarrow> Some (s\<lparr>caller := C_Out\<rparr>)
      | _ \<Rightarrow> None)"

definition disconnect :: "link \<Rightarrow> link option" where
  "disconnect s =
     (if caller s \<noteq> C_Out then None
      else if isConnected s then Some (s\<lparr>m_state := DISCONNECTING, caller := C_WaitIdle\<rparr>)
      else Some s)"

text \<open>The destructor after its call of \<open>disconnect\<close>, which leaves the driver not connected.\<close>

definition destroy :: "link \<Rightarrow> link option" where
  "destroy s = (if caller s \<noteq> C_Out \<or> isConnected s then None
                else Some (s\<lparr>m_state := CLOSING, caller := C_Destroy\<rparr>))"

definition stop_worker :: "link \<Rightarrow> link option" where
  "stop_worker s = (if caller s \<noteq> C_Destroy then None else Some (s\<lparr>worker_running := False, caller := C_Join\<rparr>))"

fun caller_step :: "caller_move \<Rightarrow> link \<Rightarrow> link option" where
  "caller_step (ConnectSocket fd) s = connect_socket fd s"
| "caller_step (ConnectSetup a b c) s = connect_setup a b c s"
| "caller_step WaitOver s = wait_over s"
| "caller_step Disconnect s = disconnect s"
| "caller_step Destroy s = destroy s"
| "caller_step StopWorker s = stop_worker s"

section \<open>The receiving thread\<close>

text \<open>
  One step of \<open>receivingThread\<close>; \<open>leave\<close> says whether the receiving loop has just ended
  by itself (the server closed the connection). In the wait the thread blocks while the
  state is \<open>IDLE\<close>.
\<close>

definition receiver_step :: "bool \<Rightarrow> link \<Rightarrow> link option" where
  "receiver_step leave s =
     (case receiver s of
        R_Check \<Rightarrow> Some (s\<lparr>receiver := (if worker_running s then R_Wait else R_Ended)\<rparr>)
      | R_Wait \<Rightarrow>
          (case m_state s of
             IDLE \<Rightarrow> None
           | CONNECTING \<Rightarrow> Some (s\<lparr>m_state := CONNECTED, receiver := R_Receive\<rparr>)
           | CLOSING \<Rightarrow> Some (s\<lparr>receiver := R_Ended\<rparr>)
           | _ \<Rightarrow> Some (s\<lparr>receiver := R_SetIdle\<rparr>))
      | R_Receive \<Rightarrow>
          if m_state s = CONNECTED \<and> \<not> leave then Some s else Some (s\<lparr>receiver := R_SetIdle\<rparr>)
      | R_SetIdle \<Rightarrow> Some (s\<lparr>m_state := IDLE, receiver := R_Close\<rparr>)
      | R_Close \<Rightarrow> Some (close_fd (m_sock_fd s) s\<lparr>receiver := R_ResetFd\<rparr>)
      | R_ResetFd \<Rightarrow> Some (s\<lparr>m_sock_fd := - 1, receiver := R_Check\<rparr>)
      | R_Ended \<Rightarrow> None)"

section \<open>Runs\<close>

datatype link_move = Caller caller_move | Receiver bool

fun link_step :: "link_move \<Rightarrow> link \<Rightarrow> link option" where
  "link_step (Caller c) s = caller_step c s"
| "link_step (Receiver leave) s = receiver_step leave s"

fun link_steps :: "link_move list \<Rightarrow> link \<Rightarrow> link option" where
  "link_steps [] s = Some s"
| "link_steps (m # ms) s = Option.bind (link_step m s) (link_steps ms)"

text \<open>The states reached by moves that all satisfy a condition on the state they start in.\<close>

inductive link_reach :: "(link_move \<Rightarrow> link \<Rightarrow> bool) \<Rightarrow> link \<Rightarrow> bool" for allowed where
  reach_init: "link_reach allowed link_init"
| reach_step: "\<lbrakk>link_reach allowed s; allowed m s; link_step m s = Some t\<rbrakk> \<Longrightarrow> link_reach allowed t"

definition any_move :: "link_move \<Rightarrow> link \<Rightarrow> bool" where
  "any_move m s = True"

text \<open>A careful caller connects only when the receiving thread has finished with the last connection.\<close>

definition careful :: "link_move \<Rightarrow> link \<Rightarrow> bool" where
  "careful m s \<longleftrightarrow>
     (case m of Caller (ConnectSocket fd) \<Rightarrow> m_state s = IDLE \<and> receiver s \<in> {R_Check, R_Wait} \<or> isConnected s
      | _ \<Rightarrow> True)"

lemma link_steps_reach:
  "link_steps ms s = Some t \<Longrightarrow> link_reach any_move s \<Longrightarrow> link_reach any_move t"
proof (induction ms arbitrary: s)
  case (Cons m ms)
  then obtain u where u: "link_step m s = Some u" "link_steps ms u = Some t"
    by (auto simp: Option.bind_eq_Some_conv)
  have "any_move m s" by (simp add: any_move_def)
  from reach_step [OF Cons.prems(2) this u(1)] have "link_reach any_move u" .
  with Cons.IH u show ?case by blast
qed simp

section \<open>The invariant of careful use\<close>

definition fd_ok :: "link \<Rightarrow> bool" where
  "fd_ok s \<longleftrightarrow> open_fds s = (if m_sock_fd s \<ge> 0 \<and> receiver s \<noteq> R_ResetFd then [m_sock_fd s] else [])"

definition phase_ok :: "link \<Rightarrow> bool" where
  "phase_ok s \<longleftrightarrow>
     (m_state s = IDLE \<longrightarrow> receiver s \<notin> {R_Receive, R_SetIdle}) \<and>
     (m_state s = IDLE \<and> receiver s \<in> {R_Check, R_Wait} \<longrightarrow> (m_sock_fd s \<ge> 0 \<longleftrightarrow> caller s = C_Setup)) \<and>
     (m_state s = CONNECTING \<longrightarrow> receiver s \<in> {R_Check, R_Wait} \<and> m_sock_fd s \<ge> 0) \<and>
     (m_state s = CONNECTED \<longrightarrow> receiver s \<in> {R_Receive, R_SetIdle} \<and> m_sock_fd s \<ge> 0) \<and>
     (m_state s = CLOSING \<longrightarrow> caller s \<in> {C_Destroy, C_Join}) \<and>
     (caller s \<in> {C_Destroy, C_Join} \<longrightarrow> m_state s \<notin> {CONNECTING, CONNECTED}) \<and>
     (caller s = C_Setup \<longrightarrow> m_state s = IDLE \<and> receiver s \<in> {R_Check, R_Wait} \<and> m_sock_fd s \<ge> 0) \<and>
     (receiver s = R_Ended \<longrightarrow> caller s \<in> {C_Destroy, C_Join}) \<and>
     (worker_running s \<longleftrightarrow> caller s \<noteq> C_Join)"

lemmas link_ops = connect_socket_def connect_setup_def wait_over_def disconnect_def destroy_def stop_worker_def
  receiver_step_def isConnected_def close_fd_def careful_def

definition link_inv :: "link \<Rightarrow> bool" where
  "link_inv s \<longleftrightarrow> fd_ok s \<and> phase_ok s"

lemmas inv_defs = link_inv_def fd_ok_def phase_ok_def

text \<open>The invariant by cases on where everybody is.\<close>

lemma connect_socket_inv:
  "link_inv s \<Longrightarrow> careful (Caller (ConnectSocket fd)) s \<Longrightarrow> pred_option link_inv (connect_socket fd s)"
  by (cases "m_state s"; cases "caller s"; cases "receiver s")
    (simp_all add: inv_defs connect_socket_def isConnected_def careful_def)

lemma connect_setup_inv: "link_inv s \<Longrightarrow> pred_option link_inv (connect_setup x y z s)"
  by (cases "caller s"; cases "receiver s") (simp_all add: inv_defs connect_setup_def close_fd_def)

lemma wait_over_inv: "link_inv s \<Longrightarrow> pred_option link_inv (wait_over s)"
  by (cases "caller s"; cases "m_state s"; cases "receiver s") (simp_all add: inv_defs wait_over_def)

lemma disconnect_inv: "link_inv s \<Longrightarrow> pred_option link_inv (disconnect s)"
  by (cases "caller s"; cases "m_state s"; cases "receiver s") (simp_all add: inv_defs disconnect_def isConnected_def)

lemma destroy_inv: "link_inv s \<Longrightarrow> pred_option link_inv (destroy s)"
  by (cases "caller s"; cases "m_state s"; cases "receiver s") (simp_all add: inv_defs destroy_def isConnected_def)

lemma stop_worker_inv: "link_inv s \<Longrightarrow> pred_option link_inv (stop_worker s)"
  by (cases "caller s"; cases "m_state s"; cases "receiver s") (simp_all add: inv_defs stop_worker_def)

lemma receiver_inv: "link_inv s \<Longrightarrow> pred_option link_inv (receiver_step leave s)"
  by (cases "receiver s"; cases "m_state s"; cases "caller s")
    (simp_all add: inv_defs receiver_step_def close_fd_def)

lemmas step_inv = connect_setup_inv wait_over_inv disconnect_inv destroy_inv stop_worker_inv receiver_inv

lemma careful_step: "link_inv s \<Longrightarrow> careful m s \<Longrightarrow> pred_option link_inv (link_step m s)"
proof (cases m)
  case (Caller c)
  assume "link_inv s" "careful m s"
  with Caller connect_socket_inv step_inv show ?thesis by (cases c) simp_all
qed (use step_inv in simp)

lemma careful_inv: "link_reach careful s \<Longrightarrow> link_inv s"
proof (induction rule: link_reach.induct)
  case reach_init
  show ?case by (simp add: inv_defs link_init_def)
next
  case (reach_step s m t)
  then show ?case using careful_step [of s m] by simp
qed

lemma link_steps_append: "link_steps (xs @ ys) s = Option.bind (link_steps xs s) (link_steps ys)"
proof (induction xs arbitrary: s)
  case (Cons m xs)
  then show ?case by (cases "link_step m s") simp_all
qed simp

section \<open>Properties\<close>



text \<open>
  C32. A connection ends when it is told to: after \<open>disconnect\<close> on a connected driver, five
  steps of the receiving thread bring it back to \<open>IDLE\<close>, waiting, with its descriptor closed.
\<close>

theorem disconnect_completes:
  "\<lbrakk>link_reach careful s; m_state s = CONNECTED; caller s = C_Out; receiver s = R_Receive\<rbrakk> \<Longrightarrow>
   \<exists>t. link_steps [Caller Disconnect, Receiver False, Receiver False, Receiver False, Receiver False, Receiver False, Caller WaitOver] s = Some t \<and>
       m_state t = IDLE \<and> receiver t = R_Wait \<and> caller t = C_Out \<and> open_fds t = [] \<and> m_sock_fd t = - 1"
  using careful_inv [of s] by (simp add: link_ops inv_defs)

theorem disconnect_completes_witness:
  "\<exists>t. link_steps [Caller (ConnectSocket 5), Caller (ConnectSetup 0 1 0), Receiver False, Receiver False, Caller WaitOver,
        Caller Disconnect, Receiver False, Receiver False, Receiver False, Receiver False, Receiver False, Caller WaitOver] link_init = Some t \<and>
       m_state t = IDLE \<and> open_fds t = []"
proof -
  let ?s1 = "link_init\<lparr>m_sock_fd := 5, open_fds := [5], caller := C_Setup\<rparr>"
  let ?s2 = "?s1\<lparr>m_state := CONNECTING, caller := C_WaitConnected\<rparr>"
  let ?s3 = "?s2\<lparr>receiver := R_Wait\<rparr>"
  let ?s4 = "?s3\<lparr>m_state := CONNECTED, receiver := R_Receive\<rparr>"
  let ?s5 = "?s4\<lparr>caller := C_Out, result := True\<rparr>"
  have "link_reach careful ?s1"
    by (rule reach_step [OF reach_init, of _ "Caller (ConnectSocket 5)"]) (simp_all add: link_ops link_init_def)
  then have "link_reach careful ?s2"
    by (rule reach_step [of _ _ "Caller (ConnectSetup 0 1 0)"]) (simp_all add: link_ops setup_ok_def)
  then have "link_reach careful ?s3"
    by (rule reach_step [of _ _ "Receiver False"]) (simp_all add: link_ops link_init_def)
  then have "link_reach careful ?s4"
    by (rule reach_step [of _ _ "Receiver False"]) (simp_all add: link_ops)
  then have r: "link_reach careful ?s5"
    by (rule reach_step [of _ _ "Caller WaitOver"]) (simp_all add: link_ops)
  have "link_steps [Caller (ConnectSocket 5), Caller (ConnectSetup 0 1 0), Receiver False, Receiver False, Caller WaitOver] link_init = Some ?s5"
    by (simp add: link_ops setup_ok_def link_init_def)
  note connected = this
  obtain t where t: "link_steps [Caller Disconnect, Receiver False, Receiver False, Receiver False, Receiver False,
      Receiver False, Caller WaitOver] ?s5 = Some t" "m_state t = IDLE" "open_fds t = []"
    using disconnect_completes [OF r] by auto
  show ?thesis
    using link_steps_append [of "[Caller (ConnectSocket 5), Caller (ConnectSetup 0 1 0), Receiver False, Receiver False, Caller WaitOver]"
        "[Caller Disconnect, Receiver False, Receiver False, Receiver False, Receiver False, Receiver False, Caller WaitOver]" link_init]
      connected t by (simp del: link_steps.simps)
qed

text \<open>
  The receiving thread sets \<open>IDLE\<close> before it closes its descriptor. A \<open>connect\<close> in
  between succeeds, but its own descriptor is the one that is closed: the driver says it is
  connected and has none.
\<close>

theorem connect_during_teardown:
  "\<exists>s. link_reach any_move s \<and> isConnected s \<and> result s \<and> caller s = C_Out \<and> m_sock_fd s = - 1 \<and> 6 \<notin> set (open_fds s)"
proof -
  have "\<exists>t. link_steps [Receiver False, Caller (ConnectSocket 5), Caller (ConnectSetup 0 1 0), Receiver False, Caller WaitOver,
      Receiver True, Receiver False, Caller (ConnectSocket 6), Receiver False, Receiver False, Caller (ConnectSetup 0 1 0),
      Receiver False, Receiver False, Caller WaitOver] link_init = Some t \<and>
      isConnected t \<and> result t \<and> caller t = C_Out \<and> m_sock_fd t = - 1 \<and> 6 \<notin> set (open_fds t)"
    by (simp add: link_ops setup_ok_def link_init_def)
  then show ?thesis using link_steps_reach [OF _ reach_init] by blast
qed

text \<open>
  The wait of \<open>disconnect\<close> ends after 500 ms, as long as one blocked \<open>recv\<close> may last.
  If the destructor goes on then, the receiving thread overwrites \<open>CLOSING\<close> with \<open>IDLE\<close>
  and waits for a state that never comes, while the destructor waits for it to end: a deadlock.
\<close>

theorem destructor_deadlock:
  "\<exists>s. link_reach any_move s \<and> caller s = C_Join \<and> receiver s = R_Wait \<and> (\<forall>m. link_step m s = None)"
proof -
  have "\<exists>t. link_steps [Receiver False, Caller (ConnectSocket 5), Caller (ConnectSetup 0 1 0), Receiver False, Caller WaitOver,
      Caller Disconnect, Caller WaitOver, Caller Destroy, Receiver False, Receiver False, Receiver False, Receiver False,
      Receiver False, Caller StopWorker] link_init = Some t \<and>
      caller t = C_Join \<and> receiver t = R_Wait \<and> m_state t = IDLE"
    by (simp add: link_ops setup_ok_def link_init_def)
  then obtain t where t: "link_reach any_move t" "caller t = C_Join" "receiver t = R_Wait" "m_state t = IDLE"
    using link_steps_reach [OF _ reach_init] by blast
  have "link_step m t = None" for m
  proof (cases m)
    case (Caller c)
    then show ?thesis using t by (cases c) (simp_all add: link_ops)
  qed (use t in \<open>simp add: link_ops\<close>)
  with t show ?thesis by blast
qed

end
