(* ===== verification/CppText.thy ===== *)
theory CppText
  imports Prelude
begin

text \<open>
  The parts of the C++ standard library's text handling the program uses:
  \<open>std::getline\<close> on a string stream, \<open>std::to_string\<close>, \<open>std::stoll\<close>,
  \<open>std::stoi\<close> and \<open>atoi\<close>. Strings are lists of bytes as characters.
\<close>

section \<open>std::getline\<close>

text \<open>
  One call: the characters up to the delimiter, and the stream after it (the delimiter is
  consumed and not stored).
\<close>

definition getline1 :: "char \<Rightarrow> string \<Rightarrow> string \<times> string" where
  "getline1 d s = (takeWhile (\<lambda>c. c \<noteq> d) s, drop 1 (dropWhile (\<lambda>c. c \<noteq> d) s))"

text \<open>
  \<open>while (std::getline(ss, x, d)) out.push_back(x)\<close>: the stream converts to false only
  when a call extracts nothing at the end of the text, so a trailing delimiter yields no
  empty last piece.
\<close>

function getlines :: "char \<Rightarrow> string \<Rightarrow> string list" where
  "getlines d s = (if s = [] then [] else fst (getline1 d s) # getlines d (snd (getline1 d s)))"
  by pat_completeness auto
termination
proof (relation "measure (\<lambda>(d, s). length s)", simp)
  fix d :: char and s :: string
  assume "s \<noteq> []"
  then have "length (drop 1 (dropWhile (\<lambda>c. c \<noteq> d) s)) < length s"
    using length_dropWhile_le [of "\<lambda>c. c \<noteq> d" s]
    by (cases s) (auto simp: less_Suc_eq_le intro: le_trans [OF diff_le_self])
  then show "((d, snd (getline1 d s)), (d, s)) \<in> measure (\<lambda>(d, s). length s)"
    by (simp add: getline1_def)
qed

declare getlines.simps [simp del]

lemma getlines_Nil [simp]: "getlines d [] = []"
  by (simp add: getlines.simps)

lemma getline1_delim: "d \<notin> set x \<Longrightarrow> getline1 d (x @ d # ys) = (x, ys)"
  by (induction x) (auto simp: getline1_def)

lemma getline1_last: "d \<notin> set x \<Longrightarrow> getline1 d x = (x, [])"
  by (induction x) (auto simp: getline1_def)

lemma getlines_delim: "d \<notin> set x \<Longrightarrow> getlines d (x @ d # ys) = x # getlines d ys"
  by (subst getlines.simps) (simp add: getline1_delim)

lemma getlines_last: "d \<notin> set x \<Longrightarrow> x \<noteq> [] \<Longrightarrow> getlines d x = [x]"
  by (subst getlines.simps) (simp add: getline1_last)

text \<open>Joining pieces with a trailing delimiter and splitting them again.\<close>

definition terminated :: "char \<Rightarrow> string list \<Rightarrow> string" where
  "terminated d xs = concat (map (\<lambda>x. x @ [d]) xs)"

lemma terminated_simps [simp]:
  "terminated d [] = []" "terminated d (x # xs) = x @ d # terminated d xs"
  by (simp_all add: terminated_def)

lemma getlines_terminated: "\<forall>x \<in> set xs. d \<notin> set x \<Longrightarrow> getlines d (terminated d xs) = xs"
  by (induction xs) (simp_all add: getlines_delim)

lemma getlines_no_delim: "x \<in> set (getlines d s) \<Longrightarrow> d \<notin> set x"
proof (induction d s rule: getlines.induct)
  case (1 d s)
  show ?case
  proof (cases "s = []")
    case False
    with "1.prems" have "x = takeWhile (\<lambda>c. c \<noteq> d) s \<or> x \<in> set (getlines d (snd (getline1 d s)))"
      by (subst (asm) getlines.simps) (simp add: getline1_def)
    then show ?thesis using "1.IH" [OF False] by (auto dest: set_takeWhileD)
  qed (use "1.prems" in simp)
qed

section \<open>Decimal numbers\<close>

definition digit_char :: "nat \<Rightarrow> char" where
  "digit_char n = char_of (48 + n)"

definition is_digit :: "char \<Rightarrow> bool" where
  "is_digit c \<longleftrightarrow> 48 \<le> (of_char c :: nat) \<and> (of_char c :: nat) \<le> 57"

definition digit_val :: "char \<Rightarrow> nat" where
  "digit_val c = of_char c - 48"

lemma digit_char_simps [simp]:
  assumes "n < 10"
  shows "is_digit (digit_char n)" "digit_val (digit_char n) = n"
  using assms by (simp_all add: digit_char_def is_digit_def digit_val_def of_char_of)

text \<open>\<open>std::to_string\<close> of an unsigned and of a signed integer.\<close>

fun to_string :: "nat \<Rightarrow> string" where
  "to_string n = (if n < 10 then [digit_char n] else to_string (n div 10) @ [digit_char (n mod 10)])"

declare to_string.simps [simp del]

definition to_string_int :: "int \<Rightarrow> string" where
  "to_string_int i = (if i < 0 then CHR ''-'' # to_string (nat (- i)) else to_string (nat i))"

text \<open>\<open>%.2u\<close> and \<open>%.3lu\<close>: at least that many digits.\<close>

definition zero_pad :: "nat \<Rightarrow> nat \<Rightarrow> string" where
  "zero_pad w n = replicate (w - length (to_string n)) (CHR ''0'') @ to_string n"

definition dec_val :: "string \<Rightarrow> nat" where
  "dec_val s = foldl (\<lambda>acc c. acc * 10 + digit_val c) 0 s"

lemma dec_val_snoc: "dec_val (s @ [c]) = dec_val s * 10 + digit_val c"
  by (simp add: dec_val_def)

lemma to_string_not_Nil [simp]: "to_string n \<noteq> []"
  by (subst to_string.simps) simp

lemma to_string_digits: "list_all is_digit (to_string n)"
proof (induction n rule: to_string.induct)
  case (1 n)
  then show ?case by (subst to_string.simps) simp
qed

lemma dec_val_to_string [simp]: "dec_val (to_string n) = n"
proof (induction n rule: to_string.induct)
  case (1 n)
  then show ?case
    by (subst to_string.simps) (auto simp: dec_val_snoc, simp add: dec_val_def)
qed

lemma to_string_inj [simp]: "to_string m = to_string n \<longleftrightarrow> m = n"
  by (metis dec_val_to_string)

lemma to_string_no: "\<not> is_digit c \<Longrightarrow> c \<notin> set (to_string n)"
  using to_string_digits [of n] by (auto simp: list_all_iff)

lemma to_string_hd_digit: "\<exists>c s. to_string n = c # s \<and> is_digit c"
  using to_string_digits [of n] by (cases "to_string n") auto

text \<open>
  The reading side. \<open>strtol\<close> skips white space, takes an optional sign and the longest
  run of digits; \<open>None\<close> when there is no digit.
\<close>

definition is_space :: "char \<Rightarrow> bool" where
  "is_space c \<longleftrightarrow> c = CHR '' '' \<or> (9 \<le> (of_char c :: nat) \<and> (of_char c :: nat) \<le> 13)"

definition scan_digits :: "string \<Rightarrow> nat option" where
  "scan_digits s = (let ds = takeWhile is_digit s in if ds = [] then None else Some (dec_val ds))"

definition scan_int :: "string \<Rightarrow> int option" where
  "scan_int s =
     (case dropWhile is_space s of
        [] \<Rightarrow> None
      | c # cs \<Rightarrow>
          if c = CHR ''-'' then map_option (\<lambda>n. - int n) (scan_digits cs)
          else if c = CHR ''+'' then map_option int (scan_digits cs)
          else map_option int (scan_digits (c # cs)))"

text \<open>\<open>std::stoll\<close> and \<open>std::stoi\<close>: an exception when there is no number or it does not fit.\<close>

definition in_range :: "nat \<Rightarrow> int \<Rightarrow> bool" where
  "in_range w i \<longleftrightarrow> - (2 ^ (w - 1)) \<le> i \<and> i < 2 ^ (w - 1)"

definition sto :: "nat \<Rightarrow> string \<Rightarrow> int res" where
  "sto w s =
     (case scan_int s of
        None \<Rightarrow> Inl InvalidArgument
      | Some i \<Rightarrow> if in_range w i then Inr i else Inl OutOfRange)"

definition stoll :: "string \<Rightarrow> int res" where
  "stoll = sto 64"

definition stoi :: "string \<Rightarrow> int res" where
  "stoi = sto 32"

text \<open>
  \<open>atoi\<close> of the C library the program is built with: \<open>(int) strtol(s, NULL, 10)\<close>.
  \<open>strtol\<close> saturates at 64 bits, the conversion keeps the low 32 bits as a signed value,
  and a text without a number gives 0.
\<close>

definition clamp64 :: "int \<Rightarrow> int" where
  "clamp64 i = max (- (2 ^ 63)) (min (2 ^ 63 - 1) i)"

definition atoi :: "string \<Rightarrow> int" where
  "atoi s = (case scan_int s of
      None \<Rightarrow> 0
    | Some i \<Rightarrow> sint (word_of_int (clamp64 i) :: 32 word))"

lemma not_space_digit: "is_digit c \<Longrightarrow> \<not> is_space c"
  by (auto simp: is_digit_def is_space_def)

lemma digit_not_sign: "is_digit c \<Longrightarrow> c \<noteq> CHR ''-'' \<and> c \<noteq> CHR ''+''"
  by (auto simp: is_digit_def)

lemma scan_int_to_string [simp]: "scan_int (to_string n) = Some (int n)"
proof -
  obtain c s where cs: "to_string n = c # s" "is_digit c"
    using to_string_hd_digit by blast
  have all: "takeWhile is_digit (to_string n) = to_string n"
    using to_string_digits by (simp add: takeWhile_eq_all_conv list_all_iff)
  then have "scan_digits (to_string n) = Some n" by (simp only: scan_digits_def Let_def) simp
  then have "scan_digits (c # s) = Some n" by (simp only: cs(1))
  then show ?thesis
    using cs not_space_digit [OF cs(2)] digit_not_sign [OF cs(2)]
    by (simp add: scan_int_def)
qed

lemma sto_to_string: "in_range w (int n) \<Longrightarrow> sto w (to_string n) = Inr (int n)"
  by (simp add: sto_def)

lemma stoll_to_string: "n < 2 ^ 63 \<Longrightarrow> stoll (to_string n) = Inr (int n)"
  unfolding stoll_def
  by (rule sto_to_string) (use of_nat_less_iff [of n "2 ^ 63", where 'a = int] in \<open>simp add: in_range_def\<close>)

lemma stoi_to_string: "n < 2 ^ 31 \<Longrightarrow> stoi (to_string n) = Inr (int n)"
  unfolding stoi_def
  by (rule sto_to_string) (use of_nat_less_iff [of n "2 ^ 31", where 'a = int] in \<open>simp add: in_range_def\<close>)

lemma stoi_to_string_overflow: "2 ^ 31 \<le> n \<Longrightarrow> stoi (to_string n) = Inl OutOfRange"
  using of_nat_le_iff [of "2 ^ 31" n, where 'a = int] by (simp add: stoi_def sto_def in_range_def)

lemma stoll_word [simp]: "stoll (to_string (unat (x :: u32))) = Inr (uint x)"
proof -
  have "unat x < 2 ^ 32" using unsigned_less [of x, where 'a = nat] by simp
  then have "unat x < 2 ^ 63" by (rule less_le_trans) simp
  then show ?thesis by (simp add: stoll_to_string)
qed

lemma stoll_byte [simp]: "stoll (to_string (unat (x :: u8))) = Inr (uint x)"
proof -
  have "unat x < 2 ^ 8" using unsigned_less [of x, where 'a = nat] by simp
  then have "unat x < 2 ^ 63" by (rule less_le_trans) simp
  then show ?thesis by (simp add: stoll_to_string)
qed

end
