(* ===== verification/PortSettings.thy ===== *)
theory PortSettings
  imports CppText
begin

text \<open>
  The settings of a port: the enumerations of \<open>sw/Drivers/public/ISerialDriver.h\<close> with
  \<open>sw/Utilities/public/EnumValue.hpp\<close> and the specialisations of \<open>toName\<close> and
  \<open>fromName\<close> in \<open>sw/Drivers/source/SerialDriver.cpp\<close>, \<open>Drivers::Serial::Settings\<close>,
  and \<open>Dialogs::PortSettingDialog::Settings\<close> of \<open>sw/Dialogs/public/PortSettingDialog.h\<close>.
\<close>

section \<open>Enumerations\<close>

datatype BaudRate =
  BR_1200 | BR_2400 | BR_4800 | BR_9600 | BR_19200 | BR_38400 | BR_57600 | BR_115200 | BAUDRATE_MAX

datatype DataBitType = FIVE | SIX | SEVEN | EIGHT | DATA_BIT_MAX

datatype ParityType = PARITY_NONE | EVEN | ODD | PARITY_BIT_MAX

datatype StopBitType = ONE | TWO | STOP_BIT_MAX

datatype PortType = SERIAL | ETHERNET | COMMAND | PORT_TYPE_MAX

text \<open>The enumerators in order: \<open>(size_t)value\<close> is the position, the cast back is the element.\<close>

definition baudrates :: "BaudRate list" where
  "baudrates = [BR_1200, BR_2400, BR_4800, BR_9600, BR_19200, BR_38400, BR_57600, BR_115200, BAUDRATE_MAX]"

definition databits :: "DataBitType list" where
  "databits = [FIVE, SIX, SEVEN, EIGHT, DATA_BIT_MAX]"

definition paritybits :: "ParityType list" where
  "paritybits = [PARITY_NONE, EVEN, ODD, PARITY_BIT_MAX]"

definition stopbits :: "StopBitType list" where
  "stopbits = [ONE, TWO, STOP_BIT_MAX]"

definition port_types :: "PortType list" where
  "port_types = [SERIAL, ETHERNET, COMMAND, PORT_TYPE_MAX]"

definition g_baudrates_names :: "string list" where
  "g_baudrates_names = [''BR_1200'', ''BR_2400'', ''BR_4800'', ''BR_9600'', ''BR_19200'', ''BR_38400'', ''BR_57600'', ''BR_115200'']"

definition g_databits_names :: "string list" where
  "g_databits_names = [''FIVE'', ''SIX'', ''SEVEN'', ''EIGHT'']"

definition g_paritybits_names :: "string list" where
  "g_paritybits_names = [''NONE'', ''EVEN'', ''ODD'']"

definition g_stopbits_names :: "string list" where
  "g_stopbits_names = [''ONE'', ''TWO'']"

definition port_names :: "string list" where
  "port_names = [''SERIAL'', ''ETHERNET'', ''COMMAND'']"

text \<open>
  \<open>toName\<close> indexes the vector of names without a check; \<open>fromName\<close> searches it and
  yields the last enumerator (\<open>..._MAX\<close>) for an unknown name. Only the port type's
  \<open>toName\<close> checks its argument.
\<close>

definition name_at :: "string list \<Rightarrow> 'e list \<Rightarrow> 'e \<Rightarrow> string res" where
  "name_at names enums e =
     (let i = find_pos (\<lambda>x. x = e) enums in if i < length names then Inr (names ! i) else Inl OutOfBounds)"

definition enum_of :: "string list \<Rightarrow> 'e list \<Rightarrow> string \<Rightarrow> 'e" where
  "enum_of names enums name =
     (let it = find_pos (\<lambda>n. n = name) names in if it < length names then enums ! it else last enums)"

definition baudrate_toName :: "BaudRate \<Rightarrow> string res" where
  "baudrate_toName = name_at g_baudrates_names baudrates"

definition baudrate_fromName :: "string \<Rightarrow> BaudRate" where
  "baudrate_fromName = enum_of g_baudrates_names baudrates"

definition databits_toName :: "DataBitType \<Rightarrow> string res" where
  "databits_toName = name_at g_databits_names databits"

definition databits_fromName :: "string \<Rightarrow> DataBitType" where
  "databits_fromName = enum_of g_databits_names databits"

definition paritybits_toName :: "ParityType \<Rightarrow> string res" where
  "paritybits_toName = name_at g_paritybits_names paritybits"

definition paritybits_fromName :: "string \<Rightarrow> ParityType" where
  "paritybits_fromName = enum_of g_paritybits_names paritybits"

definition stopbits_toName :: "StopBitType \<Rightarrow> string res" where
  "stopbits_toName = name_at g_stopbits_names stopbits"

definition stopbits_fromName :: "string \<Rightarrow> StopBitType" where
  "stopbits_fromName = enum_of g_stopbits_names stopbits"

definition port_type_toName :: "PortType \<Rightarrow> string" where
  "port_type_toName t = (if t \<noteq> PORT_TYPE_MAX then port_names ! find_pos (\<lambda>x. x = t) port_types else [])"

definition port_type_fromName :: "string \<Rightarrow> PortType" where
  "port_type_fromName = enum_of port_names port_types"

section \<open>The contract of a named enumeration\<close>

locale named_enum =
  fixes names :: "string list" and enums :: "'e list"
  assumes names_distinct: "distinct names"
    and enums_distinct: "distinct enums"
    and one_more: "length enums = Suc (length names)"
    and every: "e \<in> set enums"
begin

lemma pos_at: "i < length enums \<Longrightarrow> find_pos (\<lambda>x. x = enums ! i) enums = i"
proof -
  assume i: "i < length enums"
  then have ex: "\<exists>x \<in> set enums. x = enums ! i" by simp
  have "find_pos (\<lambda>x. x = enums ! i) enums < length enums" unfolding find_pos_less_iff using i by simp
  with find_pos_sound [OF ex] i show ?thesis using enums_distinct by (simp add: nth_eq_iff_index_eq)
qed

lemma name_pos: "i < length names \<Longrightarrow> find_pos (\<lambda>n. n = names ! i) names = i"
proof -
  assume i: "i < length names"
  then have ex: "\<exists>n \<in> set names. n = names ! i" by simp
  have "find_pos (\<lambda>n. n = names ! i) names < length names" unfolding find_pos_less_iff using i by simp
  with find_pos_sound [OF ex] i show ?thesis using names_distinct by (simp add: nth_eq_iff_index_eq)
qed

lemma last_enum: "last enums = enums ! length names"
  using one_more by (metis diff_Suc_1 last_conv_nth length_0_conv nat.simps(3))

lemma enum_cases:
  obtains (named) i where "i < length names" "e = enums ! i" | (maximum) "e = last enums"
proof -
  obtain i where i: "i < length enums" "e = enums ! i" using every by (metis in_set_conv_nth)
  show thesis
  proof (cases "i < length names")
    case True
    then show thesis using named i by blast
  next
    case False
    then have "i = length names" using i(1) one_more by simp
    then show thesis using maximum i(2) last_enum by simp
  qed
qed

text \<open>A name that was written is read back; only the last enumerator has none.\<close>

lemma name_roundtrip: "e \<noteq> last enums \<Longrightarrow> \<exists>n \<in> set names. name_at names enums e = Inr n \<and> enum_of names enums n = e"
  by (cases e rule: enum_cases) (auto simp: name_at_def enum_of_def Let_def pos_at name_pos one_more)

lemma no_name: "name_at names enums (last enums) = Inl OutOfBounds"
  using pos_at [of "length names"] by (simp add: name_at_def last_enum one_more Let_def)

lemma unknown_name: "n \<notin> set names \<Longrightarrow> enum_of names enums n = last enums"
proof -
  assume "n \<notin> set names"
  then have "find_pos (\<lambda>x. x = n) names = length names" unfolding find_pos_eq_length_iff by blast
  then show ?thesis by (simp add: enum_of_def)
qed

lemma name_inj: "name_at names enums e = Inr n \<Longrightarrow> enum_of names enums n = e"
  using name_roundtrip [of e] no_name by fastforce

end

interpretation baud_names: named_enum g_baudrates_names baudrates
proof unfold_locales
  show "e \<in> set baudrates" for e by (cases e) (simp_all add: baudrates_def)
qed (simp_all add: g_baudrates_names_def baudrates_def)

interpretation databit_names: named_enum g_databits_names databits
proof unfold_locales
  show "e \<in> set databits" for e by (cases e) (simp_all add: databits_def)
qed (simp_all add: g_databits_names_def databits_def)

interpretation parity_names: named_enum g_paritybits_names paritybits
proof unfold_locales
  show "e \<in> set paritybits" for e by (cases e) (simp_all add: paritybits_def)
qed (simp_all add: g_paritybits_names_def paritybits_def)

interpretation stopbit_names: named_enum g_stopbits_names stopbits
proof unfold_locales
  show "e \<in> set stopbits" for e by (cases e) (simp_all add: stopbits_def)
qed (simp_all add: g_stopbits_names_def stopbits_def)

interpretation port_type_names: named_enum port_names port_types
proof unfold_locales
  show "e \<in> set port_types" for e by (cases e) (simp_all add: port_types_def)
qed (simp_all add: port_names_def port_types_def)

lemma port_type_roundtrip [simp]: "port_type_fromName (port_type_toName t) = t"
  by (cases t) (simp_all add: port_type_fromName_def port_type_toName_def enum_of_def port_names_def port_types_def Let_def)

lemma enum_names_all:
  "b \<noteq> BAUDRATE_MAX \<Longrightarrow> \<exists>n. baudrate_toName b = Inr n \<and> baudrate_fromName n = b"
  "d \<noteq> DATA_BIT_MAX \<Longrightarrow> \<exists>n. databits_toName d = Inr n \<and> databits_fromName n = d"
  "p \<noteq> PARITY_BIT_MAX \<Longrightarrow> \<exists>n. paritybits_toName p = Inr n \<and> paritybits_fromName n = p"
  "t \<noteq> STOP_BIT_MAX \<Longrightarrow> \<exists>n. stopbits_toName t = Inr n \<and> stopbits_fromName n = t"
  using baud_names.name_roundtrip [of b] databit_names.name_roundtrip [of d] parity_names.name_roundtrip [of p]
    stopbit_names.name_roundtrip [of t]
  by (auto simp: baudrate_toName_def baudrate_fromName_def baudrates_def databits_toName_def databits_fromName_def
      databits_def paritybits_toName_def paritybits_fromName_def paritybits_def stopbits_toName_def
      stopbits_fromName_def stopbits_def)

lemma last_enums:
  "last baudrates = BAUDRATE_MAX" "last databits = DATA_BIT_MAX" "last paritybits = PARITY_BIT_MAX"
  "last stopbits = STOP_BIT_MAX"
  by (simp_all add: baudrates_def databits_def paritybits_def stopbits_def)

lemma enum_names_unknown:
  "n \<notin> set g_baudrates_names \<Longrightarrow> baudrate_toName (baudrate_fromName n) = Inl OutOfBounds"
  "n \<notin> set g_databits_names \<Longrightarrow> databits_toName (databits_fromName n) = Inl OutOfBounds"
  "n \<notin> set g_paritybits_names \<Longrightarrow> paritybits_toName (paritybits_fromName n) = Inl OutOfBounds"
  "n \<notin> set g_stopbits_names \<Longrightarrow> stopbits_toName (stopbits_fromName n) = Inl OutOfBounds"
  unfolding baudrate_toName_def baudrate_fromName_def databits_toName_def databits_fromName_def
    paritybits_toName_def paritybits_fromName_def stopbits_toName_def stopbits_fromName_def
  using baud_names.no_name databit_names.no_name parity_names.no_name stopbit_names.no_name
  by (simp_all add: baud_names.unknown_name databit_names.unknown_name parity_names.unknown_name
      stopbit_names.unknown_name)

section \<open>Settings\<close>

text \<open>
  \<open>DataMode\<close> has one enumerator, 0; the field is kept as the byte the port reads and writes.
\<close>

record serial_settings =
  device :: string
  baudRate :: BaudRate
  serial_mode :: u8
  parityBits :: ParityType
  stopBits :: StopBitType
  dataBits :: DataBitType

definition default_serial_settings :: serial_settings where
  "default_serial_settings = \<lparr>device = ''/dev/ttyUSB1'', baudRate = BR_115200, serial_mode = 0,
     parityBits = PARITY_NONE, stopBits = ONE, dataBits = EIGHT\<rparr>"

record port_settings =
  port_id :: u8
  port_type :: PortType
  port_name :: string
  serialSettings :: serial_settings
  ip_address :: string
  ip_port :: u32
  port_command :: string
  trace_color :: u32
  font_color :: u32

definition default_port_settings :: port_settings where
  "default_port_settings = \<lparr>port_id = 0, port_type = SERIAL, port_name = [], serialSettings = default_serial_settings,
     ip_address = ''127.0.0.1'', ip_port = 1234, port_command = [], trace_color = 0xFFFFFF, font_color = 0\<rparr>"

text \<open>The comparison operator leaves the identifier out.\<close>

definition settings_eq :: "port_settings \<Rightarrow> port_settings \<Rightarrow> bool" where
  "settings_eq a b \<longleftrightarrow>
     port_type a = port_type b \<and> port_name a = port_name b \<and> serialSettings a = serialSettings b \<and>
     ip_address a = ip_address b \<and> ip_port a = ip_port b \<and> port_command a = port_command b \<and>
     trace_color a = trace_color b \<and> font_color a = font_color b"

definition u_to_string :: "'a :: len word \<Rightarrow> string" where
  "u_to_string w = to_string (unat w)"

definition settingsString :: "port_settings \<Rightarrow> string res" where
  "settingsString s =
     (case port_type s of
        SERIAL \<Rightarrow>
          mapE (\<lambda>baud. port_name s @ ''/'' @ device (serialSettings s) @ ''/'' @ ''SER'' @ ''/'' @ baud)
            (baudrate_toName (baudRate (serialSettings s)))
      | ETHERNET \<Rightarrow> Inr (port_name s @ ''/'' @ ''ETH'' @ ''/'' @ ip_address s @ '':'' @ u_to_string (ip_port s))
      | _ \<Rightarrow> Inr (port_name s @ ''/'' @ port_command s))"

definition extractDeviceName :: "string \<Rightarrow> string" where
  "extractDeviceName dev =
     (if CHR ''/'' \<in> set dev then rev (takeWhile (\<lambda>c. c \<noteq> CHR ''/'') (rev dev)) else [])"

definition baud_label :: "BaudRate \<Rightarrow> string" where
  "baud_label b =
     (case b of BR_1200 \<Rightarrow> ''1200'' | BR_2400 \<Rightarrow> ''2400'' | BR_4800 \<Rightarrow> ''4800'' | BR_9600 \<Rightarrow> ''9600''
      | BR_19200 \<Rightarrow> ''19200'' | BR_38400 \<Rightarrow> ''38400'' | BR_57600 \<Rightarrow> ''57600'' | BR_115200 \<Rightarrow> ''115200''
      | BAUDRATE_MAX \<Rightarrow> ''INVALID'')"

definition databits_label :: "DataBitType \<Rightarrow> string" where
  "databits_label d =
     (case d of FIVE \<Rightarrow> ''1200'' | SIX \<Rightarrow> ''6'' | SEVEN \<Rightarrow> ''7'' | EIGHT \<Rightarrow> ''8'' | DATA_BIT_MAX \<Rightarrow> ''INVALID'')"

definition stopbits_label :: "StopBitType \<Rightarrow> string" where
  "stopbits_label b = (case b of ONE \<Rightarrow> ''1'' | TWO \<Rightarrow> ''2'' | STOP_BIT_MAX \<Rightarrow> ''INVALID'')"

definition parity_label :: "ParityType \<Rightarrow> string" where
  "parity_label p = (case p of PARITY_NONE \<Rightarrow> ''n'' | ODD \<Rightarrow> ''o'' | EVEN \<Rightarrow> ''e'' | PARITY_BIT_MAX \<Rightarrow> ''INVALID'')"

definition preparePortSpecificLabel :: "port_settings \<Rightarrow> string" where
  "preparePortSpecificLabel s =
     (case port_type s of
        SERIAL \<Rightarrow>
          extractDeviceName (device (serialSettings s)) @ ''/'' @ baud_label (baudRate (serialSettings s)) @
          ''/'' @ databits_label (dataBits (serialSettings s)) @ ''/'' @ parity_label (parityBits (serialSettings s)) @
          ''/'' @ stopbits_label (stopBits (serialSettings s))
      | ETHERNET \<Rightarrow> ip_address s @ '':'' @ u_to_string (ip_port s)
      | _ \<Rightarrow> port_command s)"

definition summaryString :: "port_settings \<Rightarrow> string" where
  "summaryString s = ''['' @ u_to_string (port_id s) @ '']: '' @ preparePortSpecificLabel s"

section \<open>Properties\<close>

text \<open>
  Every proper value of the five enumerations has a name, and reading the name gives the
  value back; any other name reads as the \<open>MAX\<close> enumerator, which has no name: asking
  for it reads behind the end of the table.
\<close>

theorem enum_names_roundtrip:
  "(b \<noteq> BAUDRATE_MAX \<longrightarrow> (\<exists>n. baudrate_toName b = Inr n \<and> baudrate_fromName n = b)) \<and>
   (d \<noteq> DATA_BIT_MAX \<longrightarrow> (\<exists>n. databits_toName d = Inr n \<and> databits_fromName n = d)) \<and>
   (p \<noteq> PARITY_BIT_MAX \<longrightarrow> (\<exists>n. paritybits_toName p = Inr n \<and> paritybits_fromName n = p)) \<and>
   (t \<noteq> STOP_BIT_MAX \<longrightarrow> (\<exists>n. stopbits_toName t = Inr n \<and> stopbits_fromName n = t)) \<and>
   (n \<notin> set g_baudrates_names \<longrightarrow> baudrate_toName (baudrate_fromName n) = Inl OutOfBounds) \<and>
   (n \<notin> set g_databits_names \<longrightarrow> databits_toName (databits_fromName n) = Inl OutOfBounds) \<and>
   (n \<notin> set g_paritybits_names \<longrightarrow> paritybits_toName (paritybits_fromName n) = Inl OutOfBounds) \<and>
   (n \<notin> set g_stopbits_names \<longrightarrow> stopbits_toName (stopbits_fromName n) = Inl OutOfBounds)"
  using enum_names_all(1) [of b] enum_names_all(2) [of d] enum_names_all(3) [of p] enum_names_all(4) [of t]
    enum_names_unknown [of n] by blast

theorem enum_names_roundtrip_witness:
  "baudrate_toName (baudrate_fromName ''BR_7'') = Inl OutOfBounds \<and> (\<exists>n. baudrate_toName BR_9600 = Inr n \<and> baudrate_fromName n = BR_9600)"
  using enum_names_roundtrip [of BR_9600 FIVE ODD ONE "''BR_7''"] by (simp add: g_baudrates_names_def)

text \<open>
  The label of a serial port does not tell all settings apart: five data bits are shown
  as 1200, and only a device path with a slash is shown at all.
\<close>

theorem serial_label:
  "port_type s = SERIAL \<and> dataBits (serialSettings s) = FIVE \<Longrightarrow>
   summaryString s = ''['' @ u_to_string (port_id s) @ '']: '' @ extractDeviceName (device (serialSettings s)) @ ''/'' @
     baud_label (baudRate (serialSettings s)) @ ''/1200/'' @ parity_label (parityBits (serialSettings s)) @ ''/'' @
     stopbits_label (stopBits (serialSettings s)) \<and>
   (CHR ''/'' \<notin> set (device (serialSettings s)) \<longrightarrow> extractDeviceName (device (serialSettings s)) = []) \<and>
   (CHR ''/'' \<notin> set name \<longrightarrow> extractDeviceName (dir @ ''/'' @ name) = name)"
proof -
  have "extractDeviceName (dir @ ''/'' @ name) = name" if "CHR ''/'' \<notin> set name"
  proof -
    have "takeWhile (\<lambda>c. c \<noteq> CHR ''/'') (rev name) = rev name" using that by (auto simp: takeWhile_eq_all_conv)
    then have "takeWhile (\<lambda>c. c \<noteq> CHR ''/'') (rev name @ CHR ''/'' # rev dir) = rev name"
      by (subst takeWhile_tail) simp_all
    then show ?thesis by (simp add: extractDeviceName_def)
  qed
  then show "port_type s = SERIAL \<and> dataBits (serialSettings s) = FIVE \<Longrightarrow> ?thesis"
    by (simp add: summaryString_def preparePortSpecificLabel_def databits_label_def extractDeviceName_def)
qed

theorem serial_label_witness:
  "summaryString (default_port_settings\<lparr>serialSettings := default_serial_settings\<lparr>dataBits := FIVE\<rparr>\<rparr>) =
     ''[0]: ttyUSB1/115200/1200/n/1''"
proof -
  have id: "u_to_string (port_id default_port_settings) = ''0''" by code_simp
  show ?thesis
  using serial_label [of "default_port_settings\<lparr>serialSettings := default_serial_settings\<lparr>dataBits := FIVE\<rparr>\<rparr>"
      "''ttyUSB1''" "''/dev''"]
    id by (simp add: default_port_settings_def default_serial_settings_def baud_label_def parity_label_def
      stopbits_label_def)
qed

end
