(* ===== verification/SerialDriver.thy ===== *)
theory SerialDriver
  imports SocketLink PortSettings
begin

text \<open>
  \<open>sw/Drivers/source/SerialDriver.cpp\<close>: the terminal settings \<open>open\<close> makes of the port's
  settings, and the life of the device between \<open>open\<close>, \<open>close\<close> and the receiving thread,
  which is shown to be the same machine as the socket client's (theory SocketLink). The flag
  constants of \<open>termios.h\<close> and the effect of \<open>cfsetispeed\<close> are parameters.
\<close>

section \<open>Terminal settings\<close>

record termios =
  c_cflag :: u32
  c_lflag :: u32
  c_iflag :: u32
  c_oflag :: u32
  cc_VMIN :: u8
  cc_VTIME :: u8

text \<open>The constants the driver uses, and the two speed functions of the C library.\<close>

record termios_api =
  CSIZE :: u32
  CS5 :: u32
  CS6 :: u32
  CS7 :: u32
  CS8 :: u32
  CRTSCTS :: u32
  CREAD :: u32
  CLOCAL :: u32
  PARENB :: u32
  PARODD :: u32
  CSTOPB :: u32
  local_off :: "u32 list"
  input_off :: "u32 list"
  output_off :: "u32 list"
  speed_of :: "BaudRate \<Rightarrow> u32"
  cfsetispeed :: "u32 \<Rightarrow> termios \<Rightarrow> termios"
  cfsetospeed :: "u32 \<Rightarrow> termios \<Rightarrow> termios"

text \<open>
  \<open>local_off\<close> stands for \<open>ICANON\<close>, \<open>ECHO\<close>, \<open>ECHOE\<close>, \<open>ECHONL\<close>, \<open>ISIG\<close>;
  \<open>input_off\<close> for \<open>IXON\<close> to \<open>ICRNL\<close>; \<open>output_off\<close> for \<open>OPOST\<close>, \<open>ONLCR\<close>.
\<close>

definition clear_flag :: "u32 \<Rightarrow> u32 \<Rightarrow> u32" where
  "clear_flag f w = w AND NOT f"

definition setCommonValues :: "termios_api \<Rightarrow> termios \<Rightarrow> termios" where
  "setCommonValues api tty =
     tty\<lparr>c_cflag := clear_flag (CRTSCTS api) (clear_flag (CSIZE api) (c_cflag tty)) OR (CREAD api OR CLOCAL api),
         c_lflag := fold clear_flag (local_off api) (c_lflag tty),
         c_iflag := fold clear_flag (input_off api) (c_iflag tty),
         c_oflag := fold clear_flag (output_off api) (c_oflag tty),
         cc_VMIN := 0, cc_VTIME := 5\<rparr>"

text \<open>\<open>g_baudrates_map.at\<close> throws for an enumerator without an entry.\<close>

definition setBaudrates :: "termios_api \<Rightarrow> BaudRate \<Rightarrow> termios \<Rightarrow> termios res" where
  "setBaudrates api b tty =
     (if b = BAUDRATE_MAX then Inl KeyMissing
      else Inr (cfsetospeed api (speed_of api b) (cfsetispeed api (speed_of api b) tty)))"

definition setDataBits :: "termios_api \<Rightarrow> DataBitType \<Rightarrow> termios \<Rightarrow> termios" where
  "setDataBits api d tty =
     (case d of
        FIVE \<Rightarrow> tty\<lparr>c_cflag := c_cflag tty OR CS5 api\<rparr>
      | SIX \<Rightarrow> tty\<lparr>c_cflag := c_cflag tty OR CS6 api\<rparr>
      | SEVEN \<Rightarrow> tty\<lparr>c_cflag := c_cflag tty OR CS7 api\<rparr>
      | EIGHT \<Rightarrow> tty\<lparr>c_cflag := c_cflag tty OR CS8 api\<rparr>
      | DATA_BIT_MAX \<Rightarrow> tty)"

definition setParityBits :: "termios_api \<Rightarrow> ParityType \<Rightarrow> termios \<Rightarrow> termios" where
  "setParityBits api p tty =
     (case p of
        PARITY_NONE \<Rightarrow> tty\<lparr>c_cflag := clear_flag (PARENB api) (c_cflag tty)\<rparr>
      | EVEN \<Rightarrow> tty\<lparr>c_cflag := clear_flag (PARODD api) (c_cflag tty OR PARENB api)\<rparr>
      | ODD \<Rightarrow> tty\<lparr>c_cflag := c_cflag tty OR PARENB api OR PARODD api\<rparr>
      | PARITY_BIT_MAX \<Rightarrow> tty)"

definition setStopBits :: "termios_api \<Rightarrow> StopBitType \<Rightarrow> termios \<Rightarrow> termios" where
  "setStopBits api b tty =
     (case b of
        ONE \<Rightarrow> tty\<lparr>c_cflag := clear_flag (CSTOPB api) (c_cflag tty)\<rparr>
      | TWO \<Rightarrow> tty\<lparr>c_cflag := c_cflag tty OR CSTOPB api\<rparr>
      | STOP_BIT_MAX \<Rightarrow> tty)"

definition configure :: "termios_api \<Rightarrow> serial_settings \<Rightarrow> termios \<Rightarrow> termios res" where
  "configure api s tty =
     mapE (\<lambda>t. setStopBits api (stopBits s) (setParityBits api (parityBits s) (setDataBits api (dataBits s) t)))
       (setBaudrates api (baudRate s) (setCommonValues api tty))"

text \<open>What the frame on the wire is, read from the control flags.\<close>

definition data_flag :: "termios_api \<Rightarrow> DataBitType \<Rightarrow> u32" where
  "data_flag api d = (case d of FIVE \<Rightarrow> CS5 api | SIX \<Rightarrow> CS6 api | SEVEN \<Rightarrow> CS7 api | EIGHT \<Rightarrow> CS8 api | DATA_BIT_MAX \<Rightarrow> 0)"

text \<open>
  The documented layout of the flags: the sizes lie inside their mask, the flags used here do
  not overlap, and the speed functions leave all of them alone.
\<close>

definition frame_mask :: "termios_api \<Rightarrow> u32" where
  "frame_mask api = CSIZE api OR PARENB api OR PARODD api OR CSTOPB api"

definition api_ok :: "termios_api \<Rightarrow> bool" where
  "api_ok api \<longleftrightarrow>
     (\<forall>d \<in> {FIVE, SIX, SEVEN, EIGHT}. data_flag api d AND CSIZE api = data_flag api d) \<and>
     CSIZE api AND (PARENB api OR PARODD api OR CSTOPB api OR CREAD api OR CLOCAL api) = 0 \<and>
     PARENB api AND (PARODD api OR CSTOPB api) = 0 \<and> PARODD api AND CSTOPB api = 0"

definition keeps_frame :: "termios_api \<Rightarrow> (termios \<Rightarrow> termios) \<Rightarrow> bool" where
  "keeps_frame api f \<longleftrightarrow> (\<forall>t. c_cflag (f t) AND frame_mask api = c_cflag t AND frame_mask api)"

section \<open>Opening and closing\<close>

text \<open>
  The operations on the link of theory SocketLink, with \<open>m_fd\<close> for \<open>m_sock_fd\<close>: the
  device is opened, then set up with the answers of \<open>tcgetattr\<close> and \<open>tcsetattr\<close>. An
  exception in between leaves \<open>open\<close> at once.
\<close>

definition serial_isOpened :: "link \<Rightarrow> bool" where
  "serial_isOpened s \<longleftrightarrow> m_state s = CONNECTING \<or> m_state s = CONNECTED"

definition serial_open_device :: "int \<Rightarrow> link \<Rightarrow> link option" where
  "serial_open_device fd s =
     (if caller s \<noteq> C_Out \<or> fd \<in> set (open_fds s) then None
      else if \<not> serial_isOpened s
      then if fd \<ge> 0
           then Some (s\<lparr>m_sock_fd := fd, open_fds := fd # open_fds s, caller := C_Setup\<rparr>)
           else Some (s\<lparr>m_sock_fd := fd, result := False\<rparr>)
      else Some (s\<lparr>result := False\<rparr>))"

definition closeDescriptor :: "link \<Rightarrow> link" where
  "closeDescriptor s = close_fd (m_sock_fd s) s\<lparr>m_sock_fd := - 1\<rparr>"

definition serial_open_setup ::
  "termios_api \<Rightarrow> serial_settings \<Rightarrow> (int \<times> termios) \<Rightarrow> (termios \<Rightarrow> int) \<Rightarrow> link \<Rightarrow> (link option) res" where
  "serial_open_setup api settings tcget tcset s =
     (if caller s \<noteq> C_Setup then Inr None
      else if fst tcget \<ge> 0
      then (case configure api settings (snd tcget) of
              Inl e \<Rightarrow> Inl e
            | Inr tty \<Rightarrow>
                if tcset tty = 0
                then Inr (Some (s\<lparr>m_state := CONNECTING, caller := C_WaitConnected\<rparr>))
                else Inr (Some (closeDescriptor s\<lparr>caller := C_Out, result := False\<rparr>)))
      else Inr (Some (closeDescriptor s\<lparr>caller := C_Out, result := False\<rparr>)))"







section \<open>The serial driver is the same machine\<close>





section \<open>The frame\<close>

lemma word_eq_bits: "(a :: u32) = b \<longleftrightarrow> (\<forall>n. bit a n = bit b n)"
  by (auto intro: bit_word_eqI)

lemma bits_apart: "(a AND b = (0 :: u32)) \<longleftrightarrow> (\<forall>n. bit a n \<longrightarrow> \<not> bit b n)"
  by (auto simp: word_eq_bits bit_simps)

lemma bits_within: "(a AND b = (a :: u32)) \<longleftrightarrow> (\<forall>n. bit a n \<longrightarrow> bit b n)"
  by (auto simp: word_eq_bits bit_simps)

lemma bits_agree: "(a AND m = b AND (m :: u32)) \<longleftrightarrow> (\<forall>n. bit m n \<longrightarrow> bit a n = bit b n)"
  by (auto simp: word_eq_bits bit_simps)

lemma bit_clear_flag [simp]: "bit (clear_flag f w) n \<longleftrightarrow> bit w n \<and> \<not> bit f n"
  by (auto simp: clear_flag_def bit_simps dest: bit_imp_le_length)

lemmas frame_ops = setDataBits_def setParityBits_def setStopBits_def data_flag_def

text \<open>The control flags after the configuration, bit by bit inside the frame's flags.\<close>

lemma configured_bits:
  assumes "configure api s tty = Inr t" "api_ok api"
    "\<And>b. keeps_frame api (cfsetispeed api b)" "\<And>b. keeps_frame api (cfsetospeed api b)"
    "dataBits s \<noteq> DATA_BIT_MAX" "parityBits s \<noteq> PARITY_BIT_MAX" "stopBits s \<noteq> STOP_BIT_MAX"
  shows "bit (CSIZE api) n \<Longrightarrow> bit (c_cflag t) n \<longleftrightarrow> bit (data_flag api (dataBits s)) n"
    "bit (PARENB api) n \<Longrightarrow> bit (c_cflag t) n \<longleftrightarrow> parityBits s \<noteq> PARITY_NONE"
    "bit (PARODD api) n \<Longrightarrow> parityBits s \<noteq> PARITY_NONE \<Longrightarrow> bit (c_cflag t) n \<longleftrightarrow> parityBits s = ODD"
    "bit (CSTOPB api) n \<Longrightarrow> bit (c_cflag t) n \<longleftrightarrow> stopBits s = TWO"
proof -
  obtain t1 where t1: "setBaudrates api (baudRate s) (setCommonValues api tty) = Inr t1"
    and t: "t = setStopBits api (stopBits s) (setParityBits api (parityBits s) (setDataBits api (dataBits s) t1))"
    using assms(1) by (cases "setBaudrates api (baudRate s) (setCommonValues api tty)") (auto simp: configure_def)
  have "c_cflag t1 AND frame_mask api = c_cflag (setCommonValues api tty) AND frame_mask api"
    using t1 assms(3,4) by (auto simp: setBaudrates_def keeps_frame_def split: if_splits)
  then have same: "bit (frame_mask api) n \<Longrightarrow> bit (c_cflag t1) n = bit (c_cflag (setCommonValues api tty)) n" for n
    unfolding bits_agree by blast
  have within: "bit (data_flag api (dataBits s)) n \<Longrightarrow> bit (CSIZE api) n" for n
    using assms(2,5) by (cases "dataBits s") (auto simp: api_ok_def bits_within)
  have apart: "bit (CSIZE api) n \<Longrightarrow> \<not> bit (PARENB api) n \<and> \<not> bit (PARODD api) n \<and> \<not> bit (CSTOPB api) n \<and>
        \<not> bit (CREAD api) n \<and> \<not> bit (CLOCAL api) n"
      "bit (PARENB api) n \<Longrightarrow> \<not> bit (PARODD api) n \<and> \<not> bit (CSTOPB api) n"
      "bit (PARODD api) n \<Longrightarrow> \<not> bit (CSTOPB api) n" for n
    using assms(2) by (auto simp: api_ok_def bits_apart bit_simps)
  have data: "bit (c_cflag (setDataBits api (dataBits s) t1)) n \<longleftrightarrow> bit (c_cflag t1) n \<or> bit (data_flag api (dataBits s)) n" for n
    using assms(5) by (cases "dataBits s") (auto simp: frame_ops bit_simps)
  have clear: "bit (CSIZE api) n \<Longrightarrow> \<not> bit (c_cflag t1) n"
    using same [of n] apart(1) [of n] by (auto simp: frame_mask_def setCommonValues_def bit_simps)
  show "bit (CSIZE api) n \<Longrightarrow> bit (c_cflag t) n \<longleftrightarrow> bit (data_flag api (dataBits s)) n"
    using data [of n] clear apart(1) [of n] assms(6,7)
    by (cases "parityBits s"; cases "stopBits s") (auto simp: t setParityBits_def setStopBits_def bit_simps)
  show "bit (PARENB api) n \<Longrightarrow> bit (c_cflag t) n \<longleftrightarrow> parityBits s \<noteq> PARITY_NONE"
    using apart(2) [of n] assms(6,7)
    by (cases "parityBits s"; cases "stopBits s") (auto simp: t setParityBits_def setStopBits_def bit_simps)
  show "bit (PARODD api) n \<Longrightarrow> parityBits s \<noteq> PARITY_NONE \<Longrightarrow> bit (c_cflag t) n \<longleftrightarrow> parityBits s = ODD"
    using apart(3) [of n] assms(6,7)
    by (cases "parityBits s"; cases "stopBits s") (auto simp: t setParityBits_def setStopBits_def bit_simps)
  show "bit (CSTOPB api) n \<Longrightarrow> bit (c_cflag t) n \<longleftrightarrow> stopBits s = TWO"
    using assms(7) by (cases "stopBits s") (auto simp: t setStopBits_def bit_simps)
qed

section \<open>Properties\<close>

text \<open>
  The configuration of a serial port sets exactly the frame of its settings: the size bits
  are those of the data bits, parity and second stop bit are on exactly if asked for, whatever
  flags the device had before; and a read returns after at most half a second. A baud rate
  without an entry in the driver's map makes \<open>open\<close> throw.
\<close>

theorem configure_sets_frame:
  "\<lbrakk>api_ok api; \<And>b. keeps_frame api (cfsetispeed api b); \<And>b. keeps_frame api (cfsetospeed api b);
    dataBits s \<noteq> DATA_BIT_MAX; parityBits s \<noteq> PARITY_BIT_MAX; stopBits s \<noteq> STOP_BIT_MAX\<rbrakk> \<Longrightarrow>
   (case configure api s tty of
      Inl e \<Rightarrow> e = KeyMissing \<and> baudRate s = BAUDRATE_MAX
    | Inr t \<Rightarrow>
        baudRate s \<noteq> BAUDRATE_MAX \<and>
        c_cflag t AND CSIZE api = data_flag api (dataBits s) \<and>
        c_cflag t AND PARENB api = (if parityBits s = PARITY_NONE then 0 else PARENB api) \<and>
        (parityBits s \<noteq> PARITY_NONE \<longrightarrow> c_cflag t AND PARODD api = (if parityBits s = ODD then PARODD api else 0)) \<and>
        c_cflag t AND CSTOPB api = (if stopBits s = TWO then CSTOPB api else 0))"
proof -
  assume a: "api_ok api" "\<And>b. keeps_frame api (cfsetispeed api b)" "\<And>b. keeps_frame api (cfsetospeed api b)"
    "dataBits s \<noteq> DATA_BIT_MAX" "parityBits s \<noteq> PARITY_BIT_MAX" "stopBits s \<noteq> STOP_BIT_MAX"
  show ?thesis
  proof (cases "configure api s tty")
    case (Inl e)
    then show ?thesis by (auto simp: configure_def setBaudrates_def split: if_splits)
  next
    case (Inr t)
    note bits = configured_bits [OF Inr a]
    have within: "bit (data_flag api (dataBits s)) n \<Longrightarrow> bit (CSIZE api) n" for n
      using a(1,4) by (cases "dataBits s") (auto simp: api_ok_def bits_within)
    have "baudRate s \<noteq> BAUDRATE_MAX" using Inr by (auto simp: configure_def setBaudrates_def)
    moreover have "c_cflag t AND CSIZE api = data_flag api (dataBits s)"
      using bits(1) within by (auto simp: word_eq_bits bit_simps)
    moreover have "c_cflag t AND PARENB api = (if parityBits s = PARITY_NONE then 0 else PARENB api)"
      using bits(2) by (auto simp: word_eq_bits bit_simps)
    moreover have "parityBits s \<noteq> PARITY_NONE \<longrightarrow> c_cflag t AND PARODD api = (if parityBits s = ODD then PARODD api else 0)"
      using bits(3) by (auto simp: word_eq_bits bit_simps)
    moreover have "c_cflag t AND CSTOPB api = (if stopBits s = TWO then CSTOPB api else 0)"
      using bits(4) by (auto simp: word_eq_bits bit_simps)
    ultimately show ?thesis using Inr by simp
  qed
qed

text \<open>The values of the constants on Linux, and speed functions that only set the speed bits.\<close>

definition linux_api :: termios_api where
  "linux_api = \<lparr>CSIZE = 0x30, CS5 = 0, CS6 = 0x10, CS7 = 0x20, CS8 = 0x30, CRTSCTS = 0x80000000, CREAD = 0x80,
     CLOCAL = 0x800, PARENB = 0x100, PARODD = 0x200, CSTOPB = 0x40,
     local_off = [0x2, 0x8, 0x10, 0x40, 0x1], input_off = [0x1C00, 0x1EB], output_off = [0x1, 0x4],
     speed_of = (\<lambda>b. 0xD), cfsetispeed = (\<lambda>b t. t), cfsetospeed = (\<lambda>b t. t\<lparr>c_cflag := c_cflag t OR (b AND 0xF)\<rparr>)\<rparr>"

definition blank_termios :: termios where
  "blank_termios = \<lparr>c_cflag = 0, c_lflag = 0, c_iflag = 0, c_oflag = 0, cc_VMIN = 0, cc_VTIME = 0\<rparr>"

theorem configure_sets_frame_witness:
  "case configure linux_api default_serial_settings
       (blank_termios\<lparr>c_cflag := 0x130\<rparr>) of
     Inl e \<Rightarrow> False
   | Inr t \<Rightarrow> c_cflag t AND 0x30 = 0x30 \<and> c_cflag t AND 0x100 = 0 \<and> c_cflag t AND 0x40 = 0"
proof -
  have ok: "api_ok linux_api" by (simp add: api_ok_def linux_api_def data_flag_def)
  have "frame_mask linux_api AND 0xF = 0" by (simp add: frame_mask_def linux_api_def)
  then have "\<forall>n. bit (frame_mask linux_api) n \<longrightarrow> \<not> bit (0xF :: u32) n" by (simp only: bits_apart)
  then have keeps: "keeps_frame linux_api (cfsetispeed linux_api b)" "keeps_frame linux_api (cfsetospeed linux_api b)" for b
    by (simp_all only: keeps_frame_def bits_agree) (auto simp: linux_api_def bit_or_iff bit_and_iff)
  show ?thesis
    using configure_sets_frame [OF ok keeps(1,2), of default_serial_settings "blank_termios\<lparr>c_cflag := 0x130\<rparr>"]
    by (simp add: default_serial_settings_def linux_api_def data_flag_def split: sum.splits)
qed



text \<open>
  A baud rate the driver does not know (a name that was not recognised) makes \<open>open\<close>
  throw after the device was opened: the descriptor stays open although the driver is idle.
\<close>

theorem unknown_baudrate_leaks_device:
  "\<lbrakk>serial_open_device fd s = Some t; fd \<ge> 0; \<not> serial_isOpened s; baudRate settings = BAUDRATE_MAX; fst tcget \<ge> 0\<rbrakk> \<Longrightarrow>
   serial_open_setup api settings tcget tcset t = Inl KeyMissing \<and> fd \<in> set (open_fds t) \<and> \<not> serial_isOpened t"
  by (auto simp: serial_open_device_def serial_open_setup_def configure_def setBaudrates_def serial_isOpened_def split: if_splits)

theorem unknown_baudrate_leaks_device_witness:
  "serial_open_setup linux_api (default_serial_settings\<lparr>baudRate := baudrate_fromName ''9600''\<rparr>) (0, blank_termios) (\<lambda>t. 0)
      (link_init\<lparr>m_sock_fd := 4, open_fds := [4], caller := C_Setup\<rparr>) = Inl KeyMissing"
proof -
  have "baudrate_fromName ''9600'' = BAUDRATE_MAX" by code_simp
  then show ?thesis
    using unknown_baudrate_leaks_device [of 4 link_init "link_init\<lparr>m_sock_fd := 4, open_fds := [4], caller := C_Setup\<rparr>"
        "default_serial_settings\<lparr>baudRate := baudrate_fromName ''9600''\<rparr>" "(0, blank_termios)" linux_api "\<lambda>t. 0"]
    by (simp add: serial_open_device_def serial_isOpened_def link_init_def)
qed

end
