(* ===== verification/Timers.thy ===== *)
theory Timers
  imports Prelude
begin

text \<open>
  \<open>sw/Utilities/source/TimersImpl.cpp\<close> behind \<open>sw/Utilities/public/ITimers.h\<close>: the list
  of timers, the operations under the timers' mutex (each one atomic), and one pass of the
  timer thread. Time is the steady clock in nanoseconds; a client is any value \<open>'c\<close>.
\<close>

section \<open>State and operations\<close>

record 'c Timer =
  timer_id :: u32
  default_timeout :: u32
  current_timeout :: u32
  is_running :: bool
  periodic :: bool
  start_ts :: int
  callback :: 'c

record 'c timers =
  m_timers :: "'c Timer list"
  m_last_timer_id :: u32

definition TIMERS_INVALID_ID :: u32 where
  "TIMERS_INVALID_ID = 0xFF"

definition timers_init :: "'c timers" where
  "timers_init = \<lparr>m_timers = [], m_last_timer_id = 0\<rparr>"

definition isTimeoutValid :: "u32 \<Rightarrow> bool" where
  "isTimeoutValid timeout \<longleftrightarrow> timeout > 0 \<and> timeout mod 10 = 0"

definition next_timer_id :: "u32 \<Rightarrow> u32" where
  "next_timer_id lst = (let i = lst + 1 in if i = TIMERS_INVALID_ID then i + 1 else i)"

definition createTimer :: "'c option \<Rightarrow> u32 \<Rightarrow> 'c timers \<Rightarrow> u32 \<times> 'c timers" where
  "createTimer client default_tmo ts =
     (case client of
        Some c \<Rightarrow>
          if isTimeoutValid default_tmo
          then let i = next_timer_id (m_last_timer_id ts);
                   timer = \<lparr>timer_id = i, default_timeout = default_tmo, current_timeout = default_tmo,
                            is_running = False, periodic = False, start_ts = 0, callback = c\<rparr>
               in (i, ts\<lparr>m_timers := m_timers ts @ [timer], m_last_timer_id := i\<rparr>)
          else (TIMERS_INVALID_ID, ts)
      | None \<Rightarrow> (TIMERS_INVALID_ID, ts))"

definition has_id :: "u32 \<Rightarrow> 'c Timer \<Rightarrow> bool" where
  "has_id i t \<longleftrightarrow> timer_id t = i"

definition modify_timer :: "u32 \<Rightarrow> ('c Timer \<Rightarrow> 'c Timer) \<Rightarrow> 'c timers \<Rightarrow> 'c timers" where
  "modify_timer i f ts = ts\<lparr>m_timers := update_first (has_id i) f (m_timers ts)\<rparr>"

definition find_timer :: "u32 \<Rightarrow> 'c timers \<Rightarrow> 'c Timer option" where
  "find_timer i ts = List.find (has_id i) (m_timers ts)"

definition removeTimer :: "u32 \<Rightarrow> 'c timers \<Rightarrow> 'c timers" where
  "removeTimer i ts = ts\<lparr>m_timers := erase_first (has_id i) (m_timers ts)\<rparr>"

definition setTimeout :: "int \<Rightarrow> u32 \<Rightarrow> u32 \<Rightarrow> 'c timers \<Rightarrow> bool \<times> 'c timers" where
  "setTimeout now i timeout ts =
     (if isTimeoutValid timeout \<and> find_timer i ts \<noteq> None
      then (True, modify_timer i (\<lambda>t. t\<lparr>start_ts := now, default_timeout := timeout, current_timeout := timeout\<rparr>) ts)
      else (False, ts))"

definition getTimeout :: "u32 \<Rightarrow> 'c timers \<Rightarrow> u32" where
  "getTimeout i ts = (case find_timer i ts of None \<Rightarrow> 0 | Some t \<Rightarrow> current_timeout t)"

definition startTimer :: "int \<Rightarrow> u32 \<Rightarrow> 'c timers \<Rightarrow> 'c timers" where
  "startTimer now i ts = modify_timer i (\<lambda>t. t\<lparr>is_running := True, start_ts := now\<rparr>) ts"

definition startTimer_timeout :: "int \<Rightarrow> u32 \<Rightarrow> u32 \<Rightarrow> 'c timers \<Rightarrow> 'c timers" where
  "startTimer_timeout now i timeout ts =
     modify_timer i (\<lambda>t. t\<lparr>is_running := True, current_timeout := timeout, start_ts := now\<rparr>) ts"

definition startTimer_periodic :: "int \<Rightarrow> u32 \<Rightarrow> bool \<Rightarrow> 'c timers \<Rightarrow> 'c timers" where
  "startTimer_periodic now i p ts =
     modify_timer i (\<lambda>t. t\<lparr>is_running := True, periodic := p, start_ts := now\<rparr>) ts"

definition stopTimer :: "u32 \<Rightarrow> 'c timers \<Rightarrow> 'c timers" where
  "stopTimer i ts = modify_timer i (\<lambda>t. t\<lparr>is_running := False\<rparr>) ts"

definition timers_stop :: "'c timers \<Rightarrow> 'c timers" where
  "timers_stop ts = ts\<lparr>m_timers := []\<rparr>"

section \<open>One pass of the timer thread\<close>


definition expire :: "int \<Rightarrow> 'c Timer \<Rightarrow> 'c Timer" where
  "expire now t = t\<lparr>current_timeout := default_timeout t, start_ts := now,
                    is_running := (if periodic t then is_running t else False)\<rparr>"




section \<open>Lookup lemmas\<close>

lemma m_timers_modify [simp]: "m_timers (modify_timer i f ts) = update_first (has_id i) f (m_timers ts)"
  by (simp add: modify_timer_def)

lemma find_modify_same:
  "(\<And>t. timer_id (f t) = timer_id t) \<Longrightarrow> find_timer i (modify_timer i f ts) = map_option f (find_timer i ts)"
  unfolding find_timer_def m_timers_modify
  by (rule find_update_first) (simp add: has_id_def)

lemma find_modify_other:
  "(\<And>t. timer_id (f t) = timer_id t) \<Longrightarrow> j \<noteq> i \<Longrightarrow> find_timer j (modify_timer i f ts) = find_timer j ts"
  unfolding find_timer_def m_timers_modify
  by (rule find_update_first_other) (simp_all add: has_id_def)

lemma find_modify:
  "(\<And>t. timer_id (f t) = timer_id t) \<Longrightarrow>
   find_timer j (modify_timer i f ts) = (if j = i then map_option f (find_timer j ts) else find_timer j ts)"
  by (simp add: find_modify_same find_modify_other)

lemma ids_modify: "(\<And>t. timer_id (f t) = timer_id t) \<Longrightarrow>
   map timer_id (m_timers (modify_timer i f ts)) = map timer_id (m_timers ts)"
  by (simp add: modify_timer_def map_update_first)

lemma find_timer_Some_iff: "find_timer i ts \<noteq> None \<longleftrightarrow> i \<in> timer_id ` set (m_timers ts)"
  by (auto simp: find_timer_def find_None_iff has_id_def)

lemma find_timer_id: "find_timer i ts = Some t \<Longrightarrow> timer_id t = i"
  by (auto simp: find_timer_def find_Some_iff has_id_def)

section \<open>The contract of a timer service\<close>

text \<open>
  What a client of \<open>ITimers\<close> relies on, stated for any implementation: \<open>info\<close> says
  whether a timer runs and its timeout; the operations touch one timer only.
\<close>

locale timer_service =
  fixes info :: "u32 \<Rightarrow> 't \<Rightarrow> (bool \<times> u32) option"
    and start :: "u32 \<Rightarrow> 't \<Rightarrow> 't"
    and stop :: "u32 \<Rightarrow> 't \<Rightarrow> 't"
    and set_timeout :: "u32 \<Rightarrow> u32 \<Rightarrow> 't \<Rightarrow> bool \<times> 't"
    and valid :: "u32 \<Rightarrow> bool"
  assumes info_start: "info j (start i t) = (if j = i then map_option (\<lambda>(r, w). (True, w)) (info j t) else info j t)"
    and info_stop: "info j (stop i t) = (if j = i then map_option (\<lambda>(r, w). (False, w)) (info j t) else info j t)"
    and set_result: "fst (set_timeout i w t) \<longleftrightarrow> valid w \<and> info i t \<noteq> None"
    and info_set: "info j (snd (set_timeout i w t)) =
      (if j = i \<and> valid w then map_option (\<lambda>(r, _). (r, w)) (info j t) else info j t)"
begin

lemmas info_laws = info_start info_stop info_set

text \<open>Setting a timeout and starting the timer, the way a retry is scheduled.\<close>

lemma reschedule:
  "info i t \<noteq> None \<Longrightarrow> valid w \<Longrightarrow> info i (start i (snd (set_timeout i w t))) = Some (True, w)"
  by (auto simp: info_laws)

lemma reschedule_frame: "j \<noteq> i \<Longrightarrow> info j (start i (snd (set_timeout i w t))) = info j t"
  by (simp add: info_laws)

lemma exists_kept:
  "info j (start i t) = None \<longleftrightarrow> info j t = None"
  "info j (stop i t) = None \<longleftrightarrow> info j t = None"
  "info j (snd (set_timeout i w t)) = None \<longleftrightarrow> info j t = None"
  by (auto simp: info_laws)

lemma stop_wins: "info i t \<noteq> None \<Longrightarrow> \<exists>w. info i (stop i (start i t)) = Some (False, w)"
  by (auto simp: info_laws)

end

definition timer_info :: "u32 \<Rightarrow> 'c timers \<Rightarrow> (bool \<times> u32) option" where
  "timer_info i ts = map_option (\<lambda>t. (is_running t, current_timeout t)) (find_timer i ts)"

lemma timer_info_None [simp]: "timer_info i ts = None \<longleftrightarrow> find_timer i ts = None"
  by (simp add: timer_info_def)

interpretation impl: timer_service timer_info "startTimer now" stopTimer "setTimeout now" isTimeoutValid
  for now
proof unfold_locales
  show "timer_info j (startTimer now i t) =
      (if j = i then map_option (\<lambda>(r, w). (True, w)) (timer_info j t) else timer_info j t)" for j i and t :: "'a timers"
    by (cases "find_timer j t") (auto simp: timer_info_def startTimer_def find_modify)
  show "timer_info j (stopTimer i t) =
      (if j = i then map_option (\<lambda>(r, w). (False, w)) (timer_info j t) else timer_info j t)" for j i and t :: "'a timers"
    by (cases "find_timer j t") (auto simp: timer_info_def stopTimer_def find_modify)
  show "fst (setTimeout now i w t) = (isTimeoutValid w \<and> timer_info i t \<noteq> None)" for i w and t :: "'a timers"
    by (simp add: setTimeout_def)
  show "timer_info j (snd (setTimeout now i w t)) =
      (if j = i \<and> isTimeoutValid w then map_option (\<lambda>(r, _). (r, w)) (timer_info j t) else timer_info j t)"
    for j i w and t :: "'a timers"
    by (cases "find_timer j t") (auto simp: timer_info_def setTimeout_def find_modify)
qed

section \<open>The invariant of the timer list\<close>

text \<open>
  Timers have different identifiers, none is \<open>TIMERS_INVALID_ID\<close>, all were handed out by
  the counter, and every default timeout passed \<open>isTimeoutValid\<close>.
\<close>

definition timers_ok :: "'c timers \<Rightarrow> bool" where
  "timers_ok ts \<longleftrightarrow>
     distinct (map timer_id (m_timers ts)) \<and>
     (\<forall>t \<in> set (m_timers ts). timer_id t \<noteq> TIMERS_INVALID_ID \<and> timer_id t \<le> m_last_timer_id ts \<and>
        isTimeoutValid (default_timeout t))"

lemma timers_ok_modify:
  assumes "timers_ok ts" "\<And>t. timer_id (f t) = timer_id t"
    "\<And>t. isTimeoutValid (default_timeout t) \<Longrightarrow> isTimeoutValid (default_timeout (f t))"
  shows "timers_ok (modify_timer i f ts)"
  using assms(1) ids_modify [of f i ts, OF assms(2)] assms(2,3)
  by (fastforce simp: timers_ok_def modify_timer_def dest: in_update_firstD)

lemma timers_ok_remove: "timers_ok ts \<Longrightarrow> timers_ok (removeTimer i ts)"
  using set_erase_first [of "has_id i" "m_timers ts"]
  by (auto simp: timers_ok_def removeTimer_def distinct_map_erase_first)

lemma next_timer_id_fresh:
  assumes "lst < 0xFFFFFFFF"
  shows "lst < next_timer_id lst" "next_timer_id lst \<noteq> TIMERS_INVALID_ID"
proof -
  have "unat lst < 2 ^ 32 - 1" using assms by (simp add: word_less_nat_alt)
  then have u: "unat (lst + 1) = unat lst + 1" by (simp add: unat_word_ariths)
  then have lt: "lst < lst + 1" by (simp add: word_less_nat_alt)
  show "lst < next_timer_id lst"
    using lt by (auto simp: next_timer_id_def Let_def TIMERS_INVALID_ID_def intro: less_trans)
  show "next_timer_id lst \<noteq> TIMERS_INVALID_ID"
    by (simp add: next_timer_id_def Let_def TIMERS_INVALID_ID_def)
qed

lemma fresh_id_unused:
  assumes "timers_ok ts" "m_last_timer_id ts < 0xFFFFFFFF"
  shows "find_timer (next_timer_id (m_last_timer_id ts)) ts = None"
proof -
  have "next_timer_id (m_last_timer_id ts) \<notin> timer_id ` set (m_timers ts)"
    using assms next_timer_id_fresh(1) [OF assms(2)] by (force simp: timers_ok_def)
  then show ?thesis using find_timer_Some_iff by blast
qed

text \<open>The operations of the service as data, so that sequences of them can be run.\<close>

datatype 'c timer_op =
    Create "'c option" u32
  | Remove u32
  | SetTimeout int u32 u32
  | Start int u32
  | StartTimeout int u32 u32
  | StartPeriodic int u32 bool
  | Stop u32

fun run_op :: "'c timer_op \<Rightarrow> 'c timers \<Rightarrow> 'c timers" where
  "run_op (Create c w) ts = snd (createTimer c w ts)"
| "run_op (Remove i) ts = removeTimer i ts"
| "run_op (SetTimeout now i w) ts = snd (setTimeout now i w ts)"
| "run_op (Start now i) ts = startTimer now i ts"
| "run_op (StartTimeout now i w) ts = startTimer_timeout now i w ts"
| "run_op (StartPeriodic now i p) ts = startTimer_periodic now i p ts"
| "run_op (Stop i) ts = stopTimer i ts"

lemma createTimer_ok:
  "timers_ok ts \<Longrightarrow> m_last_timer_id ts < 0xFFFFFFFF \<Longrightarrow> timers_ok (snd (createTimer c w ts))"
  using next_timer_id_fresh [of "m_last_timer_id ts"]
  by (force simp: createTimer_def timers_ok_def Let_def split: option.split)

lemma run_op_ok:
  "timers_ok ts \<Longrightarrow> m_last_timer_id ts < 0xFFFFFFFF \<Longrightarrow> timers_ok (run_op a ts)"
  by (cases a) (auto simp: createTimer_ok timers_ok_remove setTimeout_def startTimer_def
      startTimer_timeout_def startTimer_periodic_def stopTimer_def intro!: timers_ok_modify)

lemma timers_ok_init [simp]: "timers_ok timers_init"
  by (simp add: timers_ok_def timers_init_def)

lemma last_id_op:
  "m_last_timer_id (run_op a ts) =
     (case a of Create (Some c) w \<Rightarrow> if isTimeoutValid w then next_timer_id (m_last_timer_id ts) else m_last_timer_id ts
      | _ \<Rightarrow> m_last_timer_id ts)"
  by (cases a) (auto simp: createTimer_def removeTimer_def setTimeout_def startTimer_def Let_def
      startTimer_timeout_def startTimer_periodic_def stopTimer_def modify_timer_def split: option.splits)

lemma next_timer_id_bound: "lst < 0xFFFFFFFF \<Longrightarrow> unat (next_timer_id lst) \<le> unat lst + 2"
proof -
  assume "lst < 0xFFFFFFFF"
  then have "unat lst < 2 ^ 32 - 1" by (simp add: word_less_nat_alt)
  then have "unat (lst + 1) = unat lst + 1" by (simp add: unat_word_ariths)
  then show ?thesis by (auto simp: next_timer_id_def Let_def TIMERS_INVALID_ID_def)
qed

lemma timer_ops_ok:
  "timers_ok ts \<Longrightarrow> unat (m_last_timer_id ts) + 2 * length ops < 2 ^ 32 - 1 \<Longrightarrow> timers_ok (fold run_op ops ts)"
proof (induction ops arbitrary: ts)
  case (Cons a ops)
  have lt: "m_last_timer_id ts < 0xFFFFFFFF"
    using Cons.prems(2) by (simp add: word_less_nat_alt)
  have "unat (m_last_timer_id (run_op a ts)) \<le> unat (m_last_timer_id ts) + 2"
    using next_timer_id_bound [OF lt]
    by (auto simp: last_id_op split: timer_op.splits option.splits)
  then show ?case
    using Cons.IH [OF run_op_ok [OF Cons.prems(1) lt, of a]] Cons.prems(2) by simp
qed simp

section \<open>Properties\<close>

text \<open>
  C22. From an empty service, no sequence of fewer than \<open>2 ^ 30\<close> operations makes two timers
  share an identifier, uses the reserved one, or leaves a timer with an invalid default timeout.
\<close>

theorem timers_invariant: "length ops < 2 ^ 30 \<Longrightarrow> timers_ok (fold run_op ops timers_init)"
  by (rule timer_ops_ok [OF timers_ok_init]) (simp add: timers_init_def)

theorem timers_invariant_witness:
  "timers_ok (fold run_op [Create (Some (7 :: nat)) 100, Start 5 1, Remove 1] timers_init)"
  by (rule timers_invariant) simp

text \<open>
  A new timer gets an identifier no existing timer has and starts stopped with its default
  timeout; a timeout that is zero or not a multiple of ten, or a missing client, is refused
  with \<open>TIMERS_INVALID_ID\<close> and changes nothing.
\<close>

theorem createTimer_spec:
  "\<lbrakk>timers_ok ts; m_last_timer_id ts < 0xFFFFFFFF\<rbrakk> \<Longrightarrow>
   (isTimeoutValid w \<longrightarrow>
      find_timer (fst (createTimer (Some c) w ts)) ts = None \<and>
      fst (createTimer (Some c) w ts) \<noteq> TIMERS_INVALID_ID \<and>
      timer_info (fst (createTimer (Some c) w ts)) (snd (createTimer (Some c) w ts)) = Some (False, w)) \<and>
   (\<not> isTimeoutValid w \<longrightarrow> createTimer (Some c) w ts = (TIMERS_INVALID_ID, ts)) \<and>
   createTimer None w ts = (TIMERS_INVALID_ID, ts)"
proof -
  assume ok: "timers_ok ts" and lt: "m_last_timer_id ts < 0xFFFFFFFF"
  let ?i = "next_timer_id (m_last_timer_id ts)"
  note none = fresh_id_unused [OF ok lt]
  then have "List.find (has_id ?i) (m_timers ts) = None" by (simp add: find_timer_def)
  then show ?thesis
    using none next_timer_id_fresh(2) [OF lt]
    by (auto simp: createTimer_def Let_def timer_info_def find_timer_def find_append has_id_def)
qed

lemma create_info:
  assumes "timers_ok ts" "m_last_timer_id ts < 0xFFFFFFFF" "isTimeoutValid w"
  shows "timer_info (fst (createTimer (Some c) w ts)) (snd (createTimer (Some c) w ts)) = Some (False, w)"
    "j \<noteq> fst (createTimer (Some c) w ts) \<Longrightarrow> timer_info j (snd (createTimer (Some c) w ts)) = timer_info j ts"
proof -
  have "find_timer (next_timer_id (m_last_timer_id ts)) ts = None" using fresh_id_unused [OF assms(1,2)] .
  then show "timer_info (fst (createTimer (Some c) w ts)) (snd (createTimer (Some c) w ts)) = Some (False, w)"
    "j \<noteq> fst (createTimer (Some c) w ts) \<Longrightarrow> timer_info j (snd (createTimer (Some c) w ts)) = timer_info j ts"
    using assms(3) by (auto simp: createTimer_def Let_def timer_info_def find_timer_def find_append has_id_def
        split: option.split)
qed

theorem createTimer_spec_witness:
  "find_timer (fst (createTimer (Some (7 :: nat)) 200 timers_init)) (timers_init :: nat timers) = None \<and>
   createTimer (Some (7 :: nat)) 15 timers_init = (TIMERS_INVALID_ID, timers_init)"
proof -
  have "isTimeoutValid 200" "\<not> isTimeoutValid 15" by (simp_all add: isTimeoutValid_def)
  then show ?thesis
    using createTimer_spec [of timers_init 200 "7 :: nat"] createTimer_spec [of timers_init 15 "7 :: nat"]
    by (simp add: timers_init_def timers_ok_def)
qed







text \<open>
  Starting a timer without an argument does not make it a one-shot timer, although the
  interface says it is stopped when it expires: a timer that was once started as periodic keeps
  running after it fires.
\<close>

theorem restart_keeps_periodic:
  "find_timer i ts = Some t \<Longrightarrow>
   \<exists>t'. find_timer i (startTimer now i (stopTimer i (startTimer_periodic now i True ts))) = Some t' \<and>
        is_running (expire later t') \<and> callback t' = callback t"
  by (simp add: startTimer_def stopTimer_def startTimer_periodic_def find_modify expire_def)

theorem restart_keeps_periodic_witness:
  "\<exists>t'. find_timer 1 (startTimer 0 1 (stopTimer 1 (startTimer_periodic 0 1 True
          (snd (createTimer (Some (7 :: nat)) 200 timers_init))))) = Some t' \<and>
        is_running (expire 5 t') \<and> callback t' = 7"
proof -
  have "find_timer 1 (snd (createTimer (Some (7 :: nat)) 200 timers_init)) =
      Some \<lparr>timer_id = 1, default_timeout = 200, current_timeout = 200, is_running = False,
            periodic = False, start_ts = 0, callback = 7\<rparr>"
    by (simp add: createTimer_def timers_init_def isTimeoutValid_def next_timer_id_def
        TIMERS_INVALID_ID_def Let_def find_timer_def has_id_def)
  from restart_keeps_periodic [OF this] show ?thesis by simp
qed

end
