(* ===== verification/CommandsParser.thy ===== *)
theory CommandsParser
  imports CppText
begin

text \<open>
  \<open>sw/MainApplication/include/ButtonCommandsParser.hpp\<close>: the text of a user button is
  split into lines, and the lines become commands: write a line to a port, or wait.
  \<open>__wait(t)\<close> and nested \<open>__repeat_start(n)\<close> \dots \<open>__repeat_end()\<close> blocks are expanded.
  The abstract side is a block-structured script with its expansion; parsing the text of a
  script gives its expansion.
\<close>

section \<open>The parser\<close>

text \<open>The closures stored in \<open>m_commands\<close>: a call of the writer, or a sleep of some milliseconds.\<close>

datatype command = Write int string | Wait nat

definition MAXIMUM_WAIT_TIME :: nat where
  "MAXIMUM_WAIT_TIME = 500"

definition DEFAULT_PORT_ID :: int where
  "DEFAULT_PORT_ID = - 1"

definition splitTextToStrings :: "string \<Rightarrow> string list" where
  "splitTextToStrings text = getlines (CHR 0x0A) text"

text \<open>\<open>command.find(p, 0) == 0\<close> and \<open>command.find(p) != npos\<close>.\<close>

definition starts_with :: "string \<Rightarrow> string \<Rightarrow> bool" where
  "starts_with p s \<longleftrightarrow> take (length p) s = p"

fun contains :: "string \<Rightarrow> string \<Rightarrow> bool" where
  "contains p [] \<longleftrightarrow> p = []"
| "contains p (c # s) \<longleftrightarrow> starts_with p (c # s) \<or> contains p s"

definition isSpecialCommand :: "string \<Rightarrow> bool" where
  "isSpecialCommand command = starts_with ''__'' command"

definition isPortSpecified :: "string \<Rightarrow> bool" where
  "isPortSpecified command = starts_with ''@'' command"

text \<open>
  The two regular expressions of the file, matched against a whole line. The dot of an
  ECMAScript expression matches every character but line feed and carriage return. In
  \<open>(__.*)\((.*)\)\<close> the first group is greedy: it ends at the last opening bracket.
\<close>

definition dots :: "string \<Rightarrow> bool" where
  "dots s \<longleftrightarrow> CHR 0x0A \<notin> set s \<and> CHR 0x0D \<notin> set s"

definition match_port :: "string \<Rightarrow> (nat \<times> string) option" where
  "match_port s =
     (case s of
        a # d # g # rest \<Rightarrow>
          if a = CHR ''@'' \<and> d \<in> set ''01234'' \<and> g = CHR ''>'' \<and> dots rest
          then Some (digit_val d, rest) else None
      | _ \<Rightarrow> None)"

definition match_special :: "string \<Rightarrow> (string \<times> string) option" where
  "match_special s =
     (if s \<noteq> [] \<and> last s = CHR '')'' \<and> dots s \<and> CHR ''('' \<in> set (butlast s)
      then let group2 = rev (takeWhile (\<lambda>c. c \<noteq> CHR ''('') (rev (butlast s)));
               group1 = rev (tl (dropWhile (\<lambda>c. c \<noteq> CHR ''('') (rev (butlast s))))
           in if starts_with ''__'' group1 then Some (group1, group2) else None
      else None)"

definition parsePortCommand :: "string \<Rightarrow> int \<times> string" where
  "parsePortCommand command =
     (case match_port command of
        Some (port, text) \<Rightarrow> (int port, text)
      | None \<Rightarrow> (DEFAULT_PORT_ID, command))"

function prepareWaitCommand :: "nat \<Rightarrow> command list" where
  "prepareWaitCommand time =
     (if time = 0 then []
      else let timeout = (if time < MAXIMUM_WAIT_TIME then time mod MAXIMUM_WAIT_TIME else MAXIMUM_WAIT_TIME)
           in Wait timeout # prepareWaitCommand (time - timeout))"
  by pat_completeness auto
termination
  by (relation "measure id") (auto simp: MAXIMUM_WAIT_TIME_def)

declare prepareWaitCommand.simps [simp del]

text \<open>
  \<open>findRepeatEnd\<close> from the line after the start: the position of the matching end, if any.
\<close>

fun findRepeatEnd :: "string list \<Rightarrow> nat \<Rightarrow> nat option" where
  "findRepeatEnd [] repeatEndsToSkip = None"
| "findRepeatEnd (s # ss) repeatEndsToSkip =
     (let skip = (if contains ''__repeat_start'' s then Suc repeatEndsToSkip else repeatEndsToSkip)
      in if contains ''__repeat_end'' s
         then if skip > 0 then map_option Suc (findRepeatEnd ss (skip - 1)) else Some 0
         else map_option Suc (findRepeatEnd ss skip))"

text \<open>
  \<open>prepareRepeatCommand\<close> and \<open>processSpecialCommand\<close>: how many lines were used, the
  commands added directly, and the loop whose lines are processed a number of times.
\<close>

definition prepareRepeatCommand :: "string list \<Rightarrow> nat \<Rightarrow> nat \<times> nat \<times> string list" where
  "prepareRepeatCommand substrings repeat_count =
     (case findRepeatEnd (tl substrings) 0 of
        None \<Rightarrow> (1, 0, [])
      | Some repeat_end \<Rightarrow>
          let loop_commands = take repeat_end (tl substrings)
          in (length loop_commands + 2, repeat_count, loop_commands))"

definition processSpecialCommand :: "string list \<Rightarrow> nat \<times> command list \<times> nat \<times> string list" where
  "processSpecialCommand substrings =
     (case match_special (hd substrings) of
        None \<Rightarrow> (1, [], 0, [])
      | Some (name, argument) \<Rightarrow>
          let commandArgument = atoi argument
          in if name = ''__wait''
             then if commandArgument > 0 then (1, prepareWaitCommand (nat commandArgument), 0, []) else (1, [], 0, [])
             else if name = ''__repeat_start''
             then if commandArgument > 0
                  then let (processed, count, loop) = prepareRepeatCommand substrings (nat commandArgument)
                       in (processed, [], count, loop)
                  else (1, [], 0, [])
             else (1, [], 0, []))"

lemma findRepeatEnd_bound: "findRepeatEnd ss n = Some k \<Longrightarrow> k < length ss"
proof (induction ss n arbitrary: k rule: findRepeatEnd.induct)
  case (2 s ss n)
  then show ?case by (fastforce simp: Let_def split: if_splits)
qed simp

lemma processSpecialCommand_uses:
  assumes "processSpecialCommand (s # ss) = (processed, cmds, count, loop)"
  shows "0 < processed" "length loop \<le> length ss"
  using assms
  by (auto simp: processSpecialCommand_def prepareRepeatCommand_def Let_def
           split: option.splits if_splits prod.splits dest: findRepeatEnd_bound)

function processStrings :: "string list \<Rightarrow> command list" where
  "processStrings [] = []"
| "processStrings (s # ss) =
     (if isSpecialCommand s
      then let (processed, cmds, count, loop) = processSpecialCommand (s # ss)
           in cmds @ concat (replicate count (processStrings loop)) @ processStrings (drop processed (s # ss))
      else if isPortSpecified s
      then (let (port, text) = parsePortCommand s in Write port text) # processStrings ss
      else Write DEFAULT_PORT_ID s # processStrings ss)"
  by pat_completeness auto
termination
  by (relation "measure length") (auto dest: processSpecialCommand_uses [OF sym] simp: less_Suc_eq_le)

declare processStrings.simps(2) [simp del]

text \<open>
  The parser object: the commands and the position of \<open>m_current_command\<close>. The writer is
  a parameter of execution, so it is not stored.
\<close>

record parser =
  m_commands :: "command list"
  m_current_command :: nat

definition parseCommands :: "string \<Rightarrow> parser \<Rightarrow> nat \<times> parser" where
  "parseCommands text p =
     (let cmds = processStrings (splitTextToStrings text)
      in (length cmds, p\<lparr>m_commands := cmds, m_current_command := 0\<rparr>))"

definition parser_reset :: "parser \<Rightarrow> parser" where
  "parser_reset p = p\<lparr>m_current_command := 0\<rparr>"

text \<open>\<open>runNext\<close>: the position moves before the command runs; a sleep always succeeds.\<close>

definition run_command :: "(int \<Rightarrow> string \<Rightarrow> bool) \<Rightarrow> command \<Rightarrow> bool" where
  "run_command writer c = (case c of Write port text \<Rightarrow> writer port text | Wait t \<Rightarrow> True)"

definition runNext :: "(int \<Rightarrow> string \<Rightarrow> bool) \<Rightarrow> parser \<Rightarrow> bool \<times> parser" where
  "runNext writer p =
     (if m_current_command p < length (m_commands p)
      then (run_command writer (m_commands p ! m_current_command p),
            p\<lparr>m_current_command := Suc (m_current_command p)\<rparr>)
      else (False, p))"

definition commandsCount :: "parser \<Rightarrow> nat" where
  "commandsCount p = length (m_commands p)"

definition commandsExecuted :: "parser \<Rightarrow> nat" where
  "commandsExecuted p = m_current_command p"

section \<open>Waiting times\<close>

lemma prepareWaitCommand_small [simp]: "prepareWaitCommand 0 = []"
  by (simp add: prepareWaitCommand.simps)

lemma prepareWaitCommand_last: "0 < t \<Longrightarrow> t < MAXIMUM_WAIT_TIME \<Longrightarrow> prepareWaitCommand t = [Wait t]"
  by (simp add: prepareWaitCommand.simps [of t])

lemma prepareWaitCommand_step:
  "MAXIMUM_WAIT_TIME \<le> t \<Longrightarrow> prepareWaitCommand t = Wait MAXIMUM_WAIT_TIME # prepareWaitCommand (t - MAXIMUM_WAIT_TIME)"
  by (subst prepareWaitCommand.simps) (auto simp: MAXIMUM_WAIT_TIME_def)

lemma prepareWaitCommand_eq:
  "prepareWaitCommand t =
     replicate (t div MAXIMUM_WAIT_TIME) (Wait MAXIMUM_WAIT_TIME) @
     (if t mod MAXIMUM_WAIT_TIME = 0 then [] else [Wait (t mod MAXIMUM_WAIT_TIME)])"
proof (induction t rule: less_induct)
  case (less t)
  show ?case
  proof (cases "t < MAXIMUM_WAIT_TIME")
    case True
    then show ?thesis by (cases "t = 0") (simp_all add: prepareWaitCommand_last)
  next
    case False
    have pos: "0 < MAXIMUM_WAIT_TIME" by (simp add: MAXIMUM_WAIT_TIME_def)
    from False have "t - MAXIMUM_WAIT_TIME < t" using pos by simp
    note IH = less.IH [OF this]
    have "t div MAXIMUM_WAIT_TIME = Suc ((t - MAXIMUM_WAIT_TIME) div MAXIMUM_WAIT_TIME)"
      "t mod MAXIMUM_WAIT_TIME = (t - MAXIMUM_WAIT_TIME) mod MAXIMUM_WAIT_TIME"
      using False pos by (simp_all add: le_div_geq le_mod_geq)
    then show ?thesis using False IH by (simp add: prepareWaitCommand_step)
  qed
qed

lemma ceil_div:
  assumes "0 < (m :: nat)"
  shows "(t + m - 1) div m = t div m + (if t mod m = 0 then 0 else 1)"
proof -
  define q r where "q = t div m" and "r = t mod m"
  have t: "t = r + q * m" and r: "r < m" using assms by (simp_all add: q_def r_def)
  show ?thesis
  proof (cases "r = 0")
    case True
    have "t + m - 1 = (m - 1) + q * m" using t True assms by simp
    moreover have "(m - 1) div m = 0" using assms by simp
    ultimately have "(t + m - 1) div m = q" using assms by (simp only: div_mult_self1)
    then show ?thesis using True by (simp add: q_def r_def)
  next
    case False
    have "t + m - 1 = (r - 1) + Suc q * m" using t False assms by simp
    moreover have "(r - 1) div m = 0" using r by simp
    ultimately have "(t + m - 1) div m = Suc q" using assms by (simp only: div_mult_self1)
    then show ?thesis using False by (simp add: q_def r_def)
  qed
qed

fun wait_time :: "command \<Rightarrow> nat" where
  "wait_time (Wait t) = t"
| "wait_time (Write p s) = 0"

text \<open>
  C24. A wait of any length is cut into pieces that add up to it exactly, each at least one
  millisecond and at most \<open>MAXIMUM_WAIT_TIME\<close>, and there are no more of them than needed.
\<close>

theorem wait_is_split_exactly:
  "sum_list (map wait_time (prepareWaitCommand t)) = t \<and>
   list_all (\<lambda>c. \<exists>w. c = Wait w \<and> 0 < w \<and> w \<le> MAXIMUM_WAIT_TIME) (prepareWaitCommand t) \<and>
   length (prepareWaitCommand t) = (t + MAXIMUM_WAIT_TIME - 1) div MAXIMUM_WAIT_TIME"
proof (intro conjI)
  have pos: "0 < MAXIMUM_WAIT_TIME" by (simp add: MAXIMUM_WAIT_TIME_def)
  show "sum_list (map wait_time (prepareWaitCommand t)) = t"
  proof (cases "t mod 500 = 0")
    case True
    then have "t div 500 * 500 = t" by (metis add.right_neutral div_mult_mod_eq)
    with True show ?thesis by (simp add: prepareWaitCommand_eq MAXIMUM_WAIT_TIME_def sum_list_replicate)
  qed (simp add: prepareWaitCommand_eq MAXIMUM_WAIT_TIME_def sum_list_replicate)
  show "list_all (\<lambda>c. \<exists>w. c = Wait w \<and> 0 < w \<and> w \<le> MAXIMUM_WAIT_TIME) (prepareWaitCommand t)"
    using pos by (auto simp: prepareWaitCommand_eq list_all_iff less_imp_le)
  show "length (prepareWaitCommand t) = (t + MAXIMUM_WAIT_TIME - 1) div MAXIMUM_WAIT_TIME"
    using ceil_div [OF pos, of t] by (simp add: prepareWaitCommand_eq)
qed

section \<open>Scripts\<close>

text \<open>
  What a user means by the text of a button: lines for the current port, lines for a named
  port, waits, and loops.
\<close>

datatype script = Line string | PortLine nat string | Pause nat | Repeat nat "script list"

fun script_lines :: "script \<Rightarrow> string list" where
  "script_lines (Line s) = [s]"
| "script_lines (PortLine p s) = [CHR ''@'' # to_string p @ CHR ''>'' # s]"
| "script_lines (Pause t) = [''__wait('' @ to_string t @ '')'']"
| "script_lines (Repeat n body) =
     [''__repeat_start('' @ to_string n @ '')''] @ concat (map script_lines body) @ [''__repeat_end()'']"

fun script_commands :: "script \<Rightarrow> command list" where
  "script_commands (Line s) = [Write DEFAULT_PORT_ID s]"
| "script_commands (PortLine p s) = [Write (int p) s]"
| "script_commands (Pause t) = prepareWaitCommand t"
| "script_commands (Repeat n body) = concat (replicate n (concat (map script_commands body)))"

text \<open>
  The scripts a text can express: a plain line is not a special or a port line, no line
  mentions a loop bracket, ports are 0 to 4, and numbers are positive and fit \<open>int\<close>.
\<close>

definition plain_text :: "string \<Rightarrow> bool" where
  "plain_text s \<longleftrightarrow> \<not> contains ''__repeat_start'' s \<and> \<not> contains ''__repeat_end'' s"

fun script_ok :: "script \<Rightarrow> bool" where
  "script_ok (Line s) \<longleftrightarrow> \<not> isSpecialCommand s \<and> \<not> isPortSpecified s \<and> CHR 0x0A \<notin> set s \<and> plain_text s"
| "script_ok (PortLine p s) \<longleftrightarrow> p \<le> 4 \<and> dots s \<and> plain_text s"
| "script_ok (Pause t) \<longleftrightarrow> 0 < t \<and> t < 2 ^ 31"
| "script_ok (Repeat n body) \<longleftrightarrow> 0 < n \<and> n < 2 ^ 31 \<and> list_all script_ok body"

lemma starts_with_append [simp]: "starts_with p (p @ s)"
  by (simp add: starts_with_def)

lemma contains_set: "contains p s \<Longrightarrow> set p \<subseteq> set s"
proof (induction p s rule: contains.induct)
  case (2 p c s)
  then show ?case using set_take_subset [of "length p" "c # s"]
    by (auto simp: starts_with_def)
qed simp

lemma dots_to_string [simp]: "dots (to_string n)"
  by (simp add: dots_def to_string_no is_digit_def)

lemma to_string_nonletter [simp]:
  "CHR ''('' \<notin> set (to_string n)" "CHR ''n'' \<notin> set (to_string n)" "CHR ''r'' \<notin> set (to_string n)"
  "CHR 0x0A \<notin> set (to_string n)"
  by (simp_all add: to_string_no is_digit_def)

lemma match_special_call:
  assumes "starts_with ''__'' a" "dots a" "dots b" "CHR ''('' \<notin> set b"
  shows "match_special (a @ CHR ''('' # b @ [CHR '')'']) = Some (a, b)"
proof -
  have bl: "butlast (a @ CHR ''('' # b @ [CHR '')'']) = a @ CHR ''('' # b"
    by (simp add: butlast_append)
  have rv: "rev (a @ CHR ''('' # b) = rev b @ CHR ''('' # rev a" by simp
  have tw: "takeWhile (\<lambda>c. c \<noteq> CHR ''('') (rev b @ CHR ''('' # rev a) = rev b"
    "dropWhile (\<lambda>c. c \<noteq> CHR ''('') (rev b @ CHR ''('' # rev a) = CHR ''('' # rev a"
    using assms(4) by (subst takeWhile_append2 dropWhile_append2; auto)+
  show ?thesis
    unfolding match_special_def bl rv tw using assms by (simp add: dots_def Let_def)
qed

lemma match_wait: "match_special (''__wait('' @ to_string t @ '')'') = Some (''__wait'', to_string t)"
proof -
  have "dots ''__wait''" by (simp add: dots_def)
  then show ?thesis
    using match_special_call [of "''__wait''" "to_string t"] by (simp add: starts_with_def)
qed

lemma match_repeat: "match_special (''__repeat_start('' @ to_string t @ '')'') = Some (''__repeat_start'', to_string t)"
proof -
  have "dots ''__repeat_start''" by (simp add: dots_def)
  then show ?thesis
    using match_special_call [of "''__repeat_start''" "to_string t"] by (simp add: starts_with_def)
qed

lemma atoi_to_string [simp]: "n < 2 ^ 31 \<Longrightarrow> atoi (to_string n) = int n"
proof -
  assume "n < 2 ^ 31"
  then have lt: "int n < 2 ^ 31" using of_nat_less_iff [of n "2 ^ 31", where 'a = int] by simp
  then have "clamp64 (int n) = int n" by (simp add: clamp64_def)
  moreover have "sint (word_of_int (int n) :: u32) = int n"
    by (rule sint_word_of_int(3)) (use lt in simp_all)
  ultimately show ?thesis by (simp only: atoi_def scan_int_to_string option.case)
qed

text \<open>Lines a search for the matching end passes over, whatever it still has to skip.\<close>

definition neutral :: "string list \<Rightarrow> bool" where
  "neutral xs \<longleftrightarrow>
     (\<forall>rest skip. findRepeatEnd (xs @ rest) skip = map_option (\<lambda>k. length xs + k) (findRepeatEnd rest skip))"

lemma neutral_append: "neutral xs \<Longrightarrow> neutral ys \<Longrightarrow> neutral (xs @ ys)"
  by (simp add: neutral_def option.map_comp comp_def add.assoc)

lemma neutral_Nil [simp]: "neutral []"
  by (simp add: neutral_def option.map_ident)

lemma neutral_plain: "plain_text s \<Longrightarrow> neutral [s]"
  by (simp add: neutral_def plain_text_def Let_def option.map_comp comp_def)

lemma neutral_concat: "(\<And>x. x \<in> set xs \<Longrightarrow> neutral (f x)) \<Longrightarrow> neutral (concat (map f xs))"
  by (induction xs) (auto intro: neutral_append)

lemma repeat_start_line:
  "contains ''__repeat_start'' (''__repeat_start('' @ s)"
  "\<not> contains ''__repeat_end'' (''__repeat_start('' @ to_string n @ '')'')"
proof -
  show "contains ''__repeat_start'' (''__repeat_start('' @ s)" by (simp add: starts_with_def)
  show "\<not> contains ''__repeat_end'' (''__repeat_start('' @ to_string n @ '')'')"
    using contains_set [of "''__repeat_end''" "''__repeat_start('' @ to_string n @ '')''"] by auto
qed

lemma repeat_end_line:
  "contains ''__repeat_end'' ''__repeat_end()''" "\<not> contains ''__repeat_start'' ''__repeat_end()''"
  by (simp_all add: starts_with_def)

lemma neutral_bracket:
  assumes "contains ''__repeat_start'' s" "\<not> contains ''__repeat_end'' s"
    "contains ''__repeat_end'' e" "\<not> contains ''__repeat_start'' e" "neutral body"
  shows "neutral ([s] @ body @ [e])"
  using assms by (simp add: neutral_def Let_def option.map_comp comp_def)

lemma neutral_repeat:
  "neutral body \<Longrightarrow> neutral ([''__repeat_start('' @ to_string n @ '')''] @ body @ [''__repeat_end()''])"
  by (rule neutral_bracket [OF repeat_start_line repeat_end_line])

lemma neutral_wait: "neutral [''__wait('' @ to_string t @ '')'']"
proof (rule neutral_plain)
  show "plain_text (''__wait('' @ to_string t @ '')'')"
    using contains_set [of "''__repeat_end''" "''__wait('' @ to_string t @ '')''"]
      contains_set [of "''__repeat_start''" "''__wait('' @ to_string t @ '')''"]
    by (auto simp: plain_text_def)
qed

lemma to_string_digit: "n < 10 \<Longrightarrow> to_string n = [digit_char n]"
  by (simp add: to_string.simps)

lemma digit_chars:
  "digit_char 0 = CHR ''0''" "digit_char (Suc 0) = CHR ''1''" "digit_char 2 = CHR ''2''"
  "digit_char 3 = CHR ''3''" "digit_char 4 = CHR ''4''"
  by code_simp+

lemma port_line:
  assumes "p \<le> 4" "dots s"
  defines "l \<equiv> CHR ''@'' # to_string p @ CHR ''>'' # s"
  shows "match_port l = Some (p, s)" "\<not> isSpecialCommand l" "isPortSpecified l"
    "plain_text s \<Longrightarrow> plain_text l"
proof -
  have "p \<in> {0, 1, 2, 3, 4}" using assms(1) by auto
  then show "match_port l = Some (p, s)" "\<not> isSpecialCommand l" "isPortSpecified l"
    "plain_text s \<Longrightarrow> plain_text l"
    using assms(2)
    by (auto simp: l_def to_string_digit match_port_def isSpecialCommand_def isPortSpecified_def
          starts_with_def plain_text_def digit_chars digit_val_def)
qed

text \<open>The three kinds of line, as \<open>processStrings\<close> meets them.\<close>

lemma process_plain:
  "\<not> isSpecialCommand s \<Longrightarrow> \<not> isPortSpecified s \<Longrightarrow>
   processStrings (s # ss) = Write DEFAULT_PORT_ID s # processStrings ss"
  by (simp add: processStrings.simps(2))

lemma process_port:
  "p \<le> 4 \<Longrightarrow> dots s \<Longrightarrow>
   processStrings ((CHR ''@'' # to_string p @ CHR ''>'' # s) # ss) = Write (int p) s # processStrings ss"
  using port_line [of p s] by (subst processStrings.simps(2)) (simp add: parsePortCommand_def)

lemma process_wait:
  assumes "0 < t" "t < 2 ^ 31"
  shows "processStrings ((''__wait('' @ to_string t @ '')'') # ss) = prepareWaitCommand t @ processStrings ss"
proof -
  have "isSpecialCommand (''__wait('' @ to_string t @ '')'')"
    by (simp add: isSpecialCommand_def starts_with_def)
  moreover have "processSpecialCommand ((''__wait('' @ to_string t @ '')'') # ss) = (1, prepareWaitCommand t, 0, [])"
    using assms by (simp only: processSpecialCommand_def list.sel match_wait option.case prod.case
        atoi_to_string Let_def) simp
  ultimately show ?thesis by (subst processStrings.simps(2)) simp
qed

lemma special_repeat:
  assumes "0 < n" "n < 2 ^ 31"
  shows "processSpecialCommand ((''__repeat_start('' @ to_string n @ '')'') # ss) =
     (case findRepeatEnd ss 0 of
        None \<Rightarrow> (1, [], 0, [])
      | Some k \<Rightarrow> (length (take k ss) + 2, [], n, take k ss))"
  using assms
  by (simp only: processSpecialCommand_def list.sel match_repeat option.case prod.case atoi_to_string Let_def
        prepareRepeatCommand_def) (simp split: option.split)

lemma process_repeat:
  assumes "0 < n" "n < 2 ^ 31" "neutral body"
  shows "processStrings ((''__repeat_start('' @ to_string n @ '')'') # body @ ''__repeat_end()'' # ss)
           = concat (replicate n (processStrings body)) @ processStrings ss"
proof -
  let ?s = "''__repeat_start('' @ to_string n @ '')''"
  have special: "isSpecialCommand ?s"
    by (simp add: isSpecialCommand_def starts_with_def)
  have "findRepeatEnd (''__repeat_end()'' # ss) 0 = Some 0"
    using repeat_end_line by (simp del: contains.simps)
  then have "findRepeatEnd (body @ ''__repeat_end()'' # ss) 0 = Some (length body)"
    using assms(3) unfolding neutral_def by simp
  then have "processSpecialCommand (?s # body @ ''__repeat_end()'' # ss) = (length body + 2, [], n, body)"
    unfolding special_repeat [OF assms(1,2)] by simp
  then show ?thesis using special by (subst processStrings.simps(2)) simp
qed

lemma process_script:
  "script_ok x \<Longrightarrow>
   neutral (script_lines x) \<and> (\<forall>ss. processStrings (script_lines x @ ss) = script_commands x @ processStrings ss)"
proof (induction x)
  case (Line s)
  then show ?case by (simp add: process_plain neutral_plain)
next
  case (PortLine p s)
  then have "plain_text (CHR ''@'' # to_string p @ CHR ''>'' # s)"
    using port_line(4) [of p s] by simp
  with PortLine show ?case by (simp add: process_port neutral_plain)
next
  case (Pause t)
  have "neutral (script_lines (Pause t))" using neutral_wait [of t] by simp
  moreover have "\<forall>ss. processStrings (script_lines (Pause t) @ ss) = script_commands (Pause t) @ processStrings ss"
    using process_wait [of t] Pause by simp
  ultimately show ?case by blast
next
  case (Repeat n body)
  let ?lines = "concat (map script_lines body)"
  have each: "neutral (script_lines x)"
      "processStrings (script_lines x @ ss) = script_commands x @ processStrings ss"
    if "x \<in> set body" for x ss
    using Repeat.IH [OF that] Repeat.prems that by (auto simp: list_all_iff)
  have nt: "neutral ?lines" by (rule neutral_concat) (rule each(1))
  have "\<forall>x \<in> set xs. x \<in> set body \<Longrightarrow>
      processStrings (concat (map script_lines xs)) = concat (map script_commands xs)" for xs
    by (induction xs) (simp_all add: each(2))
  then have body: "processStrings ?lines = concat (map script_commands body)" by simp
  have "neutral (script_lines (Repeat n body))" using neutral_repeat [OF nt, of n] by simp
  moreover have "\<forall>ss. processStrings (script_lines (Repeat n body) @ ss)
      = script_commands (Repeat n body) @ processStrings ss"
    using process_repeat [of n ?lines] nt Repeat.prems body by simp
  ultimately show ?case by blast
qed

lemma process_scripts:
  "list_all script_ok xs \<Longrightarrow> processStrings (concat (map script_lines xs)) = concat (map script_commands xs)"
  by (induction xs) (simp_all add: process_script)

lemma script_lines_no_newline:
  "script_ok x \<Longrightarrow> l \<in> set (script_lines x) \<Longrightarrow> CHR 0x0A \<notin> set l"
  by (induction x) (auto simp: dots_def list_all_iff)

section \<open>Properties\<close>

text \<open>
  C23. The text of a well-formed script, nested loops included, is parsed into exactly the
  commands the script means, in order; the returned count is their number and execution
  starts at the first one.
\<close>

theorem script_roundtrip:
  "list_all script_ok xs \<Longrightarrow>
   parseCommands (terminated (CHR 0x0A) (concat (map script_lines xs))) p =
     (length (concat (map script_commands xs)),
      p\<lparr>m_commands := concat (map script_commands xs), m_current_command := 0\<rparr>)"
proof -
  assume ok: "list_all script_ok xs"
  have "\<forall>l \<in> set (concat (map script_lines xs)). CHR 0x0A \<notin> set l"
    using ok script_lines_no_newline by (auto simp: list_all_iff)
  then have "splitTextToStrings (terminated (CHR 0x0A) (concat (map script_lines xs))) = concat (map script_lines xs)"
    unfolding splitTextToStrings_def by (rule getlines_terminated)
  then show ?thesis using process_scripts [OF ok] by (simp add: parseCommands_def Let_def)
qed

theorem script_roundtrip_witness:
  "parseCommands (terminated (CHR 0x0A)
       (concat (map script_lines [Repeat 2 [Line ''ls'', Repeat 2 [PortLine 3 ''up'']], Pause 700])))
     \<lparr>m_commands = [], m_current_command = 3\<rparr> =
     (8, \<lparr>m_commands = [Write (- 1) ''ls'', Write 3 ''up'', Write 3 ''up'', Write (- 1) ''ls'', Write 3 ''up'',
           Write 3 ''up'', Wait 500, Wait 200], m_current_command = 0\<rparr>)"
proof -
  have ok: "list_all script_ok [Repeat 2 [Line ''ls'', Repeat 2 [PortLine 3 ''up'']], Pause 700]"
    by (simp add: isSpecialCommand_def isPortSpecified_def plain_text_def starts_with_def dots_def)
  show ?thesis
    using script_roundtrip [OF ok, of "\<lparr>m_commands = [], m_current_command = 3\<rparr>"]
    by (simp add: prepareWaitCommand_eq MAXIMUM_WAIT_TIME_def DEFAULT_PORT_ID_def numeral_2_eq_2)
qed

text \<open>
  A loop that is never closed is no loop: its start line is dropped and the lines after it
  are processed once, as if it were not there.
\<close>

theorem unclosed_repeat_is_dropped:
  "\<lbrakk>0 < n; n < 2 ^ 31; findRepeatEnd ss 0 = None\<rbrakk> \<Longrightarrow>
   processStrings ((''__repeat_start('' @ to_string n @ '')'') # ss) = processStrings ss"
proof -
  assume a: "0 < n" "n < 2 ^ 31" "findRepeatEnd ss 0 = None"
  have "isSpecialCommand (''__repeat_start('' @ to_string n @ '')'')"
    by (simp add: isSpecialCommand_def starts_with_def)
  moreover have "processSpecialCommand ((''__repeat_start('' @ to_string n @ '')'') # ss) = (1, [], 0, [])"
    unfolding special_repeat [OF a(1,2)] using a(3) by simp
  ultimately show ?thesis by (subst processStrings.simps(2)) simp
qed

theorem unclosed_repeat_is_dropped_witness:
  "processStrings [''__repeat_start('' @ to_string 3 @ '')'', ''ls''] = processStrings [''ls'']"
  by (rule unclosed_repeat_is_dropped) (simp_all add: starts_with_def)

text \<open>
  A waiting time from \<open>2 ^ 31\<close> to \<open>2 ^ 32 - 1\<close> is inside the range the file's comment
  promises, but \<open>atoi\<close> makes it negative: the line yields no waiting command at all.
\<close>

theorem long_wait_is_skipped:
  "\<lbrakk>2 ^ 31 \<le> t; t < 2 ^ 32\<rbrakk> \<Longrightarrow> processStrings ((''__wait('' @ to_string t @ '')'') # ss) = processStrings ss"
proof -
  assume a: "2 ^ 31 \<le> t" "t < 2 ^ 32"
  then have t: "2 ^ 31 \<le> int t" "int t < 2 ^ 32"
    using of_nat_le_iff [of "2 ^ 31" t, where 'a = int] of_nat_less_iff [of t "2 ^ 32", where 'a = int] by simp_all
  have "word_of_int (int t) = (word_of_int (int t - 2 ^ 32) :: u32)"
    by (simp add: word_of_int_eq_iff take_bit_int_def)
  moreover have "sint (word_of_int (int t - 2 ^ 32) :: u32) = int t - 2 ^ 32"
    by (rule sint_word_of_int(3)) (use t in simp_all)
  moreover have "clamp64 (int t) = int t" using t by (simp add: clamp64_def)
  ultimately have neg: "\<not> atoi (to_string t) > 0"
    using t by (simp only: atoi_def scan_int_to_string option.case)
  have "isSpecialCommand (''__wait('' @ to_string t @ '')'')"
    by (simp add: isSpecialCommand_def starts_with_def)
  moreover have "processSpecialCommand ((''__wait('' @ to_string t @ '')'') # ss) = (1, [], 0, [])"
    using neg by (simp only: processSpecialCommand_def list.sel match_wait option.case prod.case Let_def) simp
  ultimately show ?thesis by (subst processStrings.simps(2)) simp
qed

theorem long_wait_is_skipped_witness:
  "processStrings [''__wait('' @ to_string 3000000000 @ '')''] = processStrings []"
  by (rule long_wait_is_skipped) simp_all

end
