(* ===== verification/CommandsExecutor.thy ===== *)
theory CommandsExecutor
  imports CommandsParser
begin

text \<open>
  \<open>sw/MainApplication/include/ButtonCommandsExecutor.hpp\<close>: the commands of a user button
  run in a detached thread while the GUI thread may start, abort and replace them. The model
  is an interleaving of the GUI thread's calls with the statements of the worker threads,
  on the shared members \<open>m_isRunning\<close>, \<open>m_threadRunning\<close> and the parser.
\<close>

section \<open>Threads and shared state\<close>

text \<open>
  The statements of \<open>threadLoop\<close> a worker thread can be at. A call of \<open>runNext\<close> is two
  steps: the position moves on, then the command runs, which may take long.
\<close>

datatype worker_pc =
    W_Start
  | W_Reset
  | W_Loop
  | W_Run
  | W_Command command
  | W_Callback
  | W_ClearThread
  | W_ClearRunning

text \<open>
  \<open>workers\<close> holds the detached threads that have not ended; \<open>aborting\<close> says that the GUI
  thread is inside the waiting loop of \<open>abort\<close>.
\<close>

record executor =
  exec_parser :: parser
  m_raw_text :: string
  exec_isRunning :: bool
  exec_threadRunning :: bool
  workers :: "worker_pc list"
  aborting :: bool

datatype exec_event = Started | Ran command bool | Finished bool

definition executor_init :: executor where
  "executor_init = \<lparr>exec_parser = \<lparr>m_commands = [], m_current_command = 0\<rparr>, m_raw_text = [],
     exec_isRunning = False, exec_threadRunning = False, workers = [], aborting = False\<rparr>"

definition isExecution :: "executor \<Rightarrow> bool" where
  "isExecution s = exec_isRunning s"

section \<open>The GUI thread\<close>

definition executor_execute :: "executor \<Rightarrow> executor" where
  "executor_execute s =
     (if \<not> exec_isRunning s
      then s\<lparr>exec_isRunning := True, workers := workers s @ [W_Start]\<rparr>
      else s)"

definition executor_abort :: "executor \<Rightarrow> executor" where
  "executor_abort s =
     (if exec_isRunning s \<and> exec_threadRunning s
      then s\<lparr>exec_isRunning := False, aborting := True\<rparr>
      else s)"

definition executor_parseCommands :: "string \<Rightarrow> executor \<Rightarrow> nat \<times> executor" where
  "executor_parseCommands text s =
     (if \<not> exec_isRunning s
      then let (result, p) = parseCommands text (exec_parser s)
           in (result, s\<lparr>exec_parser := p, m_raw_text := text\<rparr>)
      else (0, s))"

section \<open>The worker threads\<close>

definition set_pc :: "nat \<Rightarrow> worker_pc \<Rightarrow> executor \<Rightarrow> executor" where
  "set_pc i pc s = s\<lparr>workers := (workers s)[i := pc]\<rparr>"

definition end_worker :: "nat \<Rightarrow> executor \<Rightarrow> executor" where
  "end_worker i s = s\<lparr>workers := take i (workers s) @ drop (Suc i) (workers s)\<rparr>"

text \<open>The two steps of \<open>runNext\<close>: what it does before the command, and the command.\<close>

definition fetch_command :: "parser \<Rightarrow> (command \<times> parser) option" where
  "fetch_command p =
     (if m_current_command p < length (m_commands p)
      then Some (m_commands p ! m_current_command p, p\<lparr>m_current_command := Suc (m_current_command p)\<rparr>)
      else None)"

lemma runNext_fetch:
  "runNext writer p =
     (case fetch_command p of None \<Rightarrow> (False, p) | Some (c, p') \<Rightarrow> (run_command writer c, p'))"
  by (simp add: runNext_def fetch_command_def)

text \<open>
  One statement of worker \<open>i\<close>; \<open>writer\<close> answers the command it runs, if it runs one.
\<close>

definition worker_step :: "(int \<Rightarrow> string \<Rightarrow> bool) \<Rightarrow> nat \<Rightarrow> executor \<Rightarrow> exec_event list \<times> executor" where
  "worker_step writer i s =
     (case workers s ! i of
        W_Start \<Rightarrow> ([], set_pc i W_Reset (s\<lparr>exec_threadRunning := True\<rparr>))
      | W_Reset \<Rightarrow> ([Started], set_pc i W_Loop (s\<lparr>exec_parser := parser_reset (exec_parser s)\<rparr>))
      | W_Loop \<Rightarrow>
          if commandsExecuted (exec_parser s) \<noteq> commandsCount (exec_parser s) \<and> isExecution s
          then ([], set_pc i W_Run s)
          else ([], set_pc i W_Callback s)
      | W_Run \<Rightarrow>
          (case fetch_command (exec_parser s) of
             Some (c, p) \<Rightarrow> ([], set_pc i (W_Command c) (s\<lparr>exec_parser := p\<rparr>))
           | None \<Rightarrow> ([], set_pc i W_Callback s))
      | W_Command c \<Rightarrow>
          (let ok = run_command writer c
           in ([Ran c ok], set_pc i (if ok then W_Loop else W_Callback) s))
      | W_Callback \<Rightarrow>
          ([Finished (commandsExecuted (exec_parser s) = commandsCount (exec_parser s))], set_pc i W_ClearThread s)
      | W_ClearThread \<Rightarrow> ([], set_pc i W_ClearRunning (s\<lparr>exec_threadRunning := False\<rparr>))
      | W_ClearRunning \<Rightarrow> ([], end_worker i (s\<lparr>exec_isRunning := False\<rparr>)))"

section \<open>Interleavings\<close>

datatype gui_call = Execute | Abort | Parse string | Wake

text \<open>
  While it waits in \<open>abort\<close> the GUI thread makes no other call; the wait ends when the worker
  has cleared \<open>m_threadRunning\<close> or after the 500 ms, whatever the workers have done by then.
\<close>

inductive exec_step :: "executor \<Rightarrow> gui_call option \<Rightarrow> exec_event list \<Rightarrow> executor \<Rightarrow> bool" where
  step_execute: "\<not> aborting s \<Longrightarrow> exec_step s (Some Execute) [] (executor_execute s)"
| step_abort: "\<not> aborting s \<Longrightarrow> exec_step s (Some Abort) [] (executor_abort s)"
| step_parse: "\<not> aborting s \<Longrightarrow> exec_step s (Some (Parse text)) [] (snd (executor_parseCommands text s))"
| step_wake: "aborting s \<Longrightarrow> exec_step s (Some Wake) [] (s\<lparr>aborting := False\<rparr>)"
| step_worker: "\<lbrakk>i < length (workers s); worker_step writer i s = (es, s')\<rbrakk> \<Longrightarrow> exec_step s None es s'"

inductive_cases exec_stepE: "exec_step s c es s'"

inductive exec_run :: "executor \<Rightarrow> gui_call list \<Rightarrow> exec_event list \<Rightarrow> executor \<Rightarrow> bool" where
  run_nil: "exec_run s [] [] s"
| run_gui: "\<lbrakk>exec_run s cs es t; exec_step t (Some c) es' u\<rbrakk> \<Longrightarrow> exec_run s (cs @ [c]) (es @ es') u"
| run_worker: "\<lbrakk>exec_run s cs es t; exec_step t None es' u\<rbrakk> \<Longrightarrow> exec_run s cs (es @ es') u"

lemma run_one_worker:
  "\<lbrakk>exec_run s cs es t; i < length (workers t); worker_step writer i t = (es', u)\<rbrakk> \<Longrightarrow> exec_run s cs (es @ es') u"
  by (rule run_worker) (auto intro: step_worker)

lemma worker_runs: "i < length (workers t) \<Longrightarrow> worker_step writer i t = (es', u) \<Longrightarrow> exec_run t [] es' u"
  using run_one_worker [OF run_nil] by fastforce

lemma exec_run_trans: "exec_run t cs' es' u \<Longrightarrow> exec_run s cs es t \<Longrightarrow> exec_run s (cs @ cs') (es @ es') u"
proof (induction rule: exec_run.induct)
  case (run_gui t cs' es' u c es'' v)
  then show ?case using exec_run.run_gui [of s "cs @ cs'" "es @ es'" u c es'' v] by simp
next
  case (run_worker t cs' es' u es'' v)
  then show ?case using exec_run.run_worker [of s "cs @ cs'" "es @ es'" u es'' v] by simp
qed simp

section \<open>The invariant of runs without abort\<close>

text \<open>The commands run since the worker last reset the parser, with their results.\<close>

definition since_start :: "exec_event list \<Rightarrow> (command \<times> bool) list" where
  "since_start es =
     rev (List.map_filter (\<lambda>e. case e of Ran c ok \<Rightarrow> Some (c, ok) | _ \<Rightarrow> None)
           (takeWhile (\<lambda>e. e \<noteq> Started) (rev es)))"

lemma since_start_simps [simp]:
  "since_start [] = []"
  "since_start (es @ [Started]) = []"
  "since_start (es @ [Ran c ok]) = since_start es @ [(c, ok)]"
  "since_start (es @ [Finished b]) = since_start es"
  by (simp_all add: since_start_def map_filter_simps)

text \<open>
  What the log of the current execution looks like at each statement of the worker: the first
  commands, in order; all of them succeeded, except that the last one may have failed once the
  loop is left; and the loop is left early only for that reason.
\<close>

definition log_ok :: "worker_pc \<Rightarrow> parser \<Rightarrow> (command \<times> bool) list \<Rightarrow> bool" where
  "log_ok pc p log \<longleftrightarrow>
     (case pc of
        W_Loop \<Rightarrow> map fst log = take (m_current_command p) (m_commands p) \<and> (\<forall>x \<in> set log. snd x)
      | W_Run \<Rightarrow> map fst log = take (m_current_command p) (m_commands p) \<and> (\<forall>x \<in> set log. snd x) \<and>
                 m_current_command p < length (m_commands p)
      | W_Command c \<Rightarrow> map fst log @ [c] = take (m_current_command p) (m_commands p) \<and> (\<forall>x \<in> set log. snd x)
      | W_Callback \<Rightarrow> map fst log = take (m_current_command p) (m_commands p) \<and>
                 (\<forall>x \<in> set (butlast log). snd x) \<and>
                 (m_current_command p = length (m_commands p) \<or> (log \<noteq> [] \<and> \<not> snd (last log)))
      | _ \<Rightarrow> True)"

definition exec_inv :: "exec_event list \<Rightarrow> executor \<Rightarrow> bool" where
  "exec_inv es s \<longleftrightarrow>
     \<not> aborting s \<and> m_current_command (exec_parser s) \<le> length (m_commands (exec_parser s)) \<and>
     (if exec_isRunning s
      then \<exists>pc. workers s = [pc] \<and> (exec_threadRunning s \<longleftrightarrow> pc \<notin> {W_Start, W_ClearRunning}) \<and>
                log_ok pc (exec_parser s) (since_start es)
      else workers s = [] \<and> \<not> exec_threadRunning s)"

lemma exec_inv_init: "exec_inv [] executor_init"
  by (simp add: exec_inv_def executor_init_def)

lemma gui_while_running [simp]:
  "exec_isRunning s \<Longrightarrow> executor_execute s = s"
  "exec_isRunning s \<Longrightarrow> executor_parseCommands text s = (0, s)"
  by (simp_all add: executor_execute_def executor_parseCommands_def)

lemma exec_inv_gui: "exec_inv es s \<Longrightarrow> exec_step s (Some c) es' s' \<Longrightarrow> c \<noteq> Abort \<Longrightarrow> exec_inv (es @ es') s'"
proof (cases "exec_isRunning s")
  case True
  assume "exec_inv es s" "exec_step s (Some c) es' s'" "c \<noteq> Abort"
  with True show ?thesis by (auto simp: exec_inv_def elim!: exec_stepE)
next
  case False
  assume "exec_inv es s" "exec_step s (Some c) es' s'" "c \<noteq> Abort"
  with False show ?thesis
    by (auto simp: exec_inv_def executor_execute_def executor_parseCommands_def log_ok_def case_prod_unfold
          parseCommands_def Let_def elim!: exec_stepE)
qed

lemma exec_inv_worker:
  assumes inv: "exec_inv es s" and i: "i < length (workers s)" and step: "worker_step writer i s = (es', s')"
  shows "exec_inv (es @ es') s'"
proof -
  have r: "exec_isRunning s" using inv i by (cases "exec_isRunning s") (auto simp: exec_inv_def)
  then obtain pc where pc: "workers s = [pc]" "exec_threadRunning s \<longleftrightarrow> pc \<notin> {W_Start, W_ClearRunning}"
      "log_ok pc (exec_parser s) (since_start es)" and na: "\<not> aborting s"
    using inv by (auto simp: exec_inv_def)
  have i0: "i = 0" using i pc by simp
  have le: "m_current_command (exec_parser s) \<le> length (m_commands (exec_parser s))"
    using inv by (simp add: exec_inv_def)
  show ?thesis
    by (cases pc; use step pc r na i0 le in \<open>force simp: worker_step_def set_pc_def end_worker_def exec_inv_def log_ok_def
        parser_reset_def isExecution_def commandsExecuted_def commandsCount_def fetch_command_def Let_def
        take_Suc_conv_app_nth split: if_splits dest: in_set_butlastD\<close>)
qed

lemma exec_run_inv: "exec_run s cs es t \<Longrightarrow> exec_inv [] s \<Longrightarrow> Abort \<notin> set cs \<Longrightarrow> exec_inv es t"
proof (induction rule: exec_run.induct)
  case (run_gui s cs es t c es' u)
  then show ?case using exec_inv_gui by auto
next
  case (run_worker s cs es t es' u)
  then have "exec_inv es t" by simp
  then show ?case using run_worker.hyps(2) by (auto elim!: exec_stepE intro: exec_inv_worker)
qed simp

section \<open>Schedules\<close>

text \<open>A schedule names who moves next: a call of the GUI thread, or a worker by its index.\<close>

fun gui_move :: "gui_call \<Rightarrow> executor \<Rightarrow> executor option" where
  "gui_move Wake s = (if aborting s then Some (s\<lparr>aborting := False\<rparr>) else None)"
| "gui_move Execute s = (if aborting s then None else Some (executor_execute s))"
| "gui_move Abort s = (if aborting s then None else Some (executor_abort s))"
| "gui_move (Parse text) s = (if aborting s then None else Some (snd (executor_parseCommands text s)))"

fun run_schedule ::
  "(int \<Rightarrow> string \<Rightarrow> bool) \<Rightarrow> (gui_call + nat) list \<Rightarrow> executor \<Rightarrow> (gui_call list \<times> exec_event list \<times> executor) option" where
  "run_schedule writer [] s = Some ([], [], s)"
| "run_schedule writer (Inl c # ms) s =
     Option.bind (gui_move c s) (\<lambda>t.
       map_option (\<lambda>(cs, es, u). (c # cs, es, u)) (run_schedule writer ms t))"
| "run_schedule writer (Inr i # ms) s =
     (if i < length (workers s)
      then let (es', t) = worker_step writer i s
           in map_option (\<lambda>(cs, es, u). (cs, es' @ es, u)) (run_schedule writer ms t)
      else None)"

lemma gui_move_step: "gui_move c s = Some t \<Longrightarrow> exec_step s (Some c) [] t"
  by (cases c) (auto intro: exec_step.intros split: if_splits)

lemma schedule_runs: "run_schedule writer ms s = Some (cs, es, t) \<Longrightarrow> exec_run s cs es t"
proof (induction writer ms s arbitrary: cs es rule: run_schedule.induct)
  case (2 writer c ms s)
  from "2.prems" obtain u cs' where u: "gui_move c s = Some u" "run_schedule writer ms u = Some (cs', es, t)"
    and cs: "cs = c # cs'"
    by (auto simp: Option.bind_eq_Some_conv)
  have "exec_run s [c] [] u" using run_gui [OF run_nil gui_move_step [OF u(1)]] by simp
  from exec_run_trans [OF "2.IH" [OF u] this] show ?case by (simp add: cs)
next
  case (3 writer i ms s)
  obtain es1 u where w: "worker_step writer i s = (es1, u)" by fastforce
  from "3.prems" w obtain es2 where u: "i < length (workers s)" "run_schedule writer ms u = Some (cs, es2, t)"
    and es: "es = es1 @ es2"
    by (auto split: if_splits)
  have "exec_run u cs es2 t" using "3.IH" [OF u(1) w [symmetric] refl u(2)] .
  from exec_run_trans [OF this worker_runs [OF u(1) w]] show ?case by (simp add: es)
qed (auto intro: run_nil)

text \<open>What one undisturbed execution sends: the commands up to the first that fails.\<close>

fun run_until_failure :: "(int \<Rightarrow> string \<Rightarrow> bool) \<Rightarrow> command list \<Rightarrow> (command \<times> bool) list" where
  "run_until_failure writer [] = []"
| "run_until_failure writer (c # cs) =
     (if run_command writer c then (c, True) # run_until_failure writer cs else [(c, False)])"

lemma run_until_failure_length: "length (run_until_failure writer cs) \<le> length cs"
  by (induction cs) auto

lemma loop_completes:
  "\<lbrakk>workers s = [W_Loop]; exec_isRunning s; m_current_command (exec_parser s) \<le> length (m_commands (exec_parser s));
    log = run_until_failure writer (drop (m_current_command (exec_parser s)) (m_commands (exec_parser s)))\<rbrakk> \<Longrightarrow>
   \<exists>p. m_commands p = m_commands (exec_parser s) \<and>
     m_current_command p = m_current_command (exec_parser s) + length log \<and>
     exec_run s [] (map (\<lambda>(c, ok). Ran c ok) log) (s\<lparr>workers := [W_Callback], exec_parser := p\<rparr>)"
proof (induction "length (m_commands (exec_parser s)) - m_current_command (exec_parser s)" arbitrary: s log)
  case 0
  then have "run_schedule writer [Inr 0] s = Some ([], [], s\<lparr>workers := [W_Callback], exec_parser := exec_parser s\<rparr>)"
    by (simp add: worker_step_def commandsExecuted_def commandsCount_def set_pc_def)
  from schedule_runs [OF this] show ?case using 0 by (intro exI [of _ "exec_parser s"]) simp
next
  case (Suc n)
  let ?k = "m_current_command (exec_parser s)" and ?cs = "m_commands (exec_parser s)"
  have lt: "?k < length ?cs" using Suc.hyps(2) by simp
  note dr = Cons_nth_drop_Suc [OF lt, symmetric]
  let ?p = "(exec_parser s)\<lparr>m_current_command := Suc ?k\<rparr>"
  let ?ok = "run_command writer (?cs ! ?k)"
  have two: "run_schedule writer [Inr 0, Inr 0, Inr 0] s =
      Some ([], [Ran (?cs ! ?k) ?ok], s\<lparr>workers := [if ?ok then W_Loop else W_Callback], exec_parser := ?p\<rparr>)"
    using Suc.prems lt
    by (simp add: worker_step_def commandsExecuted_def commandsCount_def set_pc_def isExecution_def fetch_command_def Let_def)
  note run2 = schedule_runs [OF two]
  show ?case
  proof (cases ?ok)
    case False
    then show ?thesis
      using run2 dr Suc.prems by (intro exI [of _ ?p]) simp
  next
    case True
    let ?s = "s\<lparr>workers := [W_Loop], exec_parser := ?p\<rparr>"
    let ?log = "run_until_failure writer (drop (Suc ?k) ?cs)"
    have n: "n = length ?cs - Suc ?k" using Suc.hyps(2) by simp
    have "\<exists>p. m_commands p = ?cs \<and> m_current_command p = Suc ?k + length ?log \<and>
      exec_run ?s [] (map (\<lambda>(c, ok). Ran c ok) ?log) (?s\<lparr>workers := [W_Callback], exec_parser := p\<rparr>)"
      using Suc.hyps(1) [of ?s ?log] n Suc.prems lt by simp
    then obtain p where p: "m_commands p = ?cs" "m_current_command p = Suc ?k + length ?log"
      "exec_run ?s [] (map (\<lambda>(c, ok). Ran c ok) ?log) (?s\<lparr>workers := [W_Callback], exec_parser := p\<rparr>)"
      by blast
    have "exec_run s [] (Ran (?cs ! ?k) True # map (\<lambda>(c, ok). Ran c ok) ?log) (s\<lparr>workers := [W_Callback], exec_parser := p\<rparr>)"
      using exec_run_trans [OF p(3), of s "[]" "[Ran (?cs ! ?k) True]"] run2 True by simp
    then show ?thesis
      using p(1,2) True dr Suc.prems by (intro exI [of _ p]) simp
  qed
qed

text \<open>Button texts of one plain line, and the steps that run them.\<close>

lemma parse_one:
  "parseCommands ''ls'' p = (1, p\<lparr>m_commands := [Write (- 1) ''ls''], m_current_command := 0\<rparr>)"
  "parseCommands ''rm'' p = (1, p\<lparr>m_commands := [Write (- 1) ''rm''], m_current_command := 0\<rparr>)"
proof -
  have "splitTextToStrings ''ls'' = [''ls'']" "splitTextToStrings ''rm'' = [''rm'']" by code_simp+
  then show "parseCommands ''ls'' p = (1, p\<lparr>m_commands := [Write (- 1) ''ls''], m_current_command := 0\<rparr>)"
    "parseCommands ''rm'' p = (1, p\<lparr>m_commands := [Write (- 1) ''rm''], m_current_command := 0\<rparr>)"
    by (simp_all add: parseCommands_def process_plain isSpecialCommand_def isPortSpecified_def starts_with_def
        DEFAULT_PORT_ID_def)
qed

lemmas one_command_simps = worker_step_def set_pc_def end_worker_def fetch_command_def run_command_def isExecution_def
  commandsExecuted_def commandsCount_def parser_reset_def

section \<open>Properties\<close>



text \<open>
  When a worker of a run without abort calls the callback, it has run the first commands
  of the button in order, all of them successful except perhaps the last one run; the callback
  gets true exactly if every command was run, and if not, the last one run has failed.
\<close>

theorem callback_reports_commands_run:
  "\<lbrakk>exec_run executor_init cs es t; Abort \<notin> set cs; exec_step t None es' u; Finished b \<in> set es'\<rbrakk> \<Longrightarrow>
   map fst (since_start es) = take (length (since_start es)) (m_commands (exec_parser t)) \<and>
   (\<forall>x \<in> set (butlast (since_start es)). snd x) \<and>
   (b \<longleftrightarrow> length (since_start es) = length (m_commands (exec_parser t))) \<and>
   (\<not> b \<longrightarrow> since_start es \<noteq> [] \<and> \<not> snd (last (since_start es)))"
proof -
  assume a: "exec_run executor_init cs es t" "Abort \<notin> set cs" "exec_step t None es' u" "Finished b \<in> set es'"
  have inv: "exec_inv es t" using exec_run_inv [OF a(1) exec_inv_init a(2)] .
  from a(3) obtain i writer where i: "i < length (workers t)" "worker_step writer i t = (es', u)"
    by (auto elim: exec_stepE)
  then obtain pc where pc: "workers t = [pc]" "log_ok pc (exec_parser t) (since_start es)" "i = 0"
    using inv by (cases "exec_isRunning t") (auto simp: exec_inv_def)
  have le: "m_current_command (exec_parser t) \<le> length (m_commands (exec_parser t))"
    using inv by (simp add: exec_inv_def)
  have cb: "pc = W_Callback" "b \<longleftrightarrow> commandsExecuted (exec_parser t) = commandsCount (exec_parser t)"
    using pc i a(4) by (auto simp: worker_step_def Let_def case_prod_unfold split: worker_pc.splits if_splits option.splits)
  have "length (since_start es) = m_current_command (exec_parser t)"
    using pc(2) cb(1) le length_map [of fst "since_start es"] by (simp add: log_ok_def del: length_map)
  then show ?thesis
    using pc(2) cb by (auto simp: log_ok_def commandsExecuted_def commandsCount_def)
qed

theorem callback_reports_commands_run_witness:
  "since_start [Started, Ran (Write (- 1) ''ls'') False] = [(Write (- 1) ''ls'', False)] \<and>
   length (since_start [Started, Ran (Write (- 1) ''ls'') False]) = length [Write (- 1) ''ls'']"
proof -
  let ?t = "\<lparr>exec_parser = \<lparr>m_commands = [Write (- 1) ''ls''], m_current_command = 1\<rparr>, m_raw_text = ''ls'',
     exec_isRunning = True, exec_threadRunning = True, workers = [W_Callback], aborting = False\<rparr>"
  have r: "run_schedule (\<lambda>_ _. False) [Inl (Parse ''ls''), Inl Execute, Inr 0, Inr 0, Inr 0, Inr 0, Inr 0] executor_init =
      Some ([Parse ''ls'', Execute], [Started, Ran (Write (- 1) ''ls'') False], ?t)"
    by (simp add: executor_init_def executor_parseCommands_def parse_one executor_execute_def one_command_simps)
  have "exec_step ?t None [Finished True] (set_pc 0 W_ClearThread ?t)"
    by (rule step_worker [of 0 _ "\<lambda>_ _. False"]) (simp_all add: worker_step_def commandsExecuted_def commandsCount_def)
  from callback_reports_commands_run [OF schedule_runs [OF r] _ this, of True] show ?thesis
    by (simp add: since_start_def map_filter_simps)
qed

text \<open>
  C25. An execution nobody disturbs ends: started on an idle executor, the worker runs the
  commands up to the first that fails, reports once, and leaves the executor idle. It reports
  success also when the one that failed was the last command.
\<close>

theorem execution_completes:
  "\<lbrakk>workers s = []; \<not> exec_isRunning s; \<not> aborting s\<rbrakk> \<Longrightarrow>
   \<exists>t. exec_run s [Execute]
         (Started # map (\<lambda>(c, ok). Ran c ok) (run_until_failure writer (m_commands (exec_parser s))) @
          [Finished (length (run_until_failure writer (m_commands (exec_parser s))) = length (m_commands (exec_parser s)))]) t \<and>
       workers t = [] \<and> \<not> isExecution t \<and> m_commands (exec_parser t) = m_commands (exec_parser s)"
proof -
  assume a: "workers s = []" "\<not> exec_isRunning s" "\<not> aborting s"
  let ?cs = "m_commands (exec_parser s)"
  let ?log = "run_until_failure writer ?cs"
  let ?s = "s\<lparr>workers := [W_Loop], exec_isRunning := True, exec_threadRunning := True, exec_parser := parser_reset (exec_parser s)\<rparr>"
  have "run_schedule writer [Inl Execute, Inr 0, Inr 0] s = Some ([Execute], [Started], ?s)"
    using a by (simp add: executor_execute_def worker_step_def set_pc_def)
  note r1 = schedule_runs [OF this]
  obtain p where p: "m_commands p = ?cs" "m_current_command p = length ?log"
    "exec_run ?s [] (map (\<lambda>(c, ok). Ran c ok) ?log) (?s\<lparr>workers := [W_Callback], exec_parser := p\<rparr>)"
    using loop_completes [of ?s ?log writer] by (auto simp: parser_reset_def)
  let ?u = "?s\<lparr>workers := [W_Callback], exec_parser := p\<rparr>"
  have "run_schedule writer [Inr 0, Inr 0, Inr 0] ?u =
     Some ([], [Finished (length ?log = length ?cs)], ?u\<lparr>workers := [], exec_threadRunning := False, exec_isRunning := False\<rparr>)"
    using p(1,2) by (simp add: worker_step_def set_pc_def end_worker_def commandsExecuted_def commandsCount_def)
  note r3 = schedule_runs [OF this]
  show ?thesis
    using exec_run_trans [OF r3 exec_run_trans [OF p(3) r1]] p(1)
    by (intro exI [of _ "?u\<lparr>workers := [], exec_threadRunning := False, exec_isRunning := False\<rparr>"])
      (simp add: isExecution_def)
qed

theorem execution_completes_witness:
  "\<exists>t. exec_run (executor_init\<lparr>exec_parser := \<lparr>m_commands = [Write 1 ''ls'', Wait 5, Write 2 ''up''], m_current_command = 0\<rparr>\<rparr>)
         [Execute] [Started, Ran (Write 1 ''ls'') True, Ran (Wait 5) True, Ran (Write 2 ''up'') False, Finished True] t \<and>
       workers t = []"
  using execution_completes [of "executor_init\<lparr>exec_parser :=
       \<lparr>m_commands = [Write 1 ''ls'', Wait 5, Write 2 ''up''], m_current_command = 0\<rparr>\<rparr>" "\<lambda>port text. port = 1"]
  by (auto simp: executor_init_def run_command_def)

text \<open>
  The wait of \<open>abort\<close> is bounded and looks only at \<open>m_threadRunning\<close>, so an aborted
  worker can still be alive when the GUI thread goes on. A worker whose command outlasts the
  wait joins the next execution, and a command the user started once is sent twice; a worker
  that is about to end clears \<open>m_isRunning\<close> under the next execution, which then sends
  nothing and reports a failure.
\<close>

theorem abort_races:
  "(\<exists>t. exec_run executor_init [Parse ''ls'', Execute, Abort, Wake, Parse ''rm'', Execute]
          [Started, Ran (Write (- 1) ''ls'') True, Ran (Write (- 1) ''rm'') True, Started, Ran (Write (- 1) ''rm'') True] t) \<and>
   (\<exists>t. exec_run executor_init [Parse ''ls'', Execute, Abort, Wake, Execute]
          [Started, Ran (Write (- 1) ''ls'') True, Finished True, Started, Finished False] t \<and>
        commandsCount (exec_parser t) = 1)"
proof
  have "\<exists>t. run_schedule (\<lambda>_ _. True) [Inl (Parse ''ls''), Inl Execute, Inr 0, Inr 0, Inr 0, Inr 0, Inl Abort, Inl Wake,
          Inl (Parse ''rm''), Inl Execute, Inr 0, Inr 0, Inr 0, Inr 0, Inr 1, Inr 1, Inr 1, Inr 1, Inr 1] executor_init =
      Some ([Parse ''ls'', Execute, Abort, Wake, Parse ''rm'', Execute],
        [Started, Ran (Write (- 1) ''ls'') True, Ran (Write (- 1) ''rm'') True, Started, Ran (Write (- 1) ''rm'') True], t)"
    by (simp add: executor_init_def executor_parseCommands_def parse_one executor_execute_def executor_abort_def
        one_command_simps)
  then show "\<exists>t. exec_run executor_init [Parse ''ls'', Execute, Abort, Wake, Parse ''rm'', Execute]
      [Started, Ran (Write (- 1) ''ls'') True, Ran (Write (- 1) ''rm'') True, Started, Ran (Write (- 1) ''rm'') True] t"
    using schedule_runs by blast
  have "\<exists>t. run_schedule (\<lambda>_ _. True) [Inl (Parse ''ls''), Inl Execute, Inr 0, Inr 0, Inr 0, Inr 0, Inr 0, Inl Abort,
          Inr 0, Inr 0, Inr 0, Inl Wake, Inl Execute, Inr 0, Inr 0, Inr 0, Inr 0, Inr 0] executor_init =
      Some ([Parse ''ls'', Execute, Abort, Wake, Execute],
        [Started, Ran (Write (- 1) ''ls'') True, Finished True, Started, Finished False], t) \<and>
      commandsCount (exec_parser t) = 1"
    by (simp add: executor_init_def executor_parseCommands_def parse_one executor_execute_def executor_abort_def
        one_command_simps)
  then show "\<exists>t. exec_run executor_init [Parse ''ls'', Execute, Abort, Wake, Execute]
      [Started, Ran (Write (- 1) ''ls'') True, Finished True, Started, Finished False] t \<and>
      commandsCount (exec_parser t) = 1"
    using schedule_runs by blast
qed

end
