(* ===== verification/Persistence.thy ===== *)
theory Persistence
  imports CppText "HOL-Library.Char_ord" "HOL-Library.List_Lexorder"
begin

text \<open>
  \<open>sw/Utilities/public/GenericListener.hpp\<close>, \<open>sw/Utilities/public/Persistence.h\<close> and
  \<open>sw/Utilities/source/Persistence.cpp\<close>: listener lists, the key/value items of a module,
  and the JSON document they are saved to and restored from. A JSON object is a list of
  pairs sorted by key, as \<open>nlohmann::json\<close> keeps it (an ordered map). The text format of
  the document is the library's: \<open>dump\<close> and \<open>parse\<close> are parameters.
\<close>

section \<open>GenericListener\<close>

definition addListener :: "'l \<Rightarrow> 'l list \<Rightarrow> 'l list" where
  "addListener l ls = ls @ [l]"

definition removeListener :: "'l \<Rightarrow> 'l list \<Rightarrow> 'l list" where
  "removeListener l ls = erase_first (\<lambda>x. x = l) ls"

definition removeAllListeners :: "'l list \<Rightarrow> 'l list" where
  "removeAllListeners ls = []"

text \<open>\<open>notifyChange\<close> runs a function on every listener in order; an exception ends the round.\<close>

fun notifyChange :: "('l \<Rightarrow> 's \<Rightarrow> 's res) \<Rightarrow> 'l list \<Rightarrow> 's \<Rightarrow> 's res" where
  "notifyChange f [] s = Inr s"
| "notifyChange f (l # ls) s = bindE (f l s) (notifyChange f ls)"

lemma notifyChange_append:
  "notifyChange f (xs @ ys) s = bindE (notifyChange f xs s) (notifyChange f ys)"
  by (induction xs arbitrary: s) (auto simp: bindE_def split: sum.splits)

lemma removeListener_addListener [simp]: "l \<notin> set ls \<Longrightarrow> removeListener l (addListener l ls) = ls"
  using erase_first_append [of ls "\<lambda>x. x = l" l "[]"] by (auto simp: removeListener_def addListener_def)

section \<open>Items\<close>

type_synonym item = "string \<times> string"
type_synonym items = "item list"

text \<open>\<open>writeItem\<close>: numbers are written with \<open>std::to_string\<close>, strings as they are.\<close>

definition writeItem_num :: "items \<Rightarrow> string \<Rightarrow> nat \<Rightarrow> items" where
  "writeItem_num items key value = items @ [(key, to_string value)]"

definition writeItem_str :: "items \<Rightarrow> string \<Rightarrow> string \<Rightarrow> items" where
  "writeItem_str items key value = items @ [(key, value)]"

definition num_of_bool :: "bool \<Rightarrow> nat" where
  "num_of_bool b = (if b then 1 else 0)"

text \<open>
  \<open>readItem\<close>: the first item with the key decides; the result says whether there was one,
  and the second component is the value left in the output argument. The numeric version
  throws where \<open>std::stoll\<close> throws; the cast to the argument's type is a parameter.
\<close>

fun readItem_str :: "items \<Rightarrow> string \<Rightarrow> string \<Rightarrow> bool \<times> string" where
  "readItem_str [] key result = (False, result)"
| "readItem_str ((k, v) # items) key result =
     (if k = key then (True, v) else readItem_str items key result)"

fun readItem_num :: "(int \<Rightarrow> 'a) \<Rightarrow> items \<Rightarrow> string \<Rightarrow> 'a \<Rightarrow> (bool \<times> 'a) res" where
  "readItem_num cast [] key result = Inr (False, result)"
| "readItem_num cast ((k, v) # items) key result =
     (if k = key then mapE (\<lambda>i. (True, cast i)) (stoll v) else readItem_num cast items key result)"

definition cast_bool :: "int \<Rightarrow> bool" where
  "cast_bool i \<longleftrightarrow> i \<noteq> 0"

lemma readItem_str_map_of:
  "readItem_str items key d = (case map_of items key of None \<Rightarrow> (False, d) | Some v \<Rightarrow> (True, v))"
  by (induction items) auto

lemma readItem_num_map_of:
  "readItem_num cast items key d =
     (case map_of items key of None \<Rightarrow> Inr (False, d) | Some v \<Rightarrow> mapE (\<lambda>i. (True, cast i)) (stoll v))"
  by (induction items) auto

lemmas readItem_map_of = readItem_str_map_of readItem_num_map_of

lemma stoll_bool [simp]: "mapE (\<lambda>i. (True, cast_bool i)) (stoll (to_string (num_of_bool b))) = Inr (True, b)"
  by (simp add: stoll_to_string num_of_bool_def cast_bool_def)

section \<open>JSON documents\<close>

datatype json =
    JNull
  | JString string
  | JArray "json list"
  | JObject "(string \<times> json) list"
  | JOther

fun obj_set :: "'k::linorder \<Rightarrow> 'v \<Rightarrow> ('k \<times> 'v) list \<Rightarrow> ('k \<times> 'v) list" where
  "obj_set k v [] = [(k, v)]"
| "obj_set k v ((k', v') # kvs) =
     (if k < k' then (k, v) # (k', v') # kvs
      else if k = k' then (k, v) # kvs
      else (k', v') # obj_set k v kvs)"

lemma map_of_obj_set: "map_of (obj_set k v kvs) = (map_of kvs)(k \<mapsto> v)"
  by (induction kvs) auto

lemma obj_set_not_Nil [simp]: "obj_set k v kvs \<noteq> []"
  by (cases kvs) (auto split: if_splits)

text \<open>
  \<open>json[name]\<close>: null becomes an object, a missing member becomes null, any other kind of
  value throws. The result is the member and the document after the access.
\<close>

fun json_member :: "string \<Rightarrow> json \<Rightarrow> (json \<times> json) res" where
  "json_member name JNull = Inr (JNull, JObject [(name, JNull)])"
| "json_member name (JObject kvs) =
     (case map_of kvs name of
        None \<Rightarrow> Inr (JNull, JObject (obj_set name JNull kvs))
      | Some j \<Rightarrow> Inr (j, JObject kvs))"
| "json_member name _ = Inl JsonError"

text \<open>\<open>moduleJson[item.key] = item.value\<close>.\<close>

fun json_put :: "string \<Rightarrow> json \<Rightarrow> json \<Rightarrow> json res" where
  "json_put key v JNull = Inr (JObject [(key, v)])"
| "json_put key v (JObject kvs) = Inr (JObject (obj_set key v kvs))"
| "json_put key v _ = Inl JsonError"

text \<open>\<open>moduleSettings.items()\<close> with the conversion of each value to \<open>std::string\<close>.\<close>

definition json_string :: "json \<Rightarrow> string res" where
  "json_string j = (case j of JString s \<Rightarrow> Inr s | _ \<Rightarrow> Inl JsonError)"

fun json_items :: "json \<Rightarrow> (string \<times> json) list" where
  "json_items JNull = []"
| "json_items (JObject kvs) = kvs"
| "json_items (JArray js) = zip (map to_string [0..<length js]) js"
| "json_items j = [([], j)]"

fun collect_items :: "(string \<times> json) list \<Rightarrow> items res" where
  "collect_items [] = Inr []"
| "collect_items ((k, j) # kjs) =
     bindE (json_string j) (\<lambda>v. mapE (\<lambda>items. (k, v) # items) (collect_items kjs))"

section \<open>Persistence\<close>

text \<open>
  A persistence listener over the state \<open>'s\<close> of the whole program: its name, the items
  it writes and what it does with the items it reads.
\<close>

record 's persistence_listener =
  getName :: string
  onPersistenceWrite :: "'s \<Rightarrow> items res"
  onPersistenceRead :: "items \<Rightarrow> 's \<Rightarrow> 's res"

fun put_items :: "items \<Rightarrow> json \<Rightarrow> json res" where
  "put_items [] j = Inr j"
| "put_items ((k, v) # items) j = bindE (json_put k (JString v) j) (put_items items)"

text \<open>The body of the lambda in \<open>Persistence::save\<close>: one listener's items into the document.\<close>

definition save_module :: "'s \<Rightarrow> 's persistence_listener \<Rightarrow> json \<Rightarrow> json res" where
  "save_module s l doc =
     bindE (onPersistenceWrite l s) (\<lambda>items.
     bindE (json_member (getName l) doc) (\<lambda>(m, doc').
     bindE (put_items items m) (\<lambda>m'.
       json_put (getName l) m' doc')))"

definition collect_settings :: "'s persistence_listener list \<Rightarrow> 's \<Rightarrow> json res" where
  "collect_settings ls s = notifyChange (save_module s) ls JNull"

text \<open>
  The file system is a map from paths to texts; \<open>writable\<close> says whether the output file can
  be opened. Opening the file empties it before the settings are collected, so an exception
  in between leaves it empty.
\<close>

definition persistence_save ::
  "(json \<Rightarrow> string) \<Rightarrow> bool \<Rightarrow> string \<Rightarrow> 's persistence_listener list \<Rightarrow> 's \<Rightarrow>
   (string \<rightharpoonup> string) \<Rightarrow> bool res \<times> (string \<rightharpoonup> string)" where
  "persistence_save dump writable path ls s files =
     (if writable
      then (case collect_settings ls s of
              Inl e \<Rightarrow> (Inl e, files(path \<mapsto> []))
            | Inr doc \<Rightarrow> (Inr True, files(path \<mapsto> dump doc)))
      else (Inr False, files))"

definition persistence_loadFile ::
  "(string \<Rightarrow> json res) \<Rightarrow> string \<Rightarrow> (string \<rightharpoonup> string) \<Rightarrow> json \<Rightarrow> (bool \<times> json) res" where
  "persistence_loadFile parse path files g_jsonFile =
     (case files path of
        None \<Rightarrow> Inr (False, g_jsonFile)
      | Some text \<Rightarrow> mapE (\<lambda>j. (True, j)) (parse text))"

definition restoreModule :: "'s persistence_listener \<Rightarrow> json \<times> 's \<Rightarrow> (json \<times> 's) res" where
  "restoreModule l = (\<lambda>(g_jsonFile, s).
     bindE (json_member (getName l) g_jsonFile) (\<lambda>(moduleSettings, g_jsonFile').
     bindE (collect_items (json_items moduleSettings)) (\<lambda>items.
       if items \<noteq> []
       then mapE (\<lambda>s'. (g_jsonFile', s')) (onPersistenceRead l items s)
       else Inr (g_jsonFile', s))))"

definition persistence_restore :: "'s persistence_listener list \<Rightarrow> json \<times> 's \<Rightarrow> (json \<times> 's) res" where
  "persistence_restore ls js = notifyChange restoreModule ls js"

definition clearFile :: "json \<Rightarrow> json" where
  "clearFile g_jsonFile = JNull"

section \<open>What a saved document holds\<close>

text \<open>The items of a module as the document stores them: sorted by key, the last value of a key.\<close>

definition stored :: "items \<Rightarrow> items" where
  "stored items = foldl (\<lambda>kvs (k, v). obj_set k v kvs) [] items"

lemma stored_snoc: "stored (items @ [(k, v)]) = obj_set k v (stored items)"
  by (simp add: stored_def)

lemma stored_Nil [simp]: "stored [] = []"
  by (simp add: stored_def)

lemma map_of_stored_rev: "map_of (stored items) = map_of (rev items)"
  by (induction items rule: rev_induct) (auto simp: stored_snoc map_of_obj_set)

lemma map_of_stored: "distinct (map fst items) \<Longrightarrow> map_of (stored items) = map_of items"
  by (simp add: map_of_stored_rev map_of_rev_distinct)

lemma sorted_obj_set: "sorted_wrt (<) (map fst kvs) \<Longrightarrow> sorted_wrt (<) (map fst (obj_set k v kvs))"
proof (induction kvs)
  case (Cons x kvs)
  have "fst ` set (obj_set k v kvs) = insert k (fst ` set kvs)"
    using map_of_obj_set [of k v kvs] by (metis dom_fun_upd dom_map_of_conv_image_fst option.distinct(1))
  then show ?case using Cons by (cases x) auto
qed simp

lemma stored_distinct: "distinct (map fst (stored items))"
proof -
  have "sorted_wrt (<) (map fst (stored items))"
    by (induction items rule: rev_induct) (auto simp: stored_snoc intro: sorted_obj_set)
  then show ?thesis by (simp add: strict_sorted_iff)
qed

lemma stored_Nil_iff [simp]: "stored items = [] \<longleftrightarrow> items = []"
  by (cases items rule: rev_cases) (auto simp: stored_snoc)

definition strings :: "items \<Rightarrow> (string \<times> json) list" where
  "strings items = map (\<lambda>(k, v). (k, JString v)) items"

lemma strings_single [simp]: "strings [(k, v)] = [(k, JString v)]"
  by (simp add: strings_def)

lemma strings_obj_set: "strings (obj_set k v kvs) = obj_set k (JString v) (strings kvs)"
  by (induction kvs) (auto simp: strings_def)

lemma collect_items_strings [simp]: "collect_items (strings kvs) = Inr kvs"
  by (induction kvs) (auto simp: strings_def json_string_def)

lemma put_items_append: "put_items (xs @ ys) j = bindE (put_items xs j) (put_items ys)"
  by (induction xs arbitrary: j) (auto simp: bindE_def split: sum.splits)

definition module_json :: "items \<Rightarrow> json" where
  "module_json items = (if items = [] then JNull else JObject (strings (stored items)))"

lemma put_items_stored: "put_items items JNull = Inr (module_json items)"
proof (induction items rule: rev_induct)
  case (snoc x xs)
  obtain k v where x: "x = (k, v)" by fastforce
  have "json_put k (JString v) (module_json xs) = Inr (module_json (xs @ [(k, v)]))"
    using stored_snoc [of "[]" k v]
    by (cases "xs = []") (simp_all add: module_json_def stored_snoc strings_obj_set x)
  with snoc show ?case by (simp add: put_items_append x)
qed (simp add: module_json_def)

lemma items_module_json [simp]: "collect_items (json_items (module_json items)) = Inr (stored items)"
  by (simp add: module_json_def)

text \<open>The document after collecting the settings of modules with different names.\<close>

definition written :: "'s persistence_listener \<Rightarrow> 's \<Rightarrow> items" where
  "written l s = (case onPersistenceWrite l s of Inl e \<Rightarrow> [] | Inr items \<Rightarrow> items)"

definition writes_ok :: "'s persistence_listener \<Rightarrow> 's \<Rightarrow> bool" where
  "writes_ok l s \<longleftrightarrow> onPersistenceWrite l s = Inr (written l s)"

lemma writes_okI:
  "onPersistenceWrite l s = Inr items \<Longrightarrow> writes_ok l s" "onPersistenceWrite l s = Inr items \<Longrightarrow> written l s = items"
  by (simp_all add: writes_ok_def written_def)

definition doc_of :: "'s persistence_listener list \<Rightarrow> 's \<Rightarrow> string \<rightharpoonup> json" where
  "doc_of ls s = map_of (map (\<lambda>l. (getName l, module_json (written l s))) ls)"

definition represents :: "json \<Rightarrow> (string \<rightharpoonup> json) \<Rightarrow> bool" where
  "represents j m \<longleftrightarrow> (j = JNull \<and> m = Map.empty) \<or> (\<exists>kvs. j = JObject kvs \<and> map_of kvs = m)"

lemma save_module_represents:
  assumes "represents doc m" "m (getName l) = None" "writes_ok l s"
  shows "\<exists>doc'. save_module s l doc = Inr doc' \<and>
                represents doc' (m(getName l \<mapsto> module_json (written l s)))"
  using assms
  by (auto simp: represents_def save_module_def writes_ok_def put_items_stored map_of_obj_set)

lemma collect_represents:
  assumes "distinct (map getName ls)" "represents doc m" "\<forall>l \<in> set ls. m (getName l) = None"
    "\<forall>l \<in> set ls. writes_ok l s"
  shows "\<exists>doc'. notifyChange (save_module s) ls doc = Inr doc' \<and> represents doc' (m ++ doc_of ls s)"
  using assms
proof (induction ls arbitrary: doc m)
  case Nil
  then show ?case by (simp add: doc_of_def)
next
  case (Cons l ls)
  let ?m = "m(getName l \<mapsto> module_json (written l s))"
  obtain d where d: "save_module s l doc = Inr d" "represents d ?m"
    using save_module_represents [of doc m l s] Cons.prems by auto
  have "\<forall>k \<in> set ls. getName k \<noteq> getName l"
    using Cons.prems(1) by (metis distinct.simps(2) image_eqI list.set_map list.simps(9))
  then have fresh: "\<forall>k \<in> set ls. ?m (getName k) = None"
    using Cons.prems(3) by simp
  have ok: "\<forall>l \<in> set ls. writes_ok l s" using Cons.prems(4) by simp
  obtain d' where d': "notifyChange (save_module s) ls d = Inr d'" "represents d' (?m ++ doc_of ls s)"
    using Cons.IH [OF _ d(2) fresh ok] Cons.prems(1) by (simp only: list.map distinct.simps) blast
  have "doc_of ls s (getName l) = None"
    using Cons.prems(1) by (auto simp: doc_of_def map_of_eq_None_iff)
  then have "?m ++ doc_of ls s = m ++ doc_of (l # ls) s"
    by (auto simp: doc_of_def map_add_def fun_eq_iff split: option.splits)
  with d d' show ?case by auto
qed

lemma collect_settings_doc:
  "distinct (map getName ls) \<Longrightarrow> \<forall>l \<in> set ls. writes_ok l s \<Longrightarrow> \<exists>doc. collect_settings ls s = Inr doc \<and> represents doc (doc_of ls s)"
  using collect_represents [of ls JNull Map.empty s]
  by (auto simp: collect_settings_def represents_def)

lemma doc_of_in:
  "distinct (map getName ls) \<Longrightarrow> l \<in> set ls \<Longrightarrow> doc_of ls s (getName l) = Some (module_json (written l s))"
  unfolding doc_of_def by (rule map_of_is_SomeI) (simp_all add: comp_def)

text \<open>Restoring one module from a document that holds it hands the module its stored items.\<close>

lemma restoreModule_saved:
  assumes "represents doc m" "m (getName l) = Some (module_json items)" "items \<noteq> []"
  shows "restoreModule l (doc, t) = mapE (\<lambda>t'. (doc, t')) (onPersistenceRead l (stored items) t)"
proof -
  obtain kvs where "doc = JObject kvs" "map_of kvs = m"
    using assms(1,2) by (auto simp: represents_def)
  then show ?thesis using assms by (simp add: restoreModule_def)
qed

section \<open>The contract of a persistent module\<close>

definition module_listener ::
  "string \<Rightarrow> ('s \<Rightarrow> items res) \<Rightarrow> (items \<Rightarrow> 's \<Rightarrow> 's res) \<Rightarrow> 's persistence_listener" where
  "module_listener name w r = \<lparr>getName = name, onPersistenceWrite = w, onPersistenceRead = r\<rparr>"

text \<open>
  Many modules at once: the program's state is the list of the modules' states, each with its
  listener.
\<close>

definition indexed_listener ::
  "('s \<Rightarrow> items res) \<Rightarrow> (items \<Rightarrow> 's \<Rightarrow> 's res) \<Rightarrow> string list \<Rightarrow> nat \<Rightarrow> 's list persistence_listener" where
  "indexed_listener w r names k =
     \<lparr>getName = names ! k, onPersistenceWrite = (\<lambda>xs. w (xs ! k)),
       onPersistenceRead = (\<lambda>items xs. mapE (\<lambda>s. xs[k := s]) (r items (xs ! k)))\<rparr>"

definition family ::
  "('s \<Rightarrow> items res) \<Rightarrow> (items \<Rightarrow> 's \<Rightarrow> 's res) \<Rightarrow> string list \<Rightarrow> 's list persistence_listener list" where
  "family w r names = map (indexed_listener w r names) [0..<length names]"

lemma family_names: "map getName (family w r names) = names"
  by (simp add: family_def indexed_listener_def comp_def map_nth)

text \<open>
  What the modules of the program promise the persistence layer: the keys they write are
  different, and reading what was written, in whatever order, brings back the persistent part
  of the state.
\<close>

locale persistent_module =
  fixes pwrite :: "'s \<Rightarrow> items res"
    and pread :: "items \<Rightarrow> 's \<Rightarrow> 's res"
    and saved :: "'s \<Rightarrow> 'v"
    and savable :: "'s \<Rightarrow> bool"
    and compatible :: "'s \<Rightarrow> 's \<Rightarrow> bool"
  assumes writes: "savable s \<Longrightarrow> \<exists>items. pwrite s = Inr items \<and> items \<noteq> [] \<and> distinct (map fst items)"
    and read_back: "savable s \<Longrightarrow> compatible s t \<Longrightarrow> pwrite s = Inr items \<Longrightarrow> map_of items' = map_of items \<Longrightarrow>
      distinct (map fst items') \<Longrightarrow> \<exists>t'. pread items' t = Inr t' \<and> saved t' = saved s"
begin

lemma listener_writes: "savable s \<Longrightarrow> writes_ok (module_listener name pwrite pread) s"
proof -
  assume "savable s"
  then obtain items where "pwrite s = Inr items" using writes by blast
  then have "onPersistenceWrite (module_listener name pwrite pread) s = Inr items" by (simp add: module_listener_def)
  then show ?thesis by (rule writes_okI)
qed

lemma restore_one:
  assumes "savable s" "compatible s t" "represents doc m"
    "m name = Some (module_json (written (module_listener name pwrite pread) s))"
  shows "\<exists>t'. restoreModule (module_listener name pwrite pread) (doc, t) = Inr (doc, t') \<and> saved t' = saved s"
proof -
  obtain items where items: "pwrite s = Inr items" "items \<noteq> []" "distinct (map fst items)"
    using writes [OF assms(1)] by blast
  then have w: "written (module_listener name pwrite pread) s = items" by (intro writes_okI(2)) (simp add: module_listener_def)
  obtain t' where "pread (stored items) t = Inr t'" "saved t' = saved s"
    using read_back [OF assms(1,2) items(1) map_of_stored [OF items(3)] stored_distinct] by blast
  then show ?thesis
    using restoreModule_saved [of doc m "module_listener name pwrite pread" items t] assms(3,4) items(2) w
    by (simp add: module_listener_def)
qed

text \<open>The whole way: save to a file, load the file, restore the module.\<close>

lemma save_load_restore:
  assumes "savable s" "compatible s t"
    "\<And>doc. collect_settings [module_listener name pwrite pread] s = Inr doc \<Longrightarrow> parse (dump doc) = Inr doc"
  shows "\<exists>files' doc t'.
     persistence_save dump True path [module_listener name pwrite pread] s files = (Inr True, files') \<and>
     persistence_loadFile parse path files' JNull = Inr (True, doc) \<and>
     persistence_restore [module_listener name pwrite pread] (doc, t) = Inr (doc, t') \<and> saved t' = saved s"
proof -
  obtain doc where doc: "collect_settings [module_listener name pwrite pread] s = Inr doc"
    "represents doc (doc_of [module_listener name pwrite pread] s)"
    using collect_settings_doc [of "[module_listener name pwrite pread]" s] listener_writes [OF assms(1)] by auto
  have "doc_of [module_listener name pwrite pread] s name = Some (module_json (written (module_listener name pwrite pread) s))"
    by (simp add: doc_of_def module_listener_def)
  then obtain t' where "restoreModule (module_listener name pwrite pread) (doc, t) = Inr (doc, t')" "saved t' = saved s"
    using restore_one [OF assms(1,2) doc(2)] by blast
  with doc show ?thesis
    by (simp add: persistence_save_def persistence_loadFile_def persistence_restore_def assms(3))
qed

text \<open>The same for a family of modules: restoring goes through them in order, and each gets its own items.\<close>

lemma family_writes:
  "list_all savable xs \<Longrightarrow> k < length xs \<Longrightarrow>
   writes_ok (indexed_listener pwrite pread names k) xs \<and>
   (\<exists>items. pwrite (xs ! k) = Inr items \<and> written (indexed_listener pwrite pread names k) xs = items \<and> items \<noteq> [] \<and>
     distinct (map fst items))"
  using writes [of "xs ! k"] by (auto simp: writes_ok_def written_def indexed_listener_def list_all_length)

lemma restore_family:
  assumes "represents doc m" "list_all savable xs" "list_all2 compatible xs ys"
    "\<forall>k < length xs. m (names ! k) = Some (module_json (written (indexed_listener pwrite pread names k) xs))" "n \<le> length xs"
  shows "\<exists>zs. notifyChange restoreModule (map (indexed_listener pwrite pread names) [0..<n]) (doc, ys) = Inr (doc, zs) \<and>
    length zs = length xs \<and> (\<forall>k < n. saved (zs ! k) = saved (xs ! k)) \<and> (\<forall>k. n \<le> k \<longrightarrow> zs ! k = ys ! k)"
  using assms(5)
proof (induction n)
  case 0
  then show ?case using assms(3) by (auto dest: list_all2_lengthD)
next
  case (Suc n)
  let ?l = "indexed_listener pwrite pread names n"
  obtain zs where zs: "notifyChange restoreModule (map (indexed_listener pwrite pread names) [0..<n]) (doc, ys) = Inr (doc, zs)"
    "length zs = length xs" "\<forall>k < n. saved (zs ! k) = saved (xs ! k)" "\<forall>k. n \<le> k \<longrightarrow> zs ! k = ys ! k"
    using Suc by (metis Suc_leD)
  obtain items where items: "pwrite (xs ! n) = Inr items" "written ?l xs = items" "items \<noteq> []" "distinct (map fst items)"
    using family_writes [OF assms(2), of n] Suc.prems by auto
  have "savable (xs ! n)" "compatible (xs ! n) (ys ! n)"
    using assms(2,3) Suc.prems by (simp_all add: list_all_length list_all2_conv_all_nth)
  then obtain z where z: "pread (stored items) (ys ! n) = Inr z" "saved z = saved (xs ! n)"
    using read_back [OF _ _ items(1) map_of_stored [OF items(4)] stored_distinct] by blast
  have "m (getName ?l) = Some (module_json items)" using assms(4) Suc.prems items(2) by (simp add: indexed_listener_def)
  from restoreModule_saved [OF assms(1) this items(3), of zs] z(1) zs(4)
  have "restoreModule ?l (doc, zs) = Inr (doc, zs[n := z])" by (simp add: indexed_listener_def)
  then have "notifyChange restoreModule (map (indexed_listener pwrite pread names) [0..<Suc n]) (doc, ys) = Inr (doc, zs[n := z])"
    using zs(1) by (simp add: notifyChange_append)
  moreover have "saved (zs[n := z] ! k) = saved (xs ! k)" if "k < Suc n" for k
    using that zs(2,3) z(2) Suc.prems by (cases "k = n") auto
  ultimately show ?case using zs(2,4) by (intro exI [of _ "zs[n := z]"]) simp
qed

lemma family_save_load_restore:
  assumes "distinct names" "length xs = length names" "list_all savable xs" "list_all2 compatible xs ys"
    "\<And>doc. collect_settings (family pwrite pread names) xs = Inr doc \<Longrightarrow> parse (dump doc) = Inr doc"
  shows "\<exists>files' doc zs.
     persistence_save dump True path (family pwrite pread names) xs files = (Inr True, files') \<and>
     persistence_loadFile parse path files' JNull = Inr (True, doc) \<and>
     persistence_restore (family pwrite pread names) (doc, ys) = Inr (doc, zs) \<and> map saved zs = map saved xs"
proof -
  let ?ls = "family pwrite pread names"
  have d: "distinct (map getName ?ls)" using assms(1) by (simp add: family_names)
  have "\<forall>l \<in> set ?ls. writes_ok l xs" using family_writes [OF assms(3)] assms(2) by (auto simp: family_def)
  then obtain doc where doc: "collect_settings ?ls xs = Inr doc" "represents doc (doc_of ?ls xs)"
    using collect_settings_doc [OF d] by blast
  have "doc_of ?ls xs (names ! k) = Some (module_json (written (indexed_listener pwrite pread names k) xs))" if "k < length xs" for k
    using doc_of_in [OF d, of "indexed_listener pwrite pread names k" xs] that assms(2) by (simp add: family_def indexed_listener_def)
  then obtain zs where zs: "persistence_restore ?ls (doc, ys) = Inr (doc, zs)" "length zs = length xs"
    "\<forall>k < length xs. saved (zs ! k) = saved (xs ! k)"
    using restore_family [OF doc(2) assms(3,4), of names "length xs"] assms(2) by (auto simp: persistence_restore_def family_def)
  have "map saved zs = map saved xs" using zs(2,3) by (simp add: list_eq_iff_nth_eq)
  with doc zs(1) show ?thesis by (simp add: persistence_save_def persistence_loadFile_def assms(5))
qed

end

text \<open>
  Most modules look their items up by key, so the order of the items cannot matter to them:
  they promise that, and that reading what they wrote brings it back.
\<close>

locale keyed_module =
  fixes pwrite :: "'s \<Rightarrow> items res"
    and pread :: "items \<Rightarrow> 's \<Rightarrow> 's res"
    and saved :: "'s \<Rightarrow> 'v"
    and savable :: "'s \<Rightarrow> bool"
    and compatible :: "'s \<Rightarrow> 's \<Rightarrow> bool"
  assumes writes_items: "savable s \<Longrightarrow> \<exists>items. pwrite s = Inr items \<and> items \<noteq> [] \<and> distinct (map fst items)"
    and read_order: "map_of items = map_of items' \<Longrightarrow> pread items t = pread items' t"
    and read_written: "savable s \<Longrightarrow> compatible s t \<Longrightarrow> pwrite s = Inr items \<Longrightarrow>
      \<exists>t'. pread items t = Inr t' \<and> saved t' = saved s"

sublocale keyed_module \<subseteq> persistent_module pwrite pread saved savable compatible
proof unfold_locales
  show "\<exists>items. pwrite s = Inr items \<and> items \<noteq> [] \<and> distinct (map fst items)" if "savable s" for s
    using that by (rule writes_items)
  show "\<exists>t'. pread items' t = Inr t' \<and> saved t' = saved s"
    if "savable s" "compatible s t" "pwrite s = Inr items" "map_of items' = map_of items" for s t items items'
    using read_written [OF that(1-3)] read_order [OF that(4)] by simp
qed

section \<open>Properties\<close>

text \<open>
  C28. Saving collects the settings of all modules without an exception when their names
  differ and each can write its own, and restoring any of them from the saved document calls it
  with exactly the items it wrote, sorted by key with the last value of a repeated key.
\<close>

theorem save_then_restore_module:
  "\<lbrakk>distinct (map getName ls); \<forall>l \<in> set ls. writes_ok l s; l \<in> set ls; written l s \<noteq> []\<rbrakk> \<Longrightarrow>
   \<exists>doc. collect_settings ls s = Inr doc \<and>
     restoreModule l (doc, t) = mapE (\<lambda>t'. (doc, t')) (onPersistenceRead l (stored (written l s)) t) \<and>
     map_of (stored (written l s)) = map_of (rev (written l s))"
proof -
  assume a: "distinct (map getName ls)" "\<forall>l \<in> set ls. writes_ok l s" "l \<in> set ls" "written l s \<noteq> []"
  obtain doc where doc: "collect_settings ls s = Inr doc" "represents doc (doc_of ls s)"
    using collect_settings_doc [OF a(1,2)] by blast
  from restoreModule_saved [OF doc(2) doc_of_in [OF a(1,3)] a(4), of t] doc(1)
  show ?thesis by (simp add: map_of_stored_rev)
qed

definition example_listener :: "string \<Rightarrow> (nat \<times> nat) persistence_listener" where
  "example_listener name = \<lparr>getName = name, onPersistenceWrite = (\<lambda>(a, b). Inr [(''x'', to_string a)]),
     onPersistenceRead = (\<lambda>items (a, b). Inr (length items, b))\<rparr>"

theorem save_then_restore_module_witness:
  "\<exists>doc. collect_settings [example_listener ''A'', example_listener ''B''] (7, 0) = Inr doc \<and>
     restoreModule (example_listener ''B'') (doc, (0, 9)) = Inr (doc, (1, 9))"
proof -
  have w: "onPersistenceWrite (example_listener n) (7, 0) = Inr [(''x'', to_string 7)]" for n
    by (simp add: example_listener_def)
  then have ok: "writes_ok (example_listener n) (7, 0)" "written (example_listener n) (7, 0) = [(''x'', to_string 7)]" for n
    using writes_okI [OF w] by blast+
  have n: "getName (example_listener n) = n" for n by (simp add: example_listener_def)
  have r: "onPersistenceRead (example_listener ''B'') (stored [(''x'', to_string 7)]) (0, 9) = Inr (1, 9)"
    by (simp add: example_listener_def stored_def)
  show ?thesis
    using save_then_restore_module [of "[example_listener ''A'', example_listener ''B'']"
        "(7, 0)" "example_listener ''B''" "(0, 9)"] ok r n by auto
qed

end
