(* ===== verification/Throughput.thy ===== *)
theory Throughput
  imports Complex_Main Prelude
begin

text \<open>
  \<open>sw/Utilities/public/ThroughputCalculator.h\<close>: bytes counted since a start time, and the
  rate with its unit. Times are nanoseconds of the steady clock (0 is the epoch, which the
  code uses for "not started"); the rate, a \<open>double\<close> in the code, is an exact rational.
\<close>

datatype ByteUnit = bytes_s | kilobytes_s | megabytes_s

definition unit_value :: "ByteUnit \<Rightarrow> rat" where
  "unit_value u = (case u of bytes_s \<Rightarrow> 1 | kilobytes_s \<Rightarrow> 1024 | megabytes_s \<Rightarrow> 1048576)"

record throughput =
  m_bytesCount :: u32
  m_start :: int

definition throughput_start :: "int \<Rightarrow> throughput \<Rightarrow> throughput" where
  "throughput_start now c = (if m_start c = 0 then c\<lparr>m_start := now, m_bytesCount := 0\<rparr> else c)"

definition throughput_reset :: "throughput \<Rightarrow> throughput" where
  "throughput_reset c = c\<lparr>m_start := 0, m_bytesCount := 0\<rparr>"

definition reportBytes :: "u32 \<Rightarrow> throughput \<Rightarrow> throughput" where
  "reportBytes bytes_count c =
     (if m_start c \<noteq> 0 then c\<lparr>m_bytesCount := m_bytesCount c + bytes_count\<rparr> else c)"

definition deduceByteUnit :: "rat \<Rightarrow> ByteUnit" where
  "deduceByteUnit v =
     (if v > unit_value megabytes_s then megabytes_s
      else if v > unit_value kilobytes_s then kilobytes_s else bytes_s)"

definition throughput_get :: "int \<Rightarrow> throughput \<Rightarrow> rat \<times> ByteUnit" where
  "throughput_get now c =
     (let milliseconds_elapsed = (now - m_start c) div 1000000
      in if m_start c \<noteq> 0 \<and> milliseconds_elapsed \<noteq> 0 \<and> m_bytesCount c \<noteq> 0
         then let current = of_nat (unat (m_bytesCount c)) / of_int milliseconds_elapsed * 1000;
                  u = deduceByteUnit current
              in (current / unit_value u, u)
         else (0, bytes_s))"

lemma unit_value_pos [simp]: "0 < unit_value u"
  by (cases u) (simp_all add: unit_value_def)

lemma unat_fold_add: "unat (w :: u32) + sum_list ns < 2 ^ 32 \<Longrightarrow>
  unat (fold (\<lambda>n w. w + word_of_nat n) ns w) = unat w + sum_list ns"
proof (induction ns arbitrary: w)
  case (Cons n ns)
  have "unat (w + word_of_nat n) = unat w + n"
  proof -
    have "unat (word_of_nat n :: u32) = n" using Cons.prems by (simp add: unat_of_nat)
    then show ?thesis using Cons.prems by (simp add: unat_word_ariths)
  qed
  with Cons show ?case by simp
qed simp

lemma fold_report:
  "m_start c \<noteq> 0 \<Longrightarrow> fold (\<lambda>n. reportBytes (word_of_nat n)) ns c =
     c\<lparr>m_bytesCount := fold (\<lambda>n w. w + word_of_nat n) ns (m_bytesCount c)\<rparr>"
  by (induction ns arbitrary: c) (simp_all add: reportBytes_def)

text \<open>
  After a start at a nonzero time, the rate reported some whole number of milliseconds
  later is the number of bytes received in between over that time, in a unit such that it is
  at most 1024 unless it is given in megabytes; bytes are not counted before a start or after a
  reset. (More than \<open>2 ^ 32\<close> bytes would wrap around.)
\<close>

theorem throughput_measures:
  "\<lbrakk>m_start c = 0; now \<noteq> 0; 0 < ms; 0 < sum_list ns; sum_list ns < 2 ^ 32\<rbrakk> \<Longrightarrow>
   (let (v, u) = throughput_get (now + int ms * 1000000) (fold (\<lambda>n. reportBytes (word_of_nat n)) ns (throughput_start now c))
    in v * unit_value u = of_nat (sum_list ns) * 1000 / of_nat ms \<and> 0 < v \<and> (u \<noteq> megabytes_s \<longrightarrow> v \<le> 1024)) \<and>
   throughput_get (now + int ms * 1000000) (fold (\<lambda>n. reportBytes (word_of_nat n)) ns c) = (0, bytes_s)"
proof -
  assume a: "m_start c = 0" "now \<noteq> 0" "0 < ms" "0 < sum_list ns" "sum_list ns < 2 ^ 32"
  let ?c = "fold (\<lambda>n. reportBytes (word_of_nat n)) ns (throughput_start now c)"
  have c: "?c = (throughput_start now c)\<lparr>m_bytesCount := fold (\<lambda>n w. w + word_of_nat n) ns 0\<rparr>"
    using a by (simp add: fold_report throughput_start_def)
  have cnt: "unat (m_bytesCount ?c) = sum_list ns"
    using unat_fold_add [of 0 ns] a unfolding c by simp
  then have ne: "m_bytesCount ?c \<noteq> 0" using a(4) by (metis less_irrefl unat_0)
  have st: "m_start ?c = now" unfolding c using a by (simp add: throughput_start_def)
  have none: "throughput_get t (fold (\<lambda>n. reportBytes (word_of_nat n)) ns c) = (0, bytes_s)" for t
  proof -
    have "fold (\<lambda>n. reportBytes (word_of_nat n)) ns c = c"
      using a(1) by (induction ns) (simp_all add: reportBytes_def)
    then show ?thesis using a(1) by (simp add: throughput_get_def)
  qed
  define v where "v = (of_nat (sum_list ns) :: rat) / of_nat ms * 1000"
  have pos: "0 < v" using a by (simp add: v_def del: sum_list_eq_0_iff)
  have get: "throughput_get (now + int ms * 1000000) ?c = (v / unit_value (deduceByteUnit v), deduceByteUnit v)"
    using st ne cnt a by (simp add: throughput_get_def v_def Let_def)
  have "deduceByteUnit v \<noteq> megabytes_s \<Longrightarrow> v / unit_value (deduceByteUnit v) \<le> 1024"
    by (auto simp: deduceByteUnit_def unit_value_def field_simps split: if_splits)
  moreover have "unit_value (deduceByteUnit v) \<noteq> 0" using unit_value_pos by (metis less_irrefl)
  moreover have "0 < v / unit_value (deduceByteUnit v)" using pos by simp
  ultimately show ?thesis unfolding get none by (simp add: v_def)
qed

theorem throughput_measures_witness:
  "let (v, u) = throughput_get 2001000000 (fold (\<lambda>n. reportBytes (word_of_nat n)) [1000, 3096] (throughput_start 1000000 \<lparr>m_bytesCount = 5, m_start = 0\<rparr>))
   in v * unit_value u = 2048"
  using throughput_measures [of "\<lparr>m_bytesCount = 5, m_start = 0\<rparr>" 1000000 2000 "[1000, 3096]"]
  by (simp add: Let_def case_prod_unfold)

end
