(* ===== verification/Port.thy ===== *)
theory Port
  imports PortSettings Persistence Throughput Timers DriverReceive
begin

text \<open>
  \<open>sw/MainApplication/source/Port.cpp\<close> with \<open>sw/MainApplication/public/DriversProxy.hpp\<close>:
  one port of the terminal, its connection state, the retry timer, the calls it makes to the
  GUI controller and the events it sends to its listeners. The timers are those of theory
  Timers; the driver behind the proxy answers each start with a parameter; dialogs, message
  texts of the system and the formatting of a number are parameters too.
\<close>

section \<open>The drivers proxy\<close>

datatype proxy_kind =
    SerialProxy serial_settings
  | SocketProxy string u32
  | ProcessProxy string

text \<open>The proxy with what its driver answers to \<open>isStarted\<close>.\<close>

record proxy =
  kind :: proxy_kind
  driver_started :: bool

datatype proxy_event = ENDPOINT_DISCONNECTED | PROXY_DATA_RECEIVED

datatype process_event = PROCESS_STARTED | PROCESS_STOPPED | PROCESS_DATA_RECEIVED

definition proxy_start :: "bool \<Rightarrow> proxy \<Rightarrow> bool \<times> proxy" where
  "proxy_start ok x = (ok, x\<lparr>driver_started := ok\<rparr>)"

definition proxy_stop :: "proxy \<Rightarrow> proxy" where
  "proxy_stop x = x\<lparr>driver_started := False\<rparr>"

definition proxy_isStarted :: "proxy \<Rightarrow> bool" where
  "proxy_isStarted x = driver_started x"

text \<open>
  \<open>DriversProxy::write\<close>: for a process there is neither a serial driver nor a socket
  client, and the call goes through the null pointer of the latter.
\<close>

definition proxy_write :: "(bytes \<Rightarrow> int \<Rightarrow> bool) \<Rightarrow> (bytes \<Rightarrow> int \<Rightarrow> bool) \<Rightarrow> bytes \<Rightarrow> int \<Rightarrow> proxy \<Rightarrow> bool res" where
  "proxy_write serial_out socket_out data sz x =
     (case kind x of
        SerialProxy s \<Rightarrow> Inr (serial_out data sz)
      | SocketProxy ip p \<Rightarrow> Inr (socket_out data sz)
      | ProcessProxy c \<Rightarrow> Inl NullDeref)"

definition onSerialEvent :: "serial_event \<Rightarrow> proxy_event \<times> bytes \<times> nat" where
  "onSerialEvent e =
     (case e of DATA_RECV data n \<Rightarrow> (PROXY_DATA_RECEIVED, data, n) | COMMUNICATION_ERROR \<Rightarrow> (ENDPOINT_DISCONNECTED, [], 0))"

definition onClientEvent :: "client_event \<Rightarrow> proxy_event \<times> bytes \<times> nat" where
  "onClientEvent e =
     (case e of SERVER_DATA_RECV data n \<Rightarrow> (PROXY_DATA_RECEIVED, data, n) | SERVER_DISCONNECTED \<Rightarrow> (ENDPOINT_DISCONNECTED, [], 0))"

definition onProcessEvent :: "process_event \<Rightarrow> bytes \<Rightarrow> nat \<Rightarrow> proxy_event \<times> bytes \<times> nat" where
  "onProcessEvent e data n =
     (if e = PROCESS_STOPPED then (ENDPOINT_DISCONNECTED, data, n) else (PROXY_DATA_RECEIVED, data, n))"

section \<open>The port\<close>

datatype ButtonState = BS_DISCONNECTED | BS_CONNECTING | BS_CONNECTED

datatype PortEventId = EV_DISCONNECTED | EV_CONNECTING | EV_CONNECTED | EV_NEW_DATA

record port_event =
  ev_port_id :: u8
  ev_name :: string
  ev_background :: u32
  ev_font :: u32
  ev_event :: PortEventId
  ev_data :: bytes

text \<open>Everything a port calls, in order: its listeners, the GUI controller, a message dialog.\<close>

datatype port_call =
    PortNotify port_event
  | SetPortLabelText u8 string
  | SetButtonText u32 string
  | SetButtonBackgroundColor u32 u32
  | SetButtonFontColor u32 u32
  | SetThroughputText u8 string
  | ShowErrorMessage string

record port =
  m_buttonId :: u32
  m_settings :: port_settings
  m_connectRetryPeriod :: u32
  m_timers_ref :: "u8 timers"
  m_proxy :: "proxy option"
  m_timerId :: u32
  m_throughputCalculatorTimerID :: u32
  m_buttonState :: ButtonState
  m_throughputCalculator :: throughput
  gui_background :: u32
  gui_text :: u32
  port_calls :: "port_call list"

definition DEFAULT_CONNECT_RETRY_PERIOD :: u32 where
  "DEFAULT_CONNECT_RETRY_PERIOD = 5000"

definition make_call :: "port_call \<Rightarrow> port \<Rightarrow> port" where
  "make_call c p = p\<lparr>port_calls := port_calls p @ [c]\<rparr>"

definition notifyListeners :: "PortEventId \<Rightarrow> bytes \<Rightarrow> port \<Rightarrow> port" where
  "notifyListeners e data p =
     make_call (PortNotify \<lparr>ev_port_id = port_id (m_settings p), ev_name = port_name (m_settings p),
       ev_background = trace_color (m_settings p), ev_font = font_color (m_settings p), ev_event = e, ev_data = data\<rparr>) p"

definition setButtonColors :: "port \<Rightarrow> port" where
  "setButtonColors p =
     (case m_buttonState p of
        BS_CONNECTED \<Rightarrow> make_call (SetButtonFontColor (m_buttonId p) 0) (make_call (SetButtonBackgroundColor (m_buttonId p) 0x00FF00) p)
      | BS_CONNECTING \<Rightarrow> make_call (SetButtonFontColor (m_buttonId p) 0) (make_call (SetButtonBackgroundColor (m_buttonId p) 0x0000FF) p)
      | BS_DISCONNECTED \<Rightarrow>
          make_call (SetButtonFontColor (m_buttonId p) (gui_text p))
            (make_call (SetButtonBackgroundColor (m_buttonId p) (gui_background p)) p))"

definition setButtonName :: "string \<Rightarrow> port \<Rightarrow> port" where
  "setButtonName name p = make_call (SetButtonText (m_buttonId p) name) p"

definition setState :: "ButtonState \<Rightarrow> port \<Rightarrow> port" where
  "setState st p =
     (let p1 = p\<lparr>m_buttonState := st\<rparr>;
          p2 = make_call (SetPortLabelText (port_id (m_settings p1)) (summaryString (m_settings p1))) p1
      in setButtonColors (setButtonName (port_name (m_settings p2)) p2))"

definition refreshUi :: "port \<Rightarrow> port" where
  "refreshUi p = setState (m_buttonState p) p"

text \<open>
  \<open>handleNewSettings\<close>. The text of the settings is made for the log, with the name of the
  baud rate of a serial port; an unknown port type leaves the old proxy in place.
\<close>

definition default_name :: "port_settings \<Rightarrow> port_settings" where
  "default_name s = (if port_name s = [] then s\<lparr>port_name := ''PORT'' @ u_to_string (port_id s)\<rparr> else s)"

definition new_proxy :: "port_settings \<Rightarrow> proxy_kind option" where
  "new_proxy s =
     (case port_type s of
        SERIAL \<Rightarrow> Some (SerialProxy (serialSettings s))
      | ETHERNET \<Rightarrow> Some (SocketProxy (ip_address s) (ip_port s))
      | COMMAND \<Rightarrow> Some (ProcessProxy (port_command s))
      | PORT_TYPE_MAX \<Rightarrow> None)"

definition handleNewSettings :: "port_settings \<Rightarrow> port \<Rightarrow> port res" where
  "handleNewSettings settings p =
     (let s = default_name settings; p1 = p\<lparr>m_settings := s\<rparr>
      in bindE (settingsString s) (\<lambda>log_text.
           let p2 = (case new_proxy s of
                       None \<Rightarrow> p1
                     | Some k \<Rightarrow> p1\<lparr>m_proxy := Some \<lparr>kind = k, driver_started = False\<rparr>\<rparr>)
           in Inr (setState (m_buttonState p2) p2)))"

definition port_setSettings :: "port_settings \<Rightarrow> port \<Rightarrow> (bool \<times> port) res" where
  "port_setSettings settings p =
     (if m_buttonState p = BS_DISCONNECTED then mapE (\<lambda>p'. (True, p')) (handleNewSettings settings p) else Inr (False, p))"

definition port_isOpened :: "port \<Rightarrow> bool" where
  "port_isOpened p \<longleftrightarrow> m_buttonState p \<noteq> BS_DISCONNECTED"

definition port_write :: "(bytes \<Rightarrow> int \<Rightarrow> bool) \<Rightarrow> (bytes \<Rightarrow> int \<Rightarrow> bool) \<Rightarrow> bytes \<Rightarrow> int \<Rightarrow> port \<Rightarrow> bool res" where
  "port_write serial_out socket_out data sz p =
     (case m_proxy p of None \<Rightarrow> Inl AssertionFailed | Some x \<Rightarrow> proxy_write serial_out socket_out data sz x)"

definition on_timers :: "(u8 timers \<Rightarrow> u8 timers) \<Rightarrow> port \<Rightarrow> port" where
  "on_timers f p = p\<lparr>m_timers_ref := f (m_timers_ref p)\<rparr>"

text \<open>\<open>tryConnect\<close>; \<open>ok\<close> is the driver's answer.\<close>

definition tryConnect :: "int \<Rightarrow> bool \<Rightarrow> port \<Rightarrow> (bool \<times> port) res" where
  "tryConnect now ok p =
     (case m_proxy p of
        None \<Rightarrow> Inl AssertionFailed
      | Some x \<Rightarrow>
          let (started, x') = proxy_start ok (proxy_stop x);
              p1 = p\<lparr>m_proxy := Some x'\<rparr>
          in if started
             then let p2 = on_timers (stopTimer (m_timerId p1)) p1;
                      p3 = notifyListeners EV_CONNECTED [] (setState BS_CONNECTED p2);
                      p4 = p3\<lparr>m_throughputCalculator := throughput_start now (m_throughputCalculator p3)\<rparr>
                  in Inr (True, on_timers (startTimer now (m_throughputCalculatorTimerID p4)) p4)
             else Inr (False, p1))"

definition scheduleConnectionTrial :: "int \<Rightarrow> port \<Rightarrow> port" where
  "scheduleConnectionTrial now p =
     (let p1 = on_timers (\<lambda>ts. snd (setTimeout now (m_timerId p) (m_connectRetryPeriod p) ts)) p;
          p2 = on_timers (startTimer now (m_timerId p)) p1
      in notifyListeners EV_CONNECTING [] (setState BS_CONNECTING p2))"

definition onEthernetConnectionFailed :: "int \<Rightarrow> port \<Rightarrow> port" where
  "onEthernetConnectionFailed now p =
     (let p1 = on_timers (\<lambda>ts. snd (setTimeout now (m_timerId p) (m_connectRetryPeriod p) ts)) p;
          p2 = on_timers (startTimer now (m_timerId p)) p1
      in notifyListeners EV_CONNECTING [] (setState BS_CONNECTING p2))"

definition onSerialConnectionFailed :: "string \<Rightarrow> port \<Rightarrow> port" where
  "onSerialConnectionFailed errno_text p =
     make_call (ShowErrorMessage (''Cannot open '' @ device (serialSettings (m_settings p)) @ '' ['' @
       port_name (m_settings p) @ '']'' @ [CHR 0x0A] @ errno_text)) p"

definition onPortButtonClicked :: "int \<Rightarrow> bool \<Rightarrow> string \<Rightarrow> port \<Rightarrow> port res" where
  "onPortButtonClicked now ok errno_text p =
     (case m_proxy p of
        None \<Rightarrow> Inl AssertionFailed
      | Some x \<Rightarrow>
          if proxy_isStarted x
          then Inr (notifyListeners EV_DISCONNECTED [] (setState BS_DISCONNECTED (p\<lparr>m_proxy := Some (proxy_stop x)\<rparr>)))
          else if m_buttonState p = BS_CONNECTING
          then Inr (notifyListeners EV_DISCONNECTED [] (setState BS_DISCONNECTED (on_timers (stopTimer (m_timerId p)) p)))
          else bindE (tryConnect now ok p) (\<lambda>(connected, p1).
            if connected then Inr p1
            else if port_type (m_settings p1) = SERIAL then Inr (onSerialConnectionFailed errno_text p1)
            else if port_type (m_settings p1) = ETHERNET then Inr (onEthernetConnectionFailed now p1)
            else Inr p1))"

text \<open>\<open>onPortButtonContextMenuRequested\<close>, with the answer of the settings dialog.\<close>

definition onPortButtonContextMenuRequested :: "(bool \<times> port_settings) option \<Rightarrow> port \<Rightarrow> port res" where
  "onPortButtonContextMenuRequested dialog p =
     (case dialog of Some (True, new_settings) \<Rightarrow> handleNewSettings new_settings p | _ \<Rightarrow> Inr p)"

datatype port_button_event = BUTTON_CLICKED | BUTTON_CONTEXT_MENU_REQUESTED

definition port_onButtonEvent ::
  "int \<Rightarrow> bool \<Rightarrow> string \<Rightarrow> (bool \<times> port_settings) option \<Rightarrow> u32 \<Rightarrow> port_button_event \<Rightarrow> port \<Rightarrow> port res" where
  "port_onButtonEvent now ok errno_text dialog button_id event p =
     (if button_id = m_buttonId p
      then (case event of
              BUTTON_CLICKED \<Rightarrow> onPortButtonClicked now ok errno_text p
            | BUTTON_CONTEXT_MENU_REQUESTED \<Rightarrow> onPortButtonContextMenuRequested dialog p)
      else Inr p)"

definition port_onEvent :: "int \<Rightarrow> proxy_event \<Rightarrow> bytes \<Rightarrow> u32 \<Rightarrow> port \<Rightarrow> port" where
  "port_onEvent now event data sz p =
     (case event of
        ENDPOINT_DISCONNECTED \<Rightarrow> scheduleConnectionTrial now (notifyListeners EV_CONNECTING [] (setState BS_CONNECTING p))
      | PROXY_DATA_RECEIVED \<Rightarrow>
          notifyListeners EV_NEW_DATA data (p\<lparr>m_throughputCalculator := reportBytes sz (m_throughputCalculator p)\<rparr>))"

definition unit_label :: "ByteUnit \<Rightarrow> string" where
  "unit_label u = (case u of bytes_s \<Rightarrow> ''B/s'' | kilobytes_s \<Rightarrow> ''KB/s'' | megabytes_s \<Rightarrow> ''MB/s'')"

text \<open>\<open>format_value\<close> stands for the conversion \<open>%.2f\<close> of \<open>snprintf\<close>, which keeps 49 characters.\<close>

definition reportThroughput :: "(rat \<Rightarrow> string) \<Rightarrow> rat \<times> ByteUnit \<Rightarrow> port \<Rightarrow> port" where
  "reportThroughput format_value t p =
     make_call (SetThroughputText (port_id (m_settings p)) (take 49 (format_value (fst t) @ '' '' @ unit_label (snd t)))) p"

definition onTimeout_retry :: "int \<Rightarrow> bool \<Rightarrow> port \<Rightarrow> port res" where
  "onTimeout_retry now ok p =
     mapE (\<lambda>(connected, p1). if connected then p1 else scheduleConnectionTrial now p1) (tryConnect now ok p)"

definition onTimeout_throughput :: "int \<Rightarrow> (rat \<Rightarrow> string) \<Rightarrow> port \<Rightarrow> port" where
  "onTimeout_throughput now format_value p =
     (let calculation = throughput_get now (m_throughputCalculator p);
          p1 = p\<lparr>m_throughputCalculator := throughput_start now (throughput_reset (m_throughputCalculator p))\<rparr>
      in if port_isOpened p1
         then reportThroughput format_value calculation (on_timers (startTimer now (m_throughputCalculatorTimerID p1)) p1)
         else make_call (SetThroughputText (port_id (m_settings p1)) []) p1)"

definition port_onTimeout :: "int \<Rightarrow> bool \<Rightarrow> (rat \<Rightarrow> string) \<Rightarrow> u32 \<Rightarrow> port \<Rightarrow> port res" where
  "port_onTimeout now ok format_value tid p =
     mapE (\<lambda>p1. if tid = m_throughputCalculatorTimerID p1 then onTimeout_throughput now format_value p1 else p1)
       (if tid = m_timerId p then onTimeout_retry now ok p else Inr p)"

text \<open>
  The constructor: two timers are created and the default settings applied. The assertion on
  the button's identifier comes before the identifier is looked up, so it says nothing.
\<close>

definition port_create ::
  "u8 \<Rightarrow> u32 \<Rightarrow> u32 \<Rightarrow> u8 timers \<Rightarrow> u32 \<Rightarrow> u32 \<Rightarrow> port res" where
  "port_create i button_id throughput_window ts background txt =
     (let (timer, ts1) = createTimer (Some i) DEFAULT_CONNECT_RETRY_PERIOD ts;
          (window_timer, ts2) = createTimer (Some i) throughput_window ts1;
          settings = default_port_settings\<lparr>port_id := i, port_name := ''PORT'' @ u_to_string i\<rparr>
      in mapE (notifyListeners EV_DISCONNECTED [])
           (handleNewSettings settings
              \<lparr>m_buttonId = button_id, m_settings = settings, m_connectRetryPeriod = DEFAULT_CONNECT_RETRY_PERIOD,
               m_timers_ref = ts2, m_proxy = None, m_timerId = timer, m_throughputCalculatorTimerID = window_timer,
               m_buttonState = BS_DISCONNECTED, m_throughputCalculator = \<lparr>m_bytesCount = 0, m_start = 0\<rparr>,
               gui_background = background, gui_text = txt, port_calls = []\<rparr>))"

definition port_destroy :: "port \<Rightarrow> port" where
  "port_destroy p =
     (let p1 = on_timers (\<lambda>ts. removeTimer (m_throughputCalculatorTimerID p) (removeTimer (m_timerId p) ts)) p;
          p2 = p1\<lparr>m_timerId := TIMERS_INVALID_ID, m_throughputCalculatorTimerID := TIMERS_INVALID_ID, m_proxy := None\<rparr>
      in setState BS_DISCONNECTED p2)"

text \<open>
  Saving and restoring. The log line of the first asks for the text of the settings; the
  second starts from the names of the current values.
\<close>

definition port_onPersistenceWrite :: "port \<Rightarrow> items res" where
  "port_onPersistenceWrite p =
     (let s = m_settings p; ser = serialSettings s
      in bindE (settingsString s) (\<lambda>log_text.
         bindE (baudrate_toName (baudRate ser)) (\<lambda>baudrate_name.
         bindE (databits_toName (dataBits ser)) (\<lambda>databits_name.
         bindE (paritybits_toName (parityBits ser)) (\<lambda>paritybits_name.
         bindE (stopbits_toName (stopBits ser)) (\<lambda>stopbits_name.
           let b1 = writeItem_str [] ''ipAddress'' (ip_address s);
               b2 = writeItem_str b1 ''command'' (port_command s);
               b3 = writeItem_num b2 ''ipPort'' (unat (ip_port s));
               b4 = writeItem_num b3 ''portId'' (unat (port_id s));
               b5 = writeItem_str b4 ''portName'' (port_name s);
               b6 = writeItem_str b5 ''baudRate'' baudrate_name;
               b7 = writeItem_str b6 ''dataBits'' databits_name;
               b8 = writeItem_str b7 ''parityBits'' paritybits_name;
               b9 = writeItem_str b8 ''stopBits'' stopbits_name;
               b10 = writeItem_str b9 ''device'' (device ser);
               b11 = writeItem_num b10 ''mode'' (unat (serial_mode ser));
               b12 = writeItem_num b11 ''traceColor'' (unat (trace_color s));
               b13 = writeItem_num b12 ''fontColor'' (unat (font_color s))
           in Inr (writeItem_str b13 ''type'' (port_type_toName (port_type s)))))))))"

definition port_onPersistenceRead :: "items \<Rightarrow> port \<Rightarrow> port res" where
  "port_onPersistenceRead items p =
     (let s = m_settings p; ser = serialSettings s
      in bindE (baudrate_toName (baudRate ser)) (\<lambda>baudrate_name.
         bindE (databits_toName (dataBits ser)) (\<lambda>databits_name.
         bindE (paritybits_toName (parityBits ser)) (\<lambda>paritybits_name.
         bindE (stopbits_toName (stopBits ser)) (\<lambda>stopbits_name.
           let ipAddress = snd (readItem_str items ''ipAddress'' (ip_address s));
               cmd = snd (readItem_str items ''command'' (port_command s))
           in bindE (readItem_num word_of_int items ''ipPort'' (ip_port s)) (\<lambda>(_, ipPort).
              bindE (readItem_num word_of_int items ''portId'' (port_id s)) (\<lambda>(_, portId).
                let portName = snd (readItem_str items ''portName'' (port_name s));
                    baud = snd (readItem_str items ''baudRate'' baudrate_name);
                    data = snd (readItem_str items ''dataBits'' databits_name);
                    parity = snd (readItem_str items ''parityBits'' paritybits_name);
                    stop = snd (readItem_str items ''stopBits'' stopbits_name);
                    dev = snd (readItem_str items ''device'' (device ser))
                in bindE (readItem_num word_of_int items ''mode'' (serial_mode ser)) (\<lambda>(_, mode).
                   bindE (readItem_num word_of_int items ''traceColor'' (trace_color s)) (\<lambda>(_, traceColor).
                   bindE (readItem_num word_of_int items ''fontColor'' (font_color s)) (\<lambda>(_, fontColor).
                     let type_name = snd (readItem_str items ''type'' (port_type_toName (port_type s)))
                     in handleNewSettings
                          \<lparr>port_id = portId, port_type = port_type_fromName type_name, port_name = portName,
                           serialSettings = \<lparr>device = dev, baudRate = baudrate_fromName baud, serial_mode = mode,
                             parityBits = paritybits_fromName parity, stopBits = stopbits_fromName stop,
                             dataBits = databits_fromName data\<rparr>,
                           ip_address = ipAddress, ip_port = ipPort, port_command = cmd,
                           trace_color = traceColor, font_color = fontColor\<rparr> p))))))))))"

section \<open>What the calls and the state updates leave alone\<close>

lemma make_call_fields [simp]:
  "m_buttonId (make_call c p) = m_buttonId p" "m_settings (make_call c p) = m_settings p"
  "m_connectRetryPeriod (make_call c p) = m_connectRetryPeriod p" "m_timers_ref (make_call c p) = m_timers_ref p"
  "m_proxy (make_call c p) = m_proxy p" "m_timerId (make_call c p) = m_timerId p"
  "m_throughputCalculatorTimerID (make_call c p) = m_throughputCalculatorTimerID p"
  "m_buttonState (make_call c p) = m_buttonState p" "gui_background (make_call c p) = gui_background p"
  "m_throughputCalculator (make_call c p) = m_throughputCalculator p" "gui_text (make_call c p) = gui_text p"
  by (simp_all add: make_call_def)

lemma notify_fields [simp]:
  "m_buttonId (notifyListeners e d p) = m_buttonId p" "m_settings (notifyListeners e d p) = m_settings p"
  "m_connectRetryPeriod (notifyListeners e d p) = m_connectRetryPeriod p" "m_timers_ref (notifyListeners e d p) = m_timers_ref p"
  "m_proxy (notifyListeners e d p) = m_proxy p" "m_timerId (notifyListeners e d p) = m_timerId p"
  "m_throughputCalculatorTimerID (notifyListeners e d p) = m_throughputCalculatorTimerID p"
  "m_buttonState (notifyListeners e d p) = m_buttonState p" "gui_background (notifyListeners e d p) = gui_background p"
  "m_throughputCalculator (notifyListeners e d p) = m_throughputCalculator p" "gui_text (notifyListeners e d p) = gui_text p"
  by (simp_all add: notifyListeners_def)

lemma setState_fields [simp]:
  "m_buttonId (setState st p) = m_buttonId p" "m_settings (setState st p) = m_settings p"
  "m_connectRetryPeriod (setState st p) = m_connectRetryPeriod p" "m_timers_ref (setState st p) = m_timers_ref p"
  "m_proxy (setState st p) = m_proxy p" "m_timerId (setState st p) = m_timerId p"
  "m_throughputCalculatorTimerID (setState st p) = m_throughputCalculatorTimerID p"
  "m_buttonState (setState st p) = st" "gui_background (setState st p) = gui_background p"
  "m_throughputCalculator (setState st p) = m_throughputCalculator p" "gui_text (setState st p) = gui_text p"
  by (cases st; simp add: setState_def setButtonColors_def setButtonName_def Let_def)+

lemma on_timers_fields [simp]:
  "m_buttonId (on_timers f p) = m_buttonId p" "m_settings (on_timers f p) = m_settings p"
  "m_connectRetryPeriod (on_timers f p) = m_connectRetryPeriod p" "m_timers_ref (on_timers f p) = f (m_timers_ref p)"
  "m_proxy (on_timers f p) = m_proxy p" "m_timerId (on_timers f p) = m_timerId p"
  "m_throughputCalculatorTimerID (on_timers f p) = m_throughputCalculatorTimerID p"
  "m_buttonState (on_timers f p) = m_buttonState p" "gui_background (on_timers f p) = gui_background p"
  "port_calls (on_timers f p) = port_calls p" "m_throughputCalculator (on_timers f p) = m_throughputCalculator p"
  "gui_text (on_timers f p) = gui_text p"
  by (simp_all add: on_timers_def)

section \<open>What the listeners and the user see\<close>

text \<open>The last connection state the listeners were told, and the last colour of the button.\<close>

definition announcement :: "port_call \<Rightarrow> PortEventId option" where
  "announcement c =
     (case c of PortNotify e \<Rightarrow> if ev_event e = EV_NEW_DATA then None else Some (ev_event e) | _ \<Rightarrow> None)"

definition announced :: "port_call list \<Rightarrow> PortEventId option" where
  "announced cs = fold (\<lambda>c a. case announcement c of None \<Rightarrow> a | Some e \<Rightarrow> Some e) cs None"

definition button_colour :: "port_call list \<Rightarrow> u32 option" where
  "button_colour cs = fold (\<lambda>c a. case c of SetButtonBackgroundColor b col \<Rightarrow> Some col | _ \<Rightarrow> a) cs None"

definition state_event :: "ButtonState \<Rightarrow> PortEventId" where
  "state_event st = (case st of BS_DISCONNECTED \<Rightarrow> EV_DISCONNECTED | BS_CONNECTING \<Rightarrow> EV_CONNECTING | BS_CONNECTED \<Rightarrow> EV_CONNECTED)"

definition state_colour :: "port \<Rightarrow> u32" where
  "state_colour p =
     (case m_buttonState p of BS_DISCONNECTED \<Rightarrow> gui_background p | BS_CONNECTING \<Rightarrow> 0x0000FF | BS_CONNECTED \<Rightarrow> 0x00FF00)"

lemma announced_make_call [simp]:
  "announced (port_calls (make_call c p)) =
     (case announcement c of None \<Rightarrow> announced (port_calls p) | Some e \<Rightarrow> Some e)"
  by (cases "announcement c") (simp_all add: announced_def make_call_def)

lemma colour_make_call [simp]:
  "button_colour (port_calls (make_call c p)) =
     (case c of SetButtonBackgroundColor b col \<Rightarrow> Some col | _ \<Rightarrow> button_colour (port_calls p))"
  by (cases c) (simp_all add: button_colour_def make_call_def)

lemma seen_notify [simp]:
  "announced (port_calls (notifyListeners e d p)) = (if e = EV_NEW_DATA then announced (port_calls p) else Some e)"
  "button_colour (port_calls (notifyListeners e d p)) = button_colour (port_calls p)"
  by (simp_all add: notifyListeners_def announcement_def)

lemma seen_setState [simp]:
  "announced (port_calls (setState st p)) = announced (port_calls p)"
  "button_colour (port_calls (setState st p)) = Some (state_colour (setState st p))"
proof -
  have calls: "port_calls (p\<lparr>m_buttonState := st\<rparr>) = port_calls p" by simp
  show "announced (port_calls (setState st p)) = announced (port_calls p)"
    by (cases st) (simp_all add: setState_def setButtonColors_def setButtonName_def announcement_def)
  show "button_colour (port_calls (setState st p)) = Some (state_colour (setState st p))"
    unfolding state_colour_def setState_fields
    by (cases st) (simp_all add: setState_def setButtonColors_def setButtonName_def)
qed

lemma state_colour_cong:
  "m_buttonState p = m_buttonState q \<Longrightarrow> gui_background p = gui_background q \<Longrightarrow> state_colour p = state_colour q"
  by (cases "m_buttonState q") (simp_all add: state_colour_def)

section \<open>The timers of a port\<close>

definition timer_exists :: "u32 \<Rightarrow> u8 timers \<Rightarrow> bool" where
  "timer_exists i ts \<longleftrightarrow> timer_info i ts \<noteq> None"

definition runs :: "u32 \<Rightarrow> u8 timers \<Rightarrow> bool" where
  "runs i ts \<longleftrightarrow> map_option fst (timer_info i ts) = Some True"

lemma runs_ops [simp]:
  "runs j (startTimer now i ts) = (if j = i then timer_exists j ts else runs j ts)"
  "runs j (stopTimer i ts) = (j \<noteq> i \<and> runs j ts)"
  "runs j (snd (setTimeout now i w ts)) = runs j ts"
proof -
  show "runs j (startTimer now i ts) = (if j = i then timer_exists j ts else runs j ts)"
    unfolding runs_def timer_exists_def impl.info_start
    by (cases "j = i"; cases "timer_info j ts") (auto simp del: timer_info_None)
  show "runs j (stopTimer i ts) = (j \<noteq> i \<and> runs j ts)"
    unfolding runs_def impl.info_stop
    by (cases "j = i"; cases "timer_info j ts") (auto simp del: timer_info_None)
  have "map_option fst (timer_info j (snd (setTimeout now i w ts))) = map_option fst (timer_info j ts)"
  proof -
    have "map_option fst (map_option (\<lambda>(r, _). (r, w)) x) = map_option fst x" for x :: "(bool \<times> u32) option"
      by (cases x) auto
    then show ?thesis by (simp add: impl.info_set)
  qed
  then show "runs j (snd (setTimeout now i w ts)) = runs j ts" by (simp only: runs_def)
qed

lemma exists_ops [simp]:
  "timer_exists j (startTimer now i ts) = timer_exists j ts"
  "timer_exists j (stopTimer i ts) = timer_exists j ts"
  "timer_exists j (snd (setTimeout now i w ts)) = timer_exists j ts"
  by (simp_all add: timer_exists_def impl.exists_kept del: timer_info_None)

text \<open>The timer thread expires a timer before it calls the port.\<close>

definition expire_timer :: "int \<Rightarrow> u32 \<Rightarrow> u8 timers \<Rightarrow> u8 timers" where
  "expire_timer now i ts = modify_timer i (expire now) ts"

lemma expire_timer_other [simp]:
  "timer_exists j (expire_timer now i ts) = timer_exists j ts"
  "j \<noteq> i \<Longrightarrow> runs j (expire_timer now i ts) = runs j ts"
  by (simp_all add: expire_timer_def find_modify expire_def runs_def timer_info_def timer_exists_def)

section \<open>The invariant\<close>

text \<open>
  The port is connecting exactly while its retry timer runs; its driver is started exactly
  while it is connected, and then the throughput timer runs; listeners and user were told the
  state it is in.
\<close>

definition port_ok :: "port \<Rightarrow> bool" where
  "port_ok p \<longleftrightarrow>
     m_timerId p \<noteq> m_throughputCalculatorTimerID p \<and>
     timer_exists (m_timerId p) (m_timers_ref p) \<and>
     timer_exists (m_throughputCalculatorTimerID p) (m_timers_ref p) \<and>
     (\<exists>x. m_proxy p = Some x \<and> (driver_started x \<longleftrightarrow> m_buttonState p = BS_CONNECTED)) \<and>
     (runs (m_timerId p) (m_timers_ref p) \<longleftrightarrow> m_buttonState p = BS_CONNECTING) \<and>
     (m_buttonState p = BS_CONNECTED \<longrightarrow> runs (m_throughputCalculatorTimerID p) (m_timers_ref p)) \<and>
     announced (port_calls p) = Some (state_event (m_buttonState p)) \<and>
     button_colour (port_calls p) = Some (state_colour p)"

text \<open>
  What can happen to a port: a click with the driver's answer, a loss of the connection (the
  driver is idle when it reports it), data, the two timers, new settings from the user's dialog
  or from the program's. The dialog can be accepted only while the port is closed.
\<close>

datatype port_op =
    Click bool string
  | Lost
  | Data bytes u32
  | RetryFires bool
  | WindowFires
  | Menu "(bool \<times> port_settings) option"
  | NewSettings port_settings

fun run_port_op :: "(rat \<Rightarrow> string) \<Rightarrow> int \<Rightarrow> port_op \<Rightarrow> port \<Rightarrow> port res" where
  "run_port_op fmt now (Click ok txt) p = onPortButtonClicked now ok txt p"
| "run_port_op fmt now Lost p =
     (case m_proxy p of
        Some x \<Rightarrow> if driver_started x
                  then Inr (port_onEvent now ENDPOINT_DISCONNECTED [] 0 (p\<lparr>m_proxy := Some (x\<lparr>driver_started := False\<rparr>)\<rparr>))
                  else Inr p
      | None \<Rightarrow> Inr p)"
| "run_port_op fmt now (Data bs n) p = Inr (port_onEvent now PROXY_DATA_RECEIVED bs n p)"
| "run_port_op fmt now (RetryFires ok) p =
     (if runs (m_timerId p) (m_timers_ref p)
      then port_onTimeout now ok fmt (m_timerId p) (on_timers (expire_timer now (m_timerId p)) p) else Inr p)"
| "run_port_op fmt now WindowFires p =
     (if runs (m_throughputCalculatorTimerID p) (m_timers_ref p)
      then port_onTimeout now False fmt (m_throughputCalculatorTimerID p)
             (on_timers (expire_timer now (m_throughputCalculatorTimerID p)) p) else Inr p)"
| "run_port_op fmt now (Menu dialog) p =
     (if m_buttonState p = BS_DISCONNECTED then onPortButtonContextMenuRequested dialog p else Inr p)"
| "run_port_op fmt now (NewSettings s) p = mapE snd (port_setSettings s p)"

lemma port_okI:
  "\<lbrakk>m_timerId q = m_timerId p; m_throughputCalculatorTimerID q = m_throughputCalculatorTimerID p; port_ok p;
    timer_exists (m_timerId p) (m_timers_ref q); timer_exists (m_throughputCalculatorTimerID p) (m_timers_ref q);
    \<exists>x. m_proxy q = Some x \<and> (driver_started x \<longleftrightarrow> m_buttonState q = BS_CONNECTED);
    runs (m_timerId p) (m_timers_ref q) \<longleftrightarrow> m_buttonState q = BS_CONNECTING;
    m_buttonState q = BS_CONNECTED \<Longrightarrow> runs (m_throughputCalculatorTimerID p) (m_timers_ref q);
    announced (port_calls q) = Some (state_event (m_buttonState q));
    button_colour (port_calls q) = Some (state_colour q)\<rbrakk> \<Longrightarrow> port_ok q"
  by (simp add: port_ok_def)

lemma state_colour_same [simp]:
  "state_colour (make_call c p) = state_colour p" "state_colour (notifyListeners e d p) = state_colour p"
  "state_colour (on_timers f p) = state_colour p"
  "state_colour (p\<lparr>m_throughputCalculator := t\<rparr>) = state_colour p" "state_colour (p\<lparr>m_proxy := x\<rparr>) = state_colour p"
  "state_colour (p\<lparr>m_settings := s\<rparr>) = state_colour p"
  "state_colour (setState st (make_call c p)) = state_colour (setState st p)"
  by (rule state_colour_cong; simp)+

lemma announcement_simps [simp]:
  "announcement (ShowErrorMessage m) = None" "announcement (SetThroughputText i t) = None"
  by (simp_all add: announcement_def)

lemma state_event_simps [simp]:
  "state_event BS_DISCONNECTED = EV_DISCONNECTED" "state_event BS_CONNECTING = EV_CONNECTING"
  "state_event BS_CONNECTED = EV_CONNECTED"
  by (simp_all add: state_event_def)

lemma scheduled_ok:
  assumes "m_timerId p \<noteq> m_throughputCalculatorTimerID p" "timer_exists (m_timerId p) (m_timers_ref p)"
    "timer_exists (m_throughputCalculatorTimerID p) (m_timers_ref p)"
    "m_proxy p = Some x" "\<not> driver_started x"
  shows "port_ok (scheduleConnectionTrial now p)" "onEthernetConnectionFailed now p = scheduleConnectionTrial now p"
  using assms by (simp_all add: port_ok_def scheduleConnectionTrial_def onEthernetConnectionFailed_def Let_def)

lemma tryConnect_cases:
  assumes "m_proxy p = Some x" "m_timerId p \<noteq> m_throughputCalculatorTimerID p"
    "timer_exists (m_timerId p) (m_timers_ref p)" "timer_exists (m_throughputCalculatorTimerID p) (m_timers_ref p)"
  obtains (connected) q where "tryConnect now ok p = Inr (True, q)" "ok" "port_ok q" "m_buttonState q = BS_CONNECTED"
      "m_timerId q = m_timerId p" "m_throughputCalculatorTimerID q = m_throughputCalculatorTimerID p"
  | (failed) "tryConnect now ok p = Inr (False, p\<lparr>m_proxy := Some (x\<lparr>driver_started := False\<rparr>)\<rparr>)" "\<not> ok"
proof (cases ok)
  case True
  let ?q = "snd (projr (tryConnect now ok p))"
  show ?thesis
    by (rule connected [of ?q]) (use True assms in \<open>simp_all add: tryConnect_def proxy_start_def proxy_stop_def Let_def port_ok_def\<close>)
next
  case False
  then show ?thesis
    by (intro failed) (use assms in \<open>simp_all add: tryConnect_def proxy_start_def proxy_stop_def Let_def\<close>)
qed

lemma configured_ok:
  assumes "port_ok p" "m_buttonState p = BS_DISCONNECTED" "handleNewSettings s p = Inr q"
  shows "port_ok q"
  using assms by (cases "new_proxy (default_name s)")
    (auto simp: handleNewSettings_def Let_def bindE_Inr_iff port_ok_def)

lemma window_ok:
  assumes "port_ok p" "runs (m_throughputCalculatorTimerID p) (m_timers_ref p)"
  shows "port_ok (onTimeout_throughput now fmt (on_timers (expire_timer now (m_throughputCalculatorTimerID p)) p))"
  using assms by (auto simp: port_ok_def onTimeout_throughput_def Let_def reportThroughput_def port_isOpened_def)

lemma click_ok:
  assumes "port_ok p" "onPortButtonClicked now ok txt p = Inr q"
  shows "port_ok q"
proof -
  from assms(1) obtain x where x: "m_proxy p = Some x" "driver_started x \<longleftrightarrow> m_buttonState p = BS_CONNECTED"
    and t: "m_timerId p \<noteq> m_throughputCalculatorTimerID p" "timer_exists (m_timerId p) (m_timers_ref p)"
      "timer_exists (m_throughputCalculatorTimerID p) (m_timers_ref p)"
    by (auto simp: port_ok_def)
  show ?thesis
  proof (cases "m_buttonState p")
    case BS_DISCONNECTED
    from x(1) t show ?thesis
    proof (cases rule: tryConnect_cases [where now = now and ok = ok])
      case (connected r)
      then show ?thesis using assms(2) x BS_DISCONNECTED by (simp add: onPortButtonClicked_def proxy_isStarted_def)
    next
      case failed
      let ?p = "p\<lparr>m_proxy := Some (x\<lparr>driver_started := False\<rparr>)\<rparr>"
      have "port_ok ?p" using assms(1) BS_DISCONNECTED by (simp add: port_ok_def)
      moreover have "port_ok (onSerialConnectionFailed txt ?p)"
        using assms(1) BS_DISCONNECTED by (simp add: port_ok_def onSerialConnectionFailed_def)
      moreover have "port_ok (onEthernetConnectionFailed now ?p)"
        using scheduled_ok [of ?p "x\<lparr>driver_started := False\<rparr>" now] t by simp
      ultimately show ?thesis
        using failed assms(2) x BS_DISCONNECTED
        by (auto simp: onPortButtonClicked_def proxy_isStarted_def split: if_splits)
    qed
  next
    case BS_CONNECTING
    then show ?thesis using assms x by (auto simp: onPortButtonClicked_def proxy_isStarted_def port_ok_def)
  next
    case BS_CONNECTED
    then show ?thesis using assms x by (auto simp: onPortButtonClicked_def proxy_isStarted_def proxy_stop_def port_ok_def)
  qed
qed

lemma retry_ok:
  assumes "port_ok p" "port_onTimeout now ok fmt (m_timerId p) (on_timers (expire_timer now (m_timerId p)) p) = Inr q"
  shows "port_ok q"
proof -
  let ?p = "on_timers (expire_timer now (m_timerId p)) p"
  from assms(1) obtain x where x: "m_proxy ?p = Some x"
    and t: "m_timerId ?p \<noteq> m_throughputCalculatorTimerID ?p" "timer_exists (m_timerId ?p) (m_timers_ref ?p)"
      "timer_exists (m_throughputCalculatorTimerID ?p) (m_timers_ref ?p)"
    by (auto simp: port_ok_def)
  from x t show ?thesis
  proof (cases rule: tryConnect_cases [where now = now and ok = ok])
    case (connected r)
    then have "q = r" using assms(2) t(1) by (simp add: port_onTimeout_def onTimeout_retry_def)
    with connected show ?thesis by simp
  next
    case failed
    let ?r = "scheduleConnectionTrial now (?p\<lparr>m_proxy := Some (x\<lparr>driver_started := False\<rparr>)\<rparr>)"
    have "m_throughputCalculatorTimerID ?r = m_throughputCalculatorTimerID p"
      by (simp add: scheduleConnectionTrial_def Let_def)
    then have "q = ?r" using failed assms(2) t(1) by (simp add: port_onTimeout_def onTimeout_retry_def)
    then show ?thesis using scheduled_ok(1) t by simp
  qed
qed

section \<open>Runs\<close>

fun run_port_ops :: "(rat \<Rightarrow> string) \<Rightarrow> (int \<times> port_op) list \<Rightarrow> port \<Rightarrow> port res" where
  "run_port_ops fmt [] p = Inr p"
| "run_port_ops fmt ((now, a) # ops) p = bindE (run_port_op fmt now a p) (run_port_ops fmt ops)"

lemma step_ok: "port_ok p \<Longrightarrow> run_port_op fmt now a p = Inr q \<Longrightarrow> port_ok q"
proof (cases a)
  case (Click ok msg)
  assume "port_ok p" "run_port_op fmt now a p = Inr q"
  with Click show ?thesis using click_ok by simp
next
  case Lost
  assume ok: "port_ok p" and step: "run_port_op fmt now a p = Inr q"
  then obtain x where x: "m_proxy p = Some x" by (auto simp: port_ok_def)
  let ?p = "notifyListeners EV_CONNECTING [] (setState BS_CONNECTING (p\<lparr>m_proxy := Some (x\<lparr>driver_started := False\<rparr>)\<rparr>))"
  have "port_ok (scheduleConnectionTrial now ?p)"
    by (rule scheduled_ok(1) [of _ "x\<lparr>driver_started := False\<rparr>"]) (use ok in \<open>simp_all add: port_ok_def\<close>)
  with ok step x Lost show ?thesis by (auto simp: port_onEvent_def split: if_splits)
next
  case (Data bs n)
  assume "port_ok p" "run_port_op fmt now a p = Inr q"
  with Data show ?thesis by (auto simp: port_onEvent_def port_ok_def)
next
  case (RetryFires ok)
  assume "port_ok p" "run_port_op fmt now a p = Inr q"
  with RetryFires show ?thesis using retry_ok by (auto split: if_splits)
next
  case WindowFires
  assume ok: "port_ok p" and step: "run_port_op fmt now a p = Inr q"
  have "m_throughputCalculatorTimerID p \<noteq> m_timerId p" using ok by (auto simp: port_ok_def)
  with ok step WindowFires show ?thesis using window_ok [OF ok] by (auto simp: port_onTimeout_def split: if_splits)
next
  case (Menu dialog)
  assume "port_ok p" "run_port_op fmt now a p = Inr q"
  with Menu show ?thesis
    using configured_ok by (auto simp: onPortButtonContextMenuRequested_def split: if_splits option.splits bool.splits)
next
  case (NewSettings s)
  assume "port_ok p" and step: "run_port_op fmt now a p = Inr q"
  with NewSettings show ?thesis
    using configured_ok [of p s] by (cases "handleNewSettings s p") (auto simp: port_setSettings_def split: if_splits)
qed


lemma create_ok:
  assumes "timers_ok ts" "m_last_timer_id ts < 0xFFFFFFF0" "isTimeoutValid window"
    "port_create i b window ts bg txt = Inr p"
  shows "port_ok p \<and> m_buttonState p = BS_DISCONNECTED"
proof -
  let ?i1 = "next_timer_id (m_last_timer_id ts)"
  have lt: "m_last_timer_id ts < 0xFFFFFFFF" using assms(2) by (rule less_trans) simp
  have v: "isTimeoutValid DEFAULT_CONNECT_RETRY_PERIOD"
    by (simp add: isTimeoutValid_def DEFAULT_CONNECT_RETRY_PERIOD_def)
  let ?ts1 = "snd (createTimer (Some i) DEFAULT_CONNECT_RETRY_PERIOD ts)"
  have ts1: "timers_ok ?ts1" using createTimer_ok [OF assms(1) lt] .
  have id1: "fst (createTimer (Some i) DEFAULT_CONNECT_RETRY_PERIOD ts) = ?i1" "m_last_timer_id ?ts1 = ?i1"
    using v by (simp_all add: createTimer_def Let_def)
  have "unat ?i1 \<le> unat (m_last_timer_id ts) + 2" using next_timer_id_bound [OF lt] .
  moreover have "unat (m_last_timer_id ts) < 0xFFFFFFF0" using assms(2) by (simp add: word_less_nat_alt)
  ultimately have lt1: "?i1 < 0xFFFFFFFF" by (simp add: word_less_nat_alt)
  let ?i2 = "next_timer_id ?i1"
  let ?ts2 = "snd (createTimer (Some i) window ?ts1)"
  have id2: "fst (createTimer (Some i) window ?ts1) = ?i2"
    using assms(3) id1 by (simp add: createTimer_def Let_def)
  have ne: "?i1 \<noteq> ?i2" using next_timer_id_fresh(1) [OF lt1] by simp
  have new1: "timer_info ?i1 ?ts1 = Some (False, DEFAULT_CONNECT_RETRY_PERIOD)"
    using create_info(1) [OF assms(1) lt v, of i] id1 by simp
  have new2: "timer_info ?i2 ?ts2 = Some (False, window)"
    using create_info(1) [OF ts1 _ assms(3), of i] id1 id2 lt1 by simp
  have keep1: "timer_info ?i1 ?ts2 = Some (False, DEFAULT_CONNECT_RETRY_PERIOD)"
    using create_info(2) [OF ts1 _ assms(3), of ?i1 i] id1 id2 lt1 ne new1 by simp
  note none = timer_info_None [symmetric]
  show ?thesis
    using assms(4) id1 id2 ne new1 new2 keep1
    by (auto simp: port_create_def Let_def case_prod_unfold handleNewSettings_def default_port_settings_def
        default_name_def new_proxy_def settingsString_def default_serial_settings_def port_ok_def runs_def
        timer_exists_def baudrate_toName_def name_at_def baudrates_def g_baudrates_names_def
        simp del: timer_info_None)
qed

lemma settingsString_total:
  "port_type s = SERIAL \<longrightarrow> baudRate (serialSettings s) \<noteq> BAUDRATE_MAX \<Longrightarrow> \<exists>t. settingsString s = Inr t"
  using enum_names_all(1) [of "baudRate (serialSettings s)"]
  by (cases "port_type s") (auto simp: settingsString_def)

definition named_baudrate :: "port_settings \<Rightarrow> bool" where
  "named_baudrate s \<longleftrightarrow> port_type s = SERIAL \<longrightarrow> baudRate (serialSettings s) \<noteq> BAUDRATE_MAX"

lemma handleNewSettings_total: "named_baudrate s \<Longrightarrow> \<exists>q. handleNewSettings s p = Inr q"
  using settingsString_total [of "default_name s"]
  by (auto simp: handleNewSettings_def Let_def default_name_def named_baudrate_def)

lemma handleNewSettings_fields:
  assumes "handleNewSettings s p = Inr q"
  shows "m_settings q = default_name s" "m_buttonState q = m_buttonState p" "m_timerId q = m_timerId p"
    "m_timers_ref q = m_timers_ref p" "m_throughputCalculatorTimerID q = m_throughputCalculatorTimerID p"
    "port_type s \<noteq> PORT_TYPE_MAX \<Longrightarrow> m_proxy q = map_option (\<lambda>k. \<lparr>kind = k, driver_started = False\<rparr>) (new_proxy (default_name s))"
  using assms
  by (cases "port_type s"; auto simp: handleNewSettings_def Let_def bindE_Inr_iff new_proxy_def default_name_def)+

lemma default_name_type [simp]: "port_type (default_name s) = port_type s"
  by (simp add: default_name_def)

fun op_ok :: "port_op \<Rightarrow> bool" where
  "op_ok (Menu (Some (True, s))) = named_baudrate s"
| "op_ok (NewSettings s) = named_baudrate s"
| "op_ok _ = True"

lemma step_total:
  assumes "port_ok p" "op_ok a"
  shows "\<exists>q. run_port_op fmt now a p = Inr q"
proof -
  obtain x where x: "m_proxy p = Some x" using assms(1) by (auto simp: port_ok_def)
  have try_total: "m_proxy r = Some y \<Longrightarrow> \<exists>c q. tryConnect now ok r = Inr (c, q)" for r y ok
    by (cases ok) (auto simp: tryConnect_def proxy_start_def Let_def)
  show ?thesis
  proof (cases a)
    case (Click ok msg)
    obtain c q where "tryConnect now ok p = Inr (c, q)" using try_total [OF x] by blast
    then show ?thesis using x Click by (auto simp: onPortButtonClicked_def)
  next
    case (RetryFires ok)
    obtain c q where "tryConnect now ok (on_timers (expire_timer now (m_timerId p)) p) = Inr (c, q)"
      using try_total [of "on_timers (expire_timer now (m_timerId p)) p" x] x by fastforce
    then show ?thesis using RetryFires by (auto simp: port_onTimeout_def onTimeout_retry_def)
  next
    case WindowFires
    have "m_throughputCalculatorTimerID p \<noteq> m_timerId p" using assms(1) by (auto simp: port_ok_def)
    with WindowFires show ?thesis by (simp add: port_onTimeout_def)
  next
    case (Menu dialog)
    show ?thesis
    proof (cases "dialog = None \<or> (\<exists>s. dialog = Some (False, s))")
      case False
      then obtain s where d: "dialog = Some (True, s)" by (metis (full_types) not_None_eq surj_pair)
      then have "\<exists>q. handleNewSettings s p = Inr q" using Menu assms(2) by (intro handleNewSettings_total) simp
      then show ?thesis using Menu d by (auto simp: onPortButtonContextMenuRequested_def)
    qed (use Menu in \<open>auto simp: onPortButtonContextMenuRequested_def\<close>)
  next
    case (NewSettings s)
    then have "\<exists>q. handleNewSettings s p = Inr q" using assms(2) by (intro handleNewSettings_total) simp
    then show ?thesis using NewSettings by (auto simp: port_setSettings_def)
  qed (use x in auto)
qed

section \<open>Properties\<close>


lemma example_port:
  "\<exists>p. port_create 1 7 1000 timers_init 0 0xFFFFFF = Inr p \<and> port_ok p \<and> m_buttonState p = BS_DISCONNECTED \<and>
     m_proxy p = Some \<lparr>kind = SerialProxy default_serial_settings, driver_started = False\<rparr>"
proof -
  have v: "isTimeoutValid 1000" by (simp add: isTimeoutValid_def)
  have "\<exists>p. port_create 1 7 1000 timers_init 0 0xFFFFFF = Inr p \<and>
      m_proxy p = Some \<lparr>kind = SerialProxy default_serial_settings, driver_started = False\<rparr>"
    by (simp add: port_create_def Let_def case_prod_unfold handleNewSettings_def default_port_settings_def
        default_name_def new_proxy_def settingsString_def default_serial_settings_def
        baudrate_toName_def name_at_def baudrates_def g_baudrates_names_def)
  then show ?thesis
    using create_ok [of timers_init 1000 1 7 0 "0xFFFFFF"] v by (auto simp: timers_init_def timers_ok_def)
qed

definition example_format :: "rat \<Rightarrow> string" where
  "example_format q = ''0.00''"




text \<open>
  C2. A connecting port keeps trying and gets through: after any number of failed attempts,
  each a period apart, the first one the driver accepts makes it connected.
\<close>

theorem retries_until_connected:
  "\<lbrakk>port_ok p; m_buttonState p = BS_CONNECTING\<rbrakk> \<Longrightarrow>
   \<exists>q. run_port_ops fmt (map (\<lambda>t. (t, RetryFires False)) moments @ [(now, RetryFires True)]) p = Inr q \<and>
       m_buttonState q = BS_CONNECTED \<and> announced (port_calls q) = Some EV_CONNECTED"
proof (induction moments arbitrary: p)
  case Nil
  then have run: "runs (m_timerId p) (m_timers_ref p)" "m_timerId p \<noteq> m_throughputCalculatorTimerID p"
    by (auto simp: port_ok_def)
  let ?p = "on_timers (expire_timer now (m_timerId p)) p"
  from Nil obtain x where x: "m_proxy ?p = Some x"
    and t: "m_timerId ?p \<noteq> m_throughputCalculatorTimerID ?p" "timer_exists (m_timerId ?p) (m_timers_ref ?p)"
      "timer_exists (m_throughputCalculatorTimerID ?p) (m_timers_ref ?p)"
    by (auto simp: port_ok_def)
  from x t obtain q where "tryConnect now True ?p = Inr (True, q)" "port_ok q" "m_buttonState q = BS_CONNECTED"
      "m_throughputCalculatorTimerID q = m_throughputCalculatorTimerID p"
    by (cases rule: tryConnect_cases [where now = now and ok = True]) auto
  then show ?case using run by (auto simp: port_onTimeout_def onTimeout_retry_def port_ok_def)
next
  case (Cons t moments)
  then have run: "runs (m_timerId p) (m_timers_ref p)" "m_timerId p \<noteq> m_throughputCalculatorTimerID p"
    by (auto simp: port_ok_def)
  obtain x where x: "m_proxy p = Some x" using Cons.prems by (auto simp: port_ok_def)
  obtain r where r: "run_port_op fmt t (RetryFires False) p = Inr r"
    using step_total [OF Cons.prems(1), of "RetryFires False"] by auto
  have "m_buttonState r = BS_CONNECTING"
    using r run x
    by (auto simp: port_onTimeout_def onTimeout_retry_def tryConnect_def proxy_start_def Let_def
        scheduleConnectionTrial_def)
  from Cons.IH [OF step_ok [OF Cons.prems(1) r] this] r show ?case by simp
qed

theorem retries_until_connected_witness:
  "\<exists>p q. run_port_ops example_format [(9, RetryFires False), (14, RetryFires False), (19, RetryFires True)] p = Inr q \<and>
     m_buttonState p = BS_CONNECTING \<and> m_buttonState q = BS_CONNECTED"
proof -
  let ?s = "default_port_settings\<lparr>port_type := ETHERNET\<rparr>"
  obtain p where p: "port_ok p" "m_buttonState p = BS_DISCONNECTED" using example_port by blast
  obtain q where q: "run_port_op example_format 1 (NewSettings ?s) p = Inr q"
    using step_total [OF p(1), of "NewSettings ?s"] by (auto simp: named_baudrate_def)
  have okq: "port_ok q" using step_ok [OF p(1) q] .
  have "m_buttonState q = BS_DISCONNECTED \<and> port_type (m_settings q) = ETHERNET"
    using q p(2) handleNewSettings_fields [of ?s p q] by (cases "handleNewSettings ?s p") (auto simp: port_setSettings_def)
  moreover from this okq have "\<exists>r. run_port_op example_format 4 (Click False []) q = Inr r \<and> m_buttonState r = BS_CONNECTING"
    by (auto simp: port_ok_def onPortButtonClicked_def proxy_isStarted_def tryConnect_def proxy_start_def
        onEthernetConnectionFailed_def Let_def)
  ultimately obtain r where r: "run_port_op example_format 4 (Click False []) q = Inr r" "m_buttonState r = BS_CONNECTING" by blast
  from retries_until_connected [OF step_ok [OF okq r(1)] r(2), of example_format "[9, 14]" 19] r(2) show ?thesis
    by (simp only: list.map append.simps) blast
qed

text \<open>
  A loss is announced before the driver is idle. A click in between takes the branch of a
  started driver and closes the port without stopping the retry timer; when that expires, the
  port connects again although the user closed it.
\<close>

theorem click_during_loss_reconnects:
  "\<lbrakk>port_ok p; m_buttonState p = BS_CONNECTED\<rbrakk> \<Longrightarrow>
   \<exists>q r. onPortButtonClicked later ok msg (port_onEvent now ENDPOINT_DISCONNECTED [] 0 p) = Inr q \<and>
     m_buttonState q = BS_DISCONNECTED \<and> runs (m_timerId q) (m_timers_ref q) \<and>
     port_onTimeout expiry True fmt (m_timerId q) (on_timers (expire_timer expiry (m_timerId q)) q) = Inr r \<and>
     m_buttonState r = BS_CONNECTED"
proof -
  assume a: "port_ok p" "m_buttonState p = BS_CONNECTED"
  then obtain x where x: "m_proxy p = Some x" "driver_started x" by (auto simp: port_ok_def)
  let ?l = "port_onEvent now ENDPOINT_DISCONNECTED [] 0 p"
  define q where "q = notifyListeners EV_DISCONNECTED [] (setState BS_DISCONNECTED (?l\<lparr>m_proxy := Some (proxy_stop x)\<rparr>))"
  have t: "m_timerId p \<noteq> m_throughputCalculatorTimerID p" "timer_exists (m_timerId p) (m_timers_ref p)"
    "timer_exists (m_throughputCalculatorTimerID p) (m_timers_ref p)"
    using a(1) by (auto simp: port_ok_def)
  have l: "m_proxy ?l = Some x" "m_timerId ?l = m_timerId p"
    "m_throughputCalculatorTimerID ?l = m_throughputCalculatorTimerID p"
    "runs (m_timerId p) (m_timers_ref ?l)"
    "timer_exists (m_timerId p) (m_timers_ref ?l)" "timer_exists (m_throughputCalculatorTimerID p) (m_timers_ref ?l)"
    using x t by (simp_all add: port_onEvent_def scheduleConnectionTrial_def Let_def)
  have click: "onPortButtonClicked later ok msg ?l = Inr q"
    using l(1) x(2) by (simp add: onPortButtonClicked_def proxy_isStarted_def q_def)
  have q: "m_buttonState q = BS_DISCONNECTED" "m_timerId q = m_timerId p" "runs (m_timerId p) (m_timers_ref q)"
    "m_proxy q = Some (proxy_stop x)" "m_throughputCalculatorTimerID q = m_throughputCalculatorTimerID p"
    "timer_exists (m_timerId p) (m_timers_ref q)" "timer_exists (m_throughputCalculatorTimerID p) (m_timers_ref q)"
    using l by (simp_all add: q_def)
  let ?q = "on_timers (expire_timer expiry (m_timerId q)) q"
  have "m_proxy ?q = Some (proxy_stop x)" "m_timerId ?q \<noteq> m_throughputCalculatorTimerID ?q"
    "timer_exists (m_timerId ?q) (m_timers_ref ?q)" "timer_exists (m_throughputCalculatorTimerID ?q) (m_timers_ref ?q)"
    using q t by simp_all
  then obtain r where "tryConnect expiry True ?q = Inr (True, r)" "m_buttonState r = BS_CONNECTED"
      "m_throughputCalculatorTimerID r = m_throughputCalculatorTimerID p"
    using q(5) by (cases rule: tryConnect_cases [where now = expiry and ok = True]) auto
  then have "port_onTimeout expiry True fmt (m_timerId q) ?q = Inr r"
    using q t by (simp add: port_onTimeout_def onTimeout_retry_def)
  with click q \<open>m_buttonState r = BS_CONNECTED\<close> show ?thesis by metis
qed

theorem click_during_loss_reconnects_witness:
  "\<exists>p q r. m_buttonState p = BS_CONNECTED \<and>
     onPortButtonClicked 7 True [] (port_onEvent 6 ENDPOINT_DISCONNECTED [] 0 p) = Inr q \<and>
     m_buttonState q = BS_DISCONNECTED \<and>
     port_onTimeout 99 True example_format (m_timerId q) (on_timers (expire_timer 99 (m_timerId q)) q) = Inr r \<and> m_buttonState r = BS_CONNECTED"
proof -
  obtain p where p: "port_ok p" "m_buttonState p = BS_DISCONNECTED" using example_port by blast
  then obtain q where q: "run_port_op example_format 1 (Click True []) p = Inr q" "m_buttonState q = BS_CONNECTED"
    by (auto simp: port_ok_def onPortButtonClicked_def proxy_isStarted_def tryConnect_def proxy_start_def Let_def)
  from click_during_loss_reconnects [OF step_ok [OF p(1) q(1)] q(2), of 7 True "[]" 6 99 example_format] q(2) show ?thesis by blast
qed

text \<open>
  Data can be written to a serial or a socket port, but writing to a port that runs a
  command goes through a null pointer, whatever its state.
\<close>

theorem write_to_command_port:
  "\<lbrakk>handleNewSettings s p = Inr q\<rbrakk> \<Longrightarrow>
   (port_type s = COMMAND \<longrightarrow> port_write f g data n q = Inl NullDeref) \<and>
   (port_type s = SERIAL \<longrightarrow> port_write f g data n q = Inr (f data n)) \<and>
   (port_type s = ETHERNET \<longrightarrow> port_write f g data n q = Inr (g data n))"
  by (auto simp: handleNewSettings_def Let_def bindE_Inr_iff port_write_def proxy_write_def new_proxy_def default_name_def)

theorem write_to_command_port_witness:
  "\<exists>p q. handleNewSettings (default_port_settings\<lparr>port_type := COMMAND, port_command := ''ls''\<rparr>) p = Inr q \<and>
     port_write (\<lambda>d n. True) (\<lambda>d n. True) [1] 1 q = Inl NullDeref"
proof -
  let ?s = "default_port_settings\<lparr>port_type := COMMAND, port_command := ''ls''\<rparr>"
  have "\<exists>q. handleNewSettings ?s p = Inr q" for p by (rule handleNewSettings_total) (simp add: named_baudrate_def)
  then obtain p q where q: "handleNewSettings ?s p = Inr q" by blast
  from write_to_command_port [OF q, of "\<lambda>d n. True" "\<lambda>d n. True" "[1]" 1] have "port_write (\<lambda>d n. True) (\<lambda>d n. True) [1] 1 q = Inl NullDeref" by simp
  with q show ?thesis by blast
qed

section \<open>Persistence\<close>

definition all_named :: "port \<Rightarrow> bool" where
  "all_named p \<longleftrightarrow>
     baudRate (serialSettings (m_settings p)) \<noteq> BAUDRATE_MAX \<and> dataBits (serialSettings (m_settings p)) \<noteq> DATA_BIT_MAX \<and>
     parityBits (serialSettings (m_settings p)) \<noteq> PARITY_BIT_MAX \<and> stopBits (serialSettings (m_settings p)) \<noteq> STOP_BIT_MAX"

definition named_as :: "port_settings \<Rightarrow> string \<Rightarrow> string \<Rightarrow> string \<Rightarrow> string \<Rightarrow> bool" where
  "named_as s b d r t \<longleftrightarrow>
     baudrate_toName (baudRate (serialSettings s)) = Inr b \<and> baudrate_fromName b = baudRate (serialSettings s) \<and>
     databits_toName (dataBits (serialSettings s)) = Inr d \<and> databits_fromName d = dataBits (serialSettings s) \<and>
     paritybits_toName (parityBits (serialSettings s)) = Inr r \<and> paritybits_fromName r = parityBits (serialSettings s) \<and>
     stopbits_toName (stopBits (serialSettings s)) = Inr t \<and> stopbits_fromName t = stopBits (serialSettings s)"

lemma all_named_names: "all_named p \<Longrightarrow> \<exists>b d r t. named_as (m_settings p) b d r t"
  unfolding all_named_def named_as_def
  using enum_names_all(1) [of "baudRate (serialSettings (m_settings p))"]
    enum_names_all(2) [of "dataBits (serialSettings (m_settings p))"]
    enum_names_all(3) [of "parityBits (serialSettings (m_settings p))"]
    enum_names_all(4) [of "stopBits (serialSettings (m_settings p))"]
  by metis

text \<open>The items of a port whose enumerators have the names \<open>b\<close>, \<open>d\<close>, \<open>r\<close> and \<open>t\<close>.\<close>

definition port_items :: "port_settings \<Rightarrow> string \<Rightarrow> string \<Rightarrow> string \<Rightarrow> string \<Rightarrow> items" where
  "port_items s b d r t =
     [(''ipAddress'', ip_address s), (''command'', port_command s), (''ipPort'', to_string (unat (ip_port s))),
      (''portId'', to_string (unat (port_id s))), (''portName'', port_name s), (''baudRate'', b), (''dataBits'', d),
      (''parityBits'', r), (''stopBits'', t), (''device'', device (serialSettings s)),
      (''mode'', to_string (unat (serial_mode (serialSettings s)))), (''traceColor'', to_string (unat (trace_color s))),
      (''fontColor'', to_string (unat (font_color s))), (''type'', port_type_toName (port_type s))]"

lemma port_writes_items:
  "named_as (m_settings p) b d r t \<Longrightarrow> port_onPersistenceWrite p = Inr (port_items (m_settings p) b d r t)"
proof -
  assume n: "named_as (m_settings p) b d r t"
  then have "\<exists>l. settingsString (m_settings p) = Inr l"
    by (cases "port_type (m_settings p)") (simp_all add: named_as_def settingsString_def)
  then obtain l where "settingsString (m_settings p) = Inr l" ..
  with n show ?thesis
    by (simp add: port_onPersistenceWrite_def Let_def named_as_def writeItem_str_def writeItem_num_def port_items_def)
qed

lemma settings_rebuilt [simp]:
  "\<lparr>device = device a, baudRate = baudRate a, serial_mode = serial_mode a, parityBits = parityBits a,
     stopBits = stopBits a, dataBits = dataBits a\<rparr> = (a :: serial_settings)"
  "\<lparr>port_id = port_id s, port_type = port_type s, port_name = port_name s, serialSettings = serialSettings s,
     ip_address = ip_address s, ip_port = ip_port s, port_command = port_command s, trace_color = trace_color s,
     font_color = font_color s\<rparr> = (s :: port_settings)"
  by simp_all

lemma port_reads_items:
  assumes "named_as (m_settings p) b d r t" "named_as (m_settings q) b' d' r' t'"
  shows "port_onPersistenceRead (port_items (m_settings p) b d r t) q = handleNewSettings (m_settings p) q"
  using assms
  by (simp add: port_onPersistenceRead_def Let_def named_as_def port_items_def stoll_word stoll_byte)

interpretation port_module: keyed_module port_onPersistenceWrite port_onPersistenceRead
  "\<lambda>p. default_name (m_settings p)" all_named "\<lambda>p q. all_named q"
proof unfold_locales
  fix p assume "all_named p"
  then obtain b d r t where "named_as (m_settings p) b d r t" using all_named_names by blast
  then show "\<exists>items. port_onPersistenceWrite p = Inr items \<and> items \<noteq> [] \<and> distinct (map fst items)"
    by (simp add: port_writes_items port_items_def)
next
  fix items items' :: items and p
  assume "map_of items = map_of items'"
  then show "port_onPersistenceRead items p = port_onPersistenceRead items' p"
    by (simp only: port_onPersistenceRead_def readItem_map_of)
next
  fix p q items
  assume a: "all_named p" "all_named q" "port_onPersistenceWrite p = Inr items"
  obtain b d r t where n: "named_as (m_settings p) b d r t" using all_named_names [OF a(1)] by blast
  obtain b' d' r' t' where "named_as (m_settings q) b' d' r' t'" using all_named_names [OF a(2)] by blast
  then have r: "port_onPersistenceRead items q = handleNewSettings (m_settings p) q"
    using port_reads_items [OF n] a(3) port_writes_items [OF n] by simp
  moreover have "\<exists>q'. handleNewSettings (m_settings p) q = Inr q'"
    using a(1) by (intro handleNewSettings_total) (simp add: named_baudrate_def all_named_def)
  then obtain q' where "handleNewSettings (m_settings p) q = Inr q'" ..
  ultimately show "\<exists>q'. port_onPersistenceRead items q = Inr q' \<and> default_name (m_settings q') = default_name (m_settings p)"
    using handleNewSettings_fields(1) by (fastforce simp: default_name_def)
qed

text \<open>
  The settings of a port survive: saved to a file, loaded and restored into any other
  port, they are back, whatever the order of the keys in the file (a port without a name
  comes back with its default name).
\<close>

theorem port_settings_survive:
  "\<lbrakk>all_named p; all_named q;
    \<And>doc. collect_settings [module_listener name port_onPersistenceWrite port_onPersistenceRead] p = Inr doc \<Longrightarrow>
      parse (dump doc) = Inr doc\<rbrakk> \<Longrightarrow>
   \<exists>files' doc q'.
     persistence_save dump True path [module_listener name port_onPersistenceWrite port_onPersistenceRead] p files =
       (Inr True, files') \<and>
     persistence_loadFile parse path files' JNull = Inr (True, doc) \<and>
     persistence_restore [module_listener name port_onPersistenceWrite port_onPersistenceRead] (doc, q) = Inr (doc, q') \<and>
     default_name (m_settings q') = default_name (m_settings p)"
  by (rule port_module.save_load_restore)

theorem port_settings_survive_witness:
  "\<exists>p saved_doc files' doc q'. m_buttonState p = BS_DISCONNECTED \<and>
     persistence_save (\<lambda>d. ''{}'') True ''cfg''
       [module_listener ''PORT'' port_onPersistenceWrite port_onPersistenceRead] p Map.empty = (Inr True, files') \<and>
     persistence_loadFile (\<lambda>t. Inr saved_doc) ''cfg'' files' JNull = Inr (True, doc) \<and>
     persistence_restore [module_listener ''PORT'' port_onPersistenceWrite port_onPersistenceRead] (doc, p) = Inr (doc, q') \<and>
     default_name (m_settings q') = default_name (m_settings p)"
proof -
  obtain p where p: "all_named p" "m_buttonState p = BS_DISCONNECTED"
    using that [of "undefined\<lparr>m_settings := default_port_settings, m_buttonState := BS_DISCONNECTED\<rparr>"]
    by (simp add: all_named_def default_port_settings_def default_serial_settings_def)
  obtain saved_doc where
    saved_doc: "collect_settings [module_listener ''PORT'' port_onPersistenceWrite port_onPersistenceRead] p = Inr saved_doc"
    using collect_settings_doc [of "[module_listener ''PORT'' port_onPersistenceWrite port_onPersistenceRead]" p]
      port_module.listener_writes [OF p(1)] by auto
  have "(\<lambda>t. Inr saved_doc) ((\<lambda>d. ''{}'') d) = Inr d"
    if "collect_settings [module_listener ''PORT'' port_onPersistenceWrite port_onPersistenceRead] p = Inr d" for d
    using saved_doc that by simp
  from port_settings_survive [OF p(1) p(1), where dump = "\<lambda>d. ''{}''" and parse = "\<lambda>t. Inr saved_doc" and
      name = "''PORT''" and path = "''cfg''" and files = Map.empty, OF this] p(2)
  show ?thesis by blast
qed

lemma read_settings:
  assumes "port_onPersistenceRead items p = Inr q" "map_of items ''baudRate'' = Some b"
  shows "\<exists>s. handleNewSettings s p = Inr q \<and> baudRate (serialSettings s) = baudrate_fromName b \<and>
    port_type s = (case map_of items ''type'' of None \<Rightarrow> port_type (m_settings p) | Some t \<Rightarrow> port_type_fromName t)"
proof -
  have r: "snd (readItem_str items k d) = (case map_of items k of None \<Rightarrow> d | Some v \<Rightarrow> v)" for k d
    by (simp add: readItem_str_map_of split: option.split)
  from assms(1) obtain s where s: "handleNewSettings s p = Inr q"
    "\<exists>n. baudRate (serialSettings s) = baudrate_fromName (snd (readItem_str items ''baudRate'' n))"
    "port_type s = port_type_fromName (snd (readItem_str items ''type'' (port_type_toName (port_type (m_settings p)))))"
    by (force simp: port_onPersistenceRead_def Let_def bindE_Inr_iff intro: that)
  with assms(2) show ?thesis by (auto simp: r split: option.splits)
qed

lemma unknown_baudrate [simp]:
  "b \<notin> set g_baudrates_names \<Longrightarrow> baudrate_toName (baudrate_fromName b) = Inl OutOfBounds"
  by (rule enum_names_unknown(1))

lemma serial_needs_baudrate:
  "handleNewSettings s p = Inr q \<Longrightarrow> port_type s = SERIAL \<Longrightarrow>
   baudrate_toName (baudRate (serialSettings s)) \<noteq> Inl e"
  by (cases "port_name s = []") (auto simp: handleNewSettings_def Let_def settingsString_def default_name_def)

text \<open>
  A text in the settings file that is no name of a baud rate reads as \<open>BAUDRATE_MAX\<close>.
  Reading it for a serial port does not succeed; read for another port, it makes the next save
  read behind the end of the table of names.
\<close>

theorem unknown_name_breaks_next_save:
  "\<lbrakk>map_of items ''baudRate'' = Some b; b \<notin> set g_baudrates_names\<rbrakk> \<Longrightarrow>
   (\<forall>q. port_onPersistenceRead items p = Inr q \<longrightarrow> port_onPersistenceWrite q = Inl OutOfBounds) \<and>
   (map_of items ''type'' = Some ''SERIAL'' \<longrightarrow> (\<exists>e. port_onPersistenceRead items p = Inl e))"
proof (intro conjI allI impI)
  fix q
  assume a: "map_of items ''baudRate'' = Some b" "b \<notin> set g_baudrates_names" "port_onPersistenceRead items p = Inr q"
  from read_settings [OF a(3,1)] obtain s where s: "handleNewSettings s p = Inr q" "baudRate (serialSettings s) = baudrate_fromName b"
    by blast
  then have "baudrate_toName (baudRate (serialSettings (m_settings q))) = Inl OutOfBounds"
    using a(2) handleNewSettings_fields(1) [OF s(1)] by (simp add: default_name_def)
  then show "port_onPersistenceWrite q = Inl OutOfBounds"
    by (cases "port_type (m_settings q)") (simp_all add: port_onPersistenceWrite_def Let_def settingsString_def)
next
  assume a: "map_of items ''baudRate'' = Some b" "b \<notin> set g_baudrates_names" "map_of items ''type'' = Some ''SERIAL''"
  have "port_type_fromName ''SERIAL'' = SERIAL" using port_type_roundtrip [of SERIAL] by code_simp
  then have "port_onPersistenceRead items p \<noteq> Inr q" for q
    using read_settings [of items p q, OF _ a(1)] serial_needs_baudrate [of _ p q OutOfBounds] a
    by (fastforce simp: enum_names_unknown)
  then show "\<exists>e. port_onPersistenceRead items p = Inl e" by (cases "port_onPersistenceRead items p") auto
qed

theorem unknown_name_breaks_next_save_witness:
  "\<exists>p e. port_onPersistenceRead [(''baudRate'', ''BR_7''), (''type'', ''SERIAL'')] p = Inl e"
  using unknown_name_breaks_next_save [of "[(''baudRate'', ''BR_7''), (''type'', ''SERIAL'')]" "''BR_7''"]
  by (simp add: g_baudrates_names_def)

end
