(* ===== verification/TraceFilter.thy ===== *)
theory TraceFilter
  imports Persistence
begin

text \<open>
  \<open>sw/MainApplication/source/TraceFilter.cpp\<close>: one trace filter, its line of text in the
  window, its settings and the regular expression it matches with. Regular expressions are
  \<open>std::regex\<close>: \<open>valid\<close> says which patterns its constructor accepts and \<open>search\<close> is
  \<open>std::regex_search\<close>. The window's filter lines are part of the state: their texts and
  whether the user can type in them. Dialogs and the palette are parameters.
\<close>

section \<open>State\<close>

record filter_settings =
  filter_id :: u8
  regex :: string
  background :: u32
  font :: u32

text \<open>The calls to the GUI controller that only colour the window.\<close>

datatype filter_call =
    ButtonBackground u32 u32
  | ButtonFont u32 u32
  | LineBackground u8 u32
  | LineFont u8 u32
  | ButtonCheckable u32 bool
  | ButtonChecked u32 bool

record trace_filter =
  m_button_id :: u32
  m_regex :: "string option"
  filter_settings :: filter_settings
  m_user_defined :: bool
  m_is_active :: bool
  line_text :: "u8 \<Rightarrow> string"
  line_enabled :: "u8 \<Rightarrow> bool"
  filter_calls :: "filter_call list"

text \<open>What the GUI controller answers: button colours, and the palette's base and text colours.\<close>

record colours =
  background_colour :: u32
  text_colour :: u32
  palette_base :: u32
  palette_text :: u32

definition c_str :: "string \<Rightarrow> string" where
  "c_str s = takeWhile (\<lambda>c. c \<noteq> CHR 0x00) s"

section \<open>Operations\<close>

definition filter_call :: "filter_call \<Rightarrow> trace_filter \<Rightarrow> trace_filter" where
  "filter_call c f = f\<lparr>filter_calls := filter_calls f @ [c]\<rparr>"

definition filteringActive :: "trace_filter \<Rightarrow> bool" where
  "filteringActive f = m_is_active f"

definition filter_setButtonState :: "colours \<Rightarrow> bool \<Rightarrow> trace_filter \<Rightarrow> trace_filter" where
  "filter_setButtonState cs active f =
     (if active
      then filter_call (ButtonFont (m_button_id f) 0) (filter_call (ButtonBackground (m_button_id f) 0x00FF00) f)
      else filter_call (ButtonFont (m_button_id f) (text_colour cs))
             (filter_call (ButtonBackground (m_button_id f) (background_colour cs)) f))"

definition setLineEditColor :: "u32 \<Rightarrow> u32 \<Rightarrow> trace_filter \<Rightarrow> trace_filter" where
  "setLineEditColor background_color font_color f =
     filter_call (LineFont (filter_id (filter_settings f)) font_color)
       (filter_call (LineBackground (filter_id (filter_settings f)) background_color) f)"

definition getTraceFilter :: "u8 \<Rightarrow> trace_filter \<Rightarrow> string" where
  "getTraceFilter i f = line_text f i"

definition setTraceFilter :: "u8 \<Rightarrow> string \<Rightarrow> trace_filter \<Rightarrow> trace_filter" where
  "setTraceFilter i text f = f\<lparr>line_text := (line_text f)(i := c_str text)\<rparr>"

definition setTraceFilterEnabled :: "u8 \<Rightarrow> bool \<Rightarrow> trace_filter \<Rightarrow> trace_filter" where
  "setTraceFilterEnabled i enabled f = f\<lparr>line_enabled := (line_enabled f)(i := enabled)\<rparr>"

text \<open>\<open>m_regex = std::regex(pattern)\<close>.\<close>

definition compile_regex :: "(string \<Rightarrow> bool) \<Rightarrow> string \<Rightarrow> trace_filter \<Rightarrow> trace_filter res" where
  "compile_regex valid pattern f =
     (if valid pattern then Inr (f\<lparr>m_regex := Some pattern\<rparr>) else Inl RegexError)"

definition filter_handleNewSettings :: "(string \<Rightarrow> bool) \<Rightarrow> filter_settings \<Rightarrow> trace_filter \<Rightarrow> trace_filter res" where
  "filter_handleNewSettings valid settings f =
     (let f1 = setLineEditColor (background settings) (font settings) (f\<lparr>filter_settings := settings\<rparr>);
          f2 = setTraceFilter (filter_id settings) (regex settings) f1
      in compile_regex valid (regex settings) f2)"

definition filter_create :: "colours \<Rightarrow> u8 \<Rightarrow> u32 \<Rightarrow> (u8 \<Rightarrow> string) \<Rightarrow> (u8 \<Rightarrow> bool) \<Rightarrow> trace_filter res" where
  "filter_create cs i button_id texts enabled =
     (let s = \<lparr>filter_id = i, regex = [], background = palette_base cs, font = palette_text cs\<rparr>;
          f = \<lparr>m_button_id = button_id, m_regex = None, filter_settings = s, m_user_defined = False,
               m_is_active = False, line_text = texts, line_enabled = enabled, filter_calls = []\<rparr>
      in if button_id = - 1 then Inl AssertionFailed
         else Inr (setLineEditColor (background s) (font s)
                (filter_setButtonState cs False (setTraceFilterEnabled i True (filter_call (ButtonCheckable button_id True) f)))))"

definition tryMatch :: "(string \<Rightarrow> string \<Rightarrow> bool) \<Rightarrow> string \<Rightarrow> trace_filter \<Rightarrow> filter_settings option" where
  "tryMatch search text f =
     (if filteringActive f
      then (case m_regex f of
              None \<Rightarrow> None
            | Some r \<Rightarrow> if search text r then Some (filter_settings f) else None)
      else None)"

definition filter_refreshUi :: "colours \<Rightarrow> trace_filter \<Rightarrow> trace_filter" where
  "filter_refreshUi cs f =
     (let f1 = filter_setButtonState cs (filteringActive f) f;
          f2 = (if \<not> m_user_defined f1
                then f1\<lparr>filter_settings := (filter_settings f1)\<lparr>background := palette_base cs, font := palette_text cs\<rparr>\<rparr>
                else f1)
      in setLineEditColor (background (filter_settings f2)) (font (filter_settings f2)) f2)"

definition filter_setSettings :: "(string \<Rightarrow> bool) \<Rightarrow> filter_settings \<Rightarrow> trace_filter \<Rightarrow> (bool \<times> trace_filter) res" where
  "filter_setSettings valid settings f =
     (if \<not> filteringActive f then mapE (\<lambda>f'. (True, f')) (filter_handleNewSettings valid settings f) else Inr (False, f))"

definition onButtonClicked :: "(string \<Rightarrow> bool) \<Rightarrow> colours \<Rightarrow> trace_filter \<Rightarrow> trace_filter res" where
  "onButtonClicked valid cs f =
     (if \<not> filteringActive f
      then let pattern = getTraceFilter (filter_id (filter_settings f)) f;
               f1 = f\<lparr>filter_settings := (filter_settings f)\<lparr>regex := pattern\<rparr>\<rparr>
           in mapE (\<lambda>f2.
                let f3 = setTraceFilterEnabled (filter_id (filter_settings f2)) False (filter_setButtonState cs True f2)
                in f3\<lparr>m_is_active := True\<rparr>)
              (compile_regex valid pattern f1)
      else let f1 = setTraceFilterEnabled (filter_id (filter_settings f)) True (filter_setButtonState cs False f)
           in Inr (f1\<lparr>m_is_active := False\<rparr>))"

text \<open>
  \<open>dialog\<close> is what the dialog returns for the settings it is shown: nothing when the user
  declines, otherwise whether the new settings are valid and the settings.
\<close>

definition onContextMenuRequested ::
  "(string \<Rightarrow> bool) \<Rightarrow> (filter_settings \<Rightarrow> (bool \<times> filter_settings) option) \<Rightarrow> trace_filter \<Rightarrow> trace_filter res" where
  "onContextMenuRequested valid dialog f =
     (if \<not> filteringActive f
      then let s = (filter_settings f)\<lparr>regex := getTraceFilter (filter_id (filter_settings f)) f\<rparr>;
               f1 = f\<lparr>filter_settings := s\<rparr>
           in (case dialog s of
                 Some (True, new_settings) \<Rightarrow> filter_handleNewSettings valid new_settings (f1\<lparr>m_user_defined := True\<rparr>)
               | _ \<Rightarrow> Inr f1)
      else Inr f)"

datatype filter_button_event = FILTER_CLICKED | FILTER_CONTEXT_MENU_REQUESTED

definition filter_onButtonEvent ::
  "(string \<Rightarrow> bool) \<Rightarrow> colours \<Rightarrow> (filter_settings \<Rightarrow> (bool \<times> filter_settings) option) \<Rightarrow>
   u32 \<Rightarrow> filter_button_event \<Rightarrow> trace_filter \<Rightarrow> trace_filter res" where
  "filter_onButtonEvent valid cs dialog button_id event f =
     (if button_id = m_button_id f
      then (case event of
              FILTER_CLICKED \<Rightarrow> onButtonClicked valid cs f
            | FILTER_CONTEXT_MENU_REQUESTED \<Rightarrow> onContextMenuRequested valid dialog f)
      else Inr f)"

text \<open>The end of \<open>onPersistenceRead\<close>: the filter is switched on or off as it was saved.\<close>

definition filter_activate :: "colours \<Rightarrow> bool \<Rightarrow> trace_filter \<Rightarrow> trace_filter" where
  "filter_activate cs isActive f =
     (let f1 = filter_call (ButtonChecked (m_button_id f) isActive) (filter_setButtonState cs isActive f);
          f2 = setTraceFilterEnabled (filter_id (filter_settings f1)) (\<not> isActive) f1
      in f2\<lparr>m_is_active := isActive\<rparr>)"

definition filter_onPersistenceRead :: "(string \<Rightarrow> bool) \<Rightarrow> colours \<Rightarrow> items \<Rightarrow> trace_filter \<Rightarrow> trace_filter res" where
  "filter_onPersistenceRead valid cs items f =
     (let s = filter_settings f
      in bindE (readItem_num cast_bool items ''isActive'' False) (\<lambda>(_, isActive).
         let text = snd (readItem_str items ''text'' (regex s))
         in bindE (readItem_num word_of_int items ''backgroundColor'' (background s)) (\<lambda>(_, bg).
            bindE (readItem_num word_of_int items ''fontColor'' (font s)) (\<lambda>(_, fg).
            bindE (readItem_num cast_bool items ''userDefined'' (m_user_defined f)) (\<lambda>(_, user_defined).
            bindE (readItem_num word_of_int items ''id'' (filter_id s)) (\<lambda>(_, i).
              mapE (filter_activate cs isActive)
                (filter_handleNewSettings valid \<lparr>filter_id = i, regex = text, background = bg, font = fg\<rparr>
                   (f\<lparr>m_user_defined := user_defined\<rparr>))))))))"

definition filter_onPersistenceWrite :: "trace_filter \<Rightarrow> items res" where
  "filter_onPersistenceWrite f =
     (let s = filter_settings f;
          b1 = writeItem_num [] ''isActive'' (num_of_bool (m_is_active f));
          b2 = writeItem_str b1 ''text'' (getTraceFilter (filter_id s) f);
          b3 = writeItem_num b2 ''backgroundColor'' (unat (background s));
          b4 = writeItem_num b3 ''fontColor'' (unat (font s));
          b5 = writeItem_num b4 ''userDefined'' (num_of_bool (m_user_defined f))
      in Inr (writeItem_num b5 ''id'' (unat (filter_id s))))"

section \<open>What the user sees is what is matched\<close>

text \<open>
  The invariant: an active filter matches with the pattern its line of text shows, the line
  cannot be edited, and the button is green; an inactive one can be edited.
\<close>

definition button_green :: "filter_call list \<Rightarrow> bool" where
  "button_green cs = fold (\<lambda>c a. case c of ButtonBackground b col \<Rightarrow> col = 0x00FF00 | _ \<Rightarrow> a) cs False"

definition filter_ok :: "u8 \<Rightarrow> trace_filter \<Rightarrow> bool" where
  "filter_ok i f \<longleftrightarrow>
     filter_id (filter_settings f) = i \<and> line_enabled f i = (\<not> m_is_active f) \<and> c_str (line_text f i) = line_text f i \<and>
     (m_is_active f \<longrightarrow> m_regex f = Some (line_text f i) \<and> button_green (filter_calls f))"

text \<open>What can happen to a filter. The user types only in a line that is enabled.\<close>

datatype filter_op =
    FilterClick
  | FilterMenu "filter_settings \<Rightarrow> (bool \<times> filter_settings) option"
  | FilterSet filter_settings
  | FilterTheme colours
  | FilterType string
  | FilterRestore items

fun run_filter_op :: "(string \<Rightarrow> bool) \<Rightarrow> colours \<Rightarrow> filter_op \<Rightarrow> trace_filter \<Rightarrow> trace_filter res" where
  "run_filter_op valid cs FilterClick f = onButtonClicked valid cs f"
| "run_filter_op valid cs (FilterMenu dialog) f = onContextMenuRequested valid dialog f"
| "run_filter_op valid cs (FilterSet s) f = mapE snd (filter_setSettings valid s f)"
| "run_filter_op valid cs (FilterTheme cs') f = Inr (filter_refreshUi cs' f)"
| "run_filter_op valid cs (FilterType text) f =
     (let i = filter_id (filter_settings f)
      in if line_enabled f i then Inr (f\<lparr>line_text := (line_text f)(i := c_str text)\<rparr>) else Inr f)"
| "run_filter_op valid cs (FilterRestore items) f = filter_onPersistenceRead valid cs items f"

fun run_filter_ops :: "(string \<Rightarrow> bool) \<Rightarrow> colours \<Rightarrow> filter_op list \<Rightarrow> trace_filter \<Rightarrow> trace_filter res" where
  "run_filter_ops valid cs [] f = Inr f"
| "run_filter_ops valid cs (a # as) f = bindE (run_filter_op valid cs a f) (run_filter_ops valid cs as)"

text \<open>
  Dialogs return the identifier they were shown; a settings file that was not edited by hand
  holds the filter's own identifier and a text without zero bytes.
\<close>

fun filter_op_ok :: "u8 \<Rightarrow> filter_op \<Rightarrow> bool" where
  "filter_op_ok i (FilterMenu dialog) = (\<forall>s t. dialog s = Some (True, t) \<longrightarrow> filter_id t = filter_id s)"
| "filter_op_ok i (FilterSet s) = (filter_id s = i)"
| "filter_op_ok i (FilterRestore items) =
     (map_of items ''id'' = Some (to_string (unat i)) \<and> (case map_of items ''text'' of None \<Rightarrow> False | Some t \<Rightarrow> c_str t = t))"
| "filter_op_ok i _ = True"

lemma c_str_idem [simp]: "c_str (c_str s) = c_str s"
  by (simp add: c_str_def)

lemma filter_call_fields [simp]:
  "m_button_id (filter_call c f) = m_button_id f" "m_regex (filter_call c f) = m_regex f"
  "filter_settings (filter_call c f) = filter_settings f" "m_user_defined (filter_call c f) = m_user_defined f"
  "m_is_active (filter_call c f) = m_is_active f" "line_text (filter_call c f) = line_text f"
  "line_enabled (filter_call c f) = line_enabled f"
  "filter_calls (filter_call c f) = filter_calls f @ [c]"
  by (simp_all add: filter_call_def)

lemma button_green_append [simp]:
  "button_green (cs @ ds) = fold (\<lambda>c a. case c of ButtonBackground b col \<Rightarrow> col = 0x00FF00 | _ \<Rightarrow> a) ds (button_green cs)"
  by (simp add: button_green_def)

lemmas filter_ops = filteringActive_def filter_setButtonState_def setLineEditColor_def getTraceFilter_def setTraceFilter_def
  setTraceFilterEnabled_def compile_regex_def filter_handleNewSettings_def Let_def

lemma create_filter_ok:
  "filter_create cs i button texts enabled = Inr f \<Longrightarrow> c_str (texts i) = texts i \<Longrightarrow> filter_ok i f"
  by (auto simp: filter_create_def filter_ops filter_ok_def split: if_splits)

lemma click_filter_ok: "filter_ok i f \<Longrightarrow> onButtonClicked valid cs f = Inr g \<Longrightarrow> filter_ok i g"
  by (cases "m_is_active f") (auto simp: onButtonClicked_def filter_ops filter_ok_def split: if_splits)

lemma new_settings_filter_ok:
  assumes "filter_ok i f" "\<not> m_is_active f" "filter_id s = i" "filter_handleNewSettings valid s f = Inr g"
  shows "filter_ok i g" "\<not> m_is_active g" "m_regex g = Some (regex s)" "line_text g i = c_str (regex s)"
    "filter_settings g = s" "m_user_defined g = m_user_defined f" "m_button_id g = m_button_id f"
  using assms by (auto simp: filter_ops filter_ok_def split: if_splits)

lemma new_settings_activate_ok:
  assumes "filter_id s = i" "c_str (regex s) = regex s" "filter_handleNewSettings valid s f = Inr g"
  shows "filter_ok i (filter_activate cs on g)"
  using assms by (auto simp: filter_activate_def filter_ops filter_ok_def split: if_splits)

text \<open>What a restored filter is: new settings from the file, then switched on or off.\<close>

lemma filter_read_cases:
  assumes "filter_onPersistenceRead valid cs items f = Inr g"
  obtains s user_defined on h where
    "filter_handleNewSettings valid s (f\<lparr>m_user_defined := user_defined\<rparr>) = Inr h" "g = filter_activate cs on h"
    "regex s = (case map_of items ''text'' of None \<Rightarrow> regex (filter_settings f) | Some t \<Rightarrow> t)"
    "\<exists>found. readItem_num word_of_int items ''id'' (filter_id (filter_settings f)) = Inr (found, filter_id s)"
    "\<exists>found. readItem_num cast_bool items ''isActive'' False = Inr (found, on)"
proof -
  have t: "snd (readItem_str items k d) = (case map_of items k of None \<Rightarrow> d | Some v \<Rightarrow> v)" for k d
    by (simp add: readItem_str_map_of split: option.split)
  show thesis
    using assms by (fastforce simp: filter_onPersistenceRead_def bindE_Inr_iff mapE_Inr_iff Let_def t intro: that)
qed

lemma restore_filter_ok:
  assumes "filter_op_ok i (FilterRestore items)" "filter_onPersistenceRead valid cs items f = Inr g"
  shows "filter_ok i g"
proof (rule filter_read_cases [OF assms(2)])
  fix s user_defined on h
  assume s: "filter_handleNewSettings valid s (f\<lparr>m_user_defined := user_defined\<rparr>) = Inr h" "g = filter_activate cs on h"
    "regex s = (case map_of items ''text'' of None \<Rightarrow> regex (filter_settings f) | Some t \<Rightarrow> t)"
    "\<exists>found. readItem_num word_of_int items ''id'' (filter_id (filter_settings f)) = Inr (found, filter_id s)"
  have "c_str (regex s) = regex s" using assms(1) s(3) by (simp split: option.splits)
  moreover have "filter_id s = i" using assms(1) s(4) by (auto simp: readItem_num_map_of)
  ultimately show ?thesis using new_settings_activate_ok [OF _ _ s(1)] s(2) by simp
qed

lemma menu_filter_ok:
  assumes "filter_ok i f" "filter_op_ok i (FilterMenu dialog)" "onContextMenuRequested valid dialog f = Inr g"
  shows "filter_ok i g"
proof (cases "m_is_active f")
  case False
  let ?s = "(filter_settings f)\<lparr>regex := getTraceFilter (filter_id (filter_settings f)) f\<rparr>"
  have ok: "filter_ok i (f\<lparr>filter_settings := ?s, m_user_defined := True\<rparr>)" "filter_ok i (f\<lparr>filter_settings := ?s\<rparr>)"
    using assms(1) False by (simp_all add: filter_ok_def)
  have i: "filter_id ?s = i" using assms(1) by (simp add: filter_ok_def)
  show ?thesis
  proof (cases "dialog ?s")
    case None
    then show ?thesis using ok(2) assms(3) False by (simp add: onContextMenuRequested_def filteringActive_def Let_def)
  next
    case (Some r)
    obtain b t where r: "r = (b, t)" by fastforce
    show ?thesis
    proof (cases b)
      case True
      then have "filter_id t = i" using assms(2) Some r i by auto
      moreover have "filter_handleNewSettings valid t (f\<lparr>filter_settings := ?s, m_user_defined := True\<rparr>) = Inr g"
        using assms(3) Some r True False by (simp add: onContextMenuRequested_def filteringActive_def Let_def)
      ultimately show ?thesis using new_settings_filter_ok(1) [OF ok(1)] False by simp
    next
      case b: False
      then show ?thesis using ok(2) assms(3) Some r False by (simp add: onContextMenuRequested_def filteringActive_def Let_def)
    qed
  qed
qed (use assms in \<open>simp add: onContextMenuRequested_def filteringActive_def\<close>)

lemma set_filter_ok:
  "filter_ok i f \<Longrightarrow> filter_id s = i \<Longrightarrow> filter_setSettings valid s f = Inr (b, g) \<Longrightarrow> filter_ok i g"
  using new_settings_filter_ok(1) [of i f s valid g]
  by (auto simp: filter_setSettings_def filteringActive_def mapE_Inr_iff split: if_splits)

lemma theme_filter_ok: "filter_ok i f \<Longrightarrow> filter_ok i (filter_refreshUi cs f)"
  by (auto simp: filter_refreshUi_def filter_ops filter_ok_def)

lemma type_filter_ok: "filter_ok i f \<Longrightarrow> run_filter_op valid cs (FilterType text) f = Inr g \<Longrightarrow> filter_ok i g"
  by (auto simp: filter_ok_def Let_def split: if_splits)

lemma filter_step_ok:
  assumes "filter_ok i f" "filter_op_ok i a" "run_filter_op valid cs a f = Inr g"
  shows "filter_ok i g"
proof (cases a)
  case FilterClick
  then show ?thesis using click_filter_ok [OF assms(1)] assms(3) by simp
next
  case (FilterMenu dialog)
  then show ?thesis using menu_filter_ok [OF assms(1)] assms(2,3) by simp
next
  case (FilterSet s)
  then show ?thesis using set_filter_ok [OF assms(1)] assms(2,3) by (auto simp: mapE_Inr_iff)
next
  case (FilterTheme c)
  then show ?thesis using theme_filter_ok [OF assms(1)] assms(3) by auto
next
  case (FilterType t)
  then show ?thesis using type_filter_ok [OF assms(1)] assms(3) by simp
next
  case (FilterRestore items)
  then show ?thesis using restore_filter_ok assms(2,3) by simp
qed

lemma filter_steps_ok:
  "filter_ok i f \<Longrightarrow> list_all (filter_op_ok i) ops \<Longrightarrow> run_filter_ops valid cs ops f = Inr g \<Longrightarrow> filter_ok i g"
  by (induction ops arbitrary: f) (auto simp: bindE_Inr_iff intro: filter_step_ok)

section \<open>Saving and restoring\<close>

definition filter_saved :: "trace_filter \<Rightarrow> bool \<times> string \<times> u32 \<times> u32 \<times> bool \<times> u8" where
  "filter_saved f =
     (let s = filter_settings f
      in (m_is_active f, line_text f (filter_id s), background s, font s, m_user_defined f, filter_id s))"

definition filter_savable :: "(string \<Rightarrow> bool) \<Rightarrow> trace_filter \<Rightarrow> bool" where
  "filter_savable valid f \<longleftrightarrow>
     (let text = line_text f (filter_id (filter_settings f)) in valid text \<and> c_str text = text)"

definition filter_items :: "trace_filter \<Rightarrow> items" where
  "filter_items f =
     (let s = filter_settings f
      in [(''isActive'', to_string (num_of_bool (m_is_active f))), (''text'', line_text f (filter_id s)),
          (''backgroundColor'', to_string (unat (background s))), (''fontColor'', to_string (unat (font s))),
          (''userDefined'', to_string (num_of_bool (m_user_defined f))), (''id'', to_string (unat (filter_id s)))])"

lemma filter_writes: "filter_onPersistenceWrite f = Inr (filter_items f)"
  by (simp add: filter_onPersistenceWrite_def filter_items_def Let_def writeItem_num_def writeItem_str_def getTraceFilter_def)

lemma filter_reads:
  "filter_onPersistenceRead valid cs (filter_items f) g =
     mapE (filter_activate cs (m_is_active f))
       (filter_handleNewSettings valid
         ((filter_settings f)\<lparr>regex := line_text f (filter_id (filter_settings f))\<rparr>) (g\<lparr>m_user_defined := m_user_defined f\<rparr>))"
  by (cases "filter_settings f") (simp add: filter_onPersistenceRead_def filter_items_def Let_def)

interpretation filter_module: keyed_module filter_onPersistenceWrite "filter_onPersistenceRead valid cs"
  filter_saved "filter_savable valid" "\<lambda>f g. True"
  for valid :: "string \<Rightarrow> bool" and cs :: colours
proof unfold_locales
  show "\<exists>items. filter_onPersistenceWrite f = Inr items \<and> items \<noteq> [] \<and> distinct (map fst items)" for f
    by (simp add: filter_writes filter_items_def Let_def)
next
  fix items items' :: items and g
  assume "map_of items = map_of items'"
  then show "filter_onPersistenceRead valid cs items g = filter_onPersistenceRead valid cs items' g"
    by (simp only: filter_onPersistenceRead_def readItem_map_of)
next
  fix f g items
  assume "filter_savable valid f" "filter_onPersistenceWrite f = Inr items"
  then show "\<exists>g'. filter_onPersistenceRead valid cs items g = Inr g' \<and> filter_saved g' = filter_saved f"
    by (auto simp: filter_writes filter_reads filter_savable_def filter_saved_def filter_activate_def filter_ops)
qed

section \<open>Properties\<close>

text \<open>
  C37. Whatever the user does with a filter (clicks, dialogs, application settings, themes,
  typing, restoring a saved filter), it matches traces exactly when it is active, with the
  regular expression its line in the window shows; while it is active, the line is locked and
  the button is green.
\<close>

theorem filter_matches_what_is_shown:
  "\<lbrakk>filter_create cs0 i button texts enabled = Inr f; c_str (texts i) = texts i; list_all (filter_op_ok i) ops;
    run_filter_ops valid cs ops f = Inr g\<rbrakk> \<Longrightarrow>
   tryMatch search trace g = (if m_is_active g \<and> search trace (line_text g i) then Some (filter_settings g) else None) \<and>
   (m_is_active g \<longrightarrow> \<not> line_enabled g i \<and> button_green (filter_calls g)) \<and> (\<not> m_is_active g \<longrightarrow> line_enabled g i)"
  using filter_steps_ok [OF create_filter_ok, of cs0 i button texts enabled f ops valid cs g]
  by (auto simp: tryMatch_def filteringActive_def filter_ok_def)

definition example_colours :: colours where
  "example_colours = \<lparr>background_colour = 1, text_colour = 2, palette_base = 3, palette_text = 4\<rparr>"

theorem filter_matches_what_is_shown_witness:
  "\<exists>f g. filter_create example_colours 2 9 (\<lambda>i. []) (\<lambda>i. False) = Inr f \<and>
     run_filter_ops (\<lambda>r. r \<noteq> ''('') example_colours [FilterType ''err'', FilterClick, FilterType ''ok''] f = Inr g \<and>
     tryMatch (\<lambda>t r. t = ''an '' @ r) ''an err'' g = Some (filter_settings g) \<and> line_text g 2 = ''err''"
proof -
  obtain f where f: "filter_create example_colours 2 9 (\<lambda>i. []) (\<lambda>i. False) = Inr f"
    by (simp add: filter_create_def Let_def)
  have ops: "list_all (filter_op_ok 2) [FilterType ''err'', FilterClick, FilterType ''ok'']" by simp
  obtain g where g: "run_filter_ops (\<lambda>r. r \<noteq> ''('') example_colours [FilterType ''err'', FilterClick, FilterType ''ok''] f = Inr g"
      "m_is_active g" "line_text g 2 = ''err''"
    using f by (auto simp: filter_create_def onButtonClicked_def filter_ops c_str_def split: if_splits)
  from filter_matches_what_is_shown [OF f _ ops g(1), of "\<lambda>t r. t = ''an '' @ r" "''an err''"] f g show ?thesis
    by (auto simp: c_str_def)
qed

text \<open>
  Nothing checks a filter's text before it is saved. A user who leaves a text in the line
  that is no regular expression saves it with the other settings, and reading it back throws:
  restoring the settings stops at this filter in every later start, whatever state it is in.
\<close>

theorem invalid_pattern_blocks_restore:
  "\<lbrakk>filter_ok i f; \<not> m_is_active f; c_str text = text; \<not> valid text\<rbrakk> \<Longrightarrow>
   \<exists>g items. run_filter_op valid cs (FilterType text) f = Inr g \<and> filter_onPersistenceWrite g = Inr items \<and>
     map_of items ''text'' = Some text \<and> (\<forall>h. filter_onPersistenceRead valid cs items h = Inl RegexError)"
proof -
  assume a: "filter_ok i f" "\<not> m_is_active f" "c_str text = text" "\<not> valid text"
  let ?g = "f\<lparr>line_text := (line_text f)(i := text)\<rparr>"
  have "run_filter_op valid cs (FilterType text) f = Inr ?g" using a by (simp add: filter_ok_def)
  moreover have "filter_onPersistenceRead valid cs (filter_items ?g) h = Inl RegexError" for h
    using a by (simp add: filter_reads filter_ops filter_ok_def)
  moreover have "map_of (filter_items ?g) ''text'' = Some text" using a(1) by (simp add: filter_items_def filter_ok_def Let_def)
  ultimately show ?thesis using filter_writes [of ?g] by blast
qed

theorem invalid_pattern_blocks_restore_witness:
  "\<exists>f g items. filter_create example_colours 2 9 (\<lambda>i. []) (\<lambda>i. False) = Inr f \<and>
     run_filter_op (\<lambda>r. r \<noteq> ''('') example_colours (FilterType ''('') f = Inr g \<and> filter_onPersistenceWrite g = Inr items \<and>
     filter_onPersistenceRead (\<lambda>r. r \<noteq> ''('') example_colours items f = Inl RegexError"
proof -
  obtain f where f: "filter_create example_colours 2 9 (\<lambda>i. []) (\<lambda>i. False) = Inr f" "\<not> m_is_active f"
    by (simp add: filter_create_def filter_ops)
  have "filter_ok 2 f" by (rule create_filter_ok [OF f(1)]) (simp add: c_str_def)
  from invalid_pattern_blocks_restore [OF this f(2), of "''(''" "\<lambda>r. r \<noteq> ''(''" example_colours] f(1) show ?thesis
    by (simp add: c_str_def) blast
qed

end
