(* ===== verification/UserButton.thy ===== *)
theory UserButton
  imports CommandsExecutor Persistence
begin

text \<open>
  \<open>sw/MainApplication/source/UserButton.cpp\<close> and \<open>UserButtonsTab.cpp\<close>: a user button
  owns the commands of its settings' text and runs them (theory CommandsExecutor); a tab owns
  its buttons and its name. The GUI controller's answers and the dialogs are parameters; what
  the components call on it is recorded.
\<close>

section \<open>A user button\<close>

record button_settings =
  button_id :: u8
  button_name :: string
  raw_commands :: string

datatype button_call =
    ButtonText u32 string
  | ButtonChecked u32 bool
  | ButtonCheckable u32 bool

record user_button =
  ub_id :: u32
  ub_settings :: button_settings
  ub_executor :: executor
  ub_calls :: "button_call list"

definition button_call :: "button_call \<Rightarrow> user_button \<Rightarrow> user_button" where
  "button_call c b = b\<lparr>ub_calls := ub_calls b @ [c]\<rparr>"

definition button_setButtonName :: "string \<Rightarrow> user_button \<Rightarrow> user_button" where
  "button_setButtonName name b = button_call (ButtonText (ub_id b) name) b"

definition button_handleNewSettings :: "button_settings \<Rightarrow> user_button \<Rightarrow> user_button" where
  "button_handleNewSettings s b =
     (let b1 = b\<lparr>ub_settings := s\<rparr>;
          (count, e) = executor_parseCommands (raw_commands s) (ub_executor b1)
      in button_setButtonName (button_name s) (b1\<lparr>ub_executor := e\<rparr>))"

text \<open>\<open>getButtonID\<close> is the controller's answer for a button's name; -1 means there is none.\<close>

definition button_create :: "(string \<Rightarrow> u32) \<Rightarrow> u8 \<Rightarrow> string \<Rightarrow> user_button res" where
  "button_create getButtonID i name =
     (let b = \<lparr>ub_id = getButtonID name, ub_settings = \<lparr>button_id = i, button_name = [], raw_commands = []\<rparr>,
               ub_executor = executor_init, ub_calls = []\<rparr>
      in if ub_id b = - 1 then Inl AssertionFailed else Inr (button_call (ButtonCheckable (ub_id b) True) b))"

definition onUserButtonClicked :: "user_button \<Rightarrow> user_button" where
  "onUserButtonClicked b =
     (if \<not> isExecution (ub_executor b)
      then let b1 = button_call (ButtonChecked (ub_id b) True) b
           in b1\<lparr>ub_executor := executor_execute (ub_executor b1)\<rparr>
      else b\<lparr>ub_executor := executor_abort (ub_executor b)\<rparr>)"

definition onUserButtonContextMenuRequested :: "(bool \<times> button_settings) option \<Rightarrow> user_button \<Rightarrow> user_button" where
  "onUserButtonContextMenuRequested dialog b =
     (case dialog of Some (True, new_settings) \<Rightarrow> button_handleNewSettings new_settings b | _ \<Rightarrow> b)"

datatype user_button_event = USER_CLICKED | USER_CONTEXT_MENU_REQUESTED

definition button_onButtonEvent ::
  "(bool \<times> button_settings) option \<Rightarrow> u32 \<Rightarrow> user_button_event \<Rightarrow> user_button \<Rightarrow> user_button" where
  "button_onButtonEvent dialog i event b =
     (if i = ub_id b
      then (case event of
              USER_CLICKED \<Rightarrow> onUserButtonClicked b
            | USER_CONTEXT_MENU_REQUESTED \<Rightarrow> onUserButtonContextMenuRequested dialog b)
      else b)"

text \<open>The callback of the executor, called from the thread that ran the commands.\<close>

definition onCommandExecutionEvent :: "bool \<Rightarrow> user_button \<Rightarrow> user_button" where
  "onCommandExecutionEvent ok b = button_call (ButtonChecked (ub_id b) False) b"

definition button_onPersistenceRead :: "items \<Rightarrow> user_button \<Rightarrow> user_button res" where
  "button_onPersistenceRead items b =
     (let s = ub_settings b;
          name = snd (readItem_str items ''ButtonName'' (button_name s));
          commands = snd (readItem_str items ''ButtonCommands'' (raw_commands s))
      in Inr (button_handleNewSettings (s\<lparr>button_name := name, raw_commands := commands\<rparr>) b))"

definition button_onPersistenceWrite :: "user_button \<Rightarrow> items res" where
  "button_onPersistenceWrite b =
     Inr (writeItem_str (writeItem_str [] ''ButtonName'' (button_name (ub_settings b))) ''ButtonCommands''
       (raw_commands (ub_settings b)))"

text \<open>A statement of a worker thread of the button's executor; the callback changes the button.\<close>

definition deliver :: "exec_event list \<Rightarrow> user_button \<Rightarrow> user_button" where
  "deliver es b = fold (\<lambda>e b. case e of Finished ok \<Rightarrow> onCommandExecutionEvent ok b | _ \<Rightarrow> b) es b"

definition button_worker_step :: "(int \<Rightarrow> string \<Rightarrow> bool) \<Rightarrow> nat \<Rightarrow> user_button \<Rightarrow> user_button" where
  "button_worker_step writer i b =
     (let (es, e) = worker_step writer i (ub_executor b) in deliver es (b\<lparr>ub_executor := e\<rparr>))"

section \<open>A tab of buttons\<close>

record buttons_tab =
  tab_id :: u32
  tab_name :: string
  tab_buttons :: "user_button list"
  tab_calls :: "(u32 \<times> string) list"

definition setTabName :: "string \<Rightarrow> buttons_tab \<Rightarrow> buttons_tab" where
  "setTabName name t = (let t1 = t\<lparr>tab_name := name\<rparr> in t1\<lparr>tab_calls := tab_calls t1 @ [(tab_id t1, tab_name t1)]\<rparr>)"

text \<open>The loop of the constructor: the number of a button is 32 bits wide, its identifier 8.\<close>

definition tab_button_number :: "u8 \<Rightarrow> u8 \<Rightarrow> nat \<Rightarrow> u32" where
  "tab_button_number i buttons_count k = ucast i * ucast buttons_count + word_of_nat k"

fun create_buttons :: "(string \<Rightarrow> u32) \<Rightarrow> u32 list \<Rightarrow> user_button list res" where
  "create_buttons getButtonID [] = Inr []"
| "create_buttons getButtonID (n # ns) =
     bindE (button_create getButtonID (ucast n) (''BUTTON'' @ to_string (unat n))) (\<lambda>b.
       mapE (\<lambda>bs. b # bs) (create_buttons getButtonID ns))"

definition tab_create :: "(string \<Rightarrow> u32) \<Rightarrow> u8 \<Rightarrow> u8 \<Rightarrow> buttons_tab res" where
  "tab_create getButtonID i buttons_count =
     mapE (\<lambda>bs. setTabName (''TAB'' @ to_string (unat i))
         \<lparr>tab_id = ucast i, tab_name = ''TAB'' @ to_string (unat i), tab_buttons = bs, tab_calls = []\<rparr>)
       (create_buttons getButtonID (map (tab_button_number i buttons_count) [0..<unat buttons_count]))"

definition onTabNameChangeRequest :: "string option \<Rightarrow> buttons_tab \<Rightarrow> buttons_tab" where
  "onTabNameChangeRequest dialog t = (case dialog of Some name \<Rightarrow> setTabName name t | None \<Rightarrow> t)"

definition tab_onPersistenceRead :: "items \<Rightarrow> buttons_tab \<Rightarrow> buttons_tab res" where
  "tab_onPersistenceRead items t = Inr (setTabName (snd (readItem_str items ''tabName'' [])) t)"

definition tab_onPersistenceWrite :: "buttons_tab \<Rightarrow> items res" where
  "tab_onPersistenceWrite t = Inr (writeItem_str [] ''tabName'' (tab_name t))"

text \<open>The names the modules have in the settings file.\<close>

definition button_module_name :: "u8 \<Rightarrow> string" where
  "button_module_name i = ''BUTTON'' @ to_string (unat i)"

definition tab_module_name :: "u8 \<Rightarrow> string" where
  "tab_module_name i = ''BUTTONTAB'' @ to_string (unat i)"

section \<open>What survives\<close>

lemma worker_keeps_commands:
  "worker_step writer i e = (es, e') \<Longrightarrow> m_commands (exec_parser e') = m_commands (exec_parser e)"
  by (auto simp: worker_step_def set_pc_def end_worker_def parser_reset_def fetch_command_def Let_def
      split: worker_pc.splits if_splits option.splits)

lemma deliver_fields [simp]: "ub_settings (deliver es b) = ub_settings b" "ub_executor (deliver es b) = ub_executor b"
  "ub_id (deliver es b) = ub_id b"
  by (induction es arbitrary: b)
    (auto simp: deliver_def onCommandExecutionEvent_def button_call_def split: exec_event.splits)

lemma worker_keeps_button:
  "m_commands (exec_parser (ub_executor (button_worker_step writer i b))) = m_commands (exec_parser (ub_executor b))"
  "ub_settings (button_worker_step writer i b) = ub_settings b"
  by (auto simp: button_worker_step_def split: prod.split dest: worker_keeps_commands)

lemma workers_keep_button:
  "m_commands (exec_parser (ub_executor (fold (button_worker_step writer) is b))) = m_commands (exec_parser (ub_executor b))"
  "ub_settings (fold (button_worker_step writer) is b) = ub_settings b"
  by (induction "is" arbitrary: b) (simp_all add: worker_keeps_button)

text \<open>The executor holds the commands of the text of the settings.\<close>

definition text_commands :: "string \<Rightarrow> command list" where
  "text_commands text = processStrings (splitTextToStrings text)"

definition in_step :: "user_button \<Rightarrow> bool" where
  "in_step b \<longleftrightarrow> m_commands (exec_parser (ub_executor b)) = text_commands (raw_commands (ub_settings b))"

lemma handle_in_step:
  "\<not> isExecution (ub_executor b) \<Longrightarrow> in_step (button_handleNewSettings s b) \<and> ub_settings (button_handleNewSettings s b) = s"
  by (simp add: button_handleNewSettings_def executor_parseCommands_def isExecution_def parseCommands_def Let_def
      button_setButtonName_def button_call_def in_step_def text_commands_def)

lemma handle_running:
  "isExecution (ub_executor b) \<Longrightarrow>
   ub_executor (button_handleNewSettings s b) = ub_executor b \<and> ub_settings (button_handleNewSettings s b) = s"
  by (simp add: button_handleNewSettings_def executor_parseCommands_def isExecution_def Let_def
      button_setButtonName_def button_call_def)

definition button_saved :: "user_button \<Rightarrow> string \<times> string \<times> command list" where
  "button_saved b = (button_name (ub_settings b), raw_commands (ub_settings b), m_commands (exec_parser (ub_executor b)))"

interpretation button_module: keyed_module button_onPersistenceWrite button_onPersistenceRead
  button_saved in_step "\<lambda>b (c :: user_button). \<not> isExecution (ub_executor c)"
proof unfold_locales
  show "\<exists>items. button_onPersistenceWrite b = Inr items \<and> items \<noteq> [] \<and> distinct (map fst items)" for b
    by (simp add: button_onPersistenceWrite_def writeItem_str_def)
next
  fix items items' :: items and b
  assume "map_of items = map_of items'"
  then show "button_onPersistenceRead items b = button_onPersistenceRead items' b"
    by (simp only: button_onPersistenceRead_def readItem_map_of)
next
  fix b c :: user_button and items
  assume a: "in_step b" "\<not> isExecution (ub_executor c)" "button_onPersistenceWrite b = Inr items"
  then have "items = [(''ButtonName'', button_name (ub_settings b)), (''ButtonCommands'', raw_commands (ub_settings b))]"
    by (simp add: button_onPersistenceWrite_def writeItem_str_def)
  then show "\<exists>c'. button_onPersistenceRead items c = Inr c' \<and> button_saved c' = button_saved b"
    using a(1) handle_in_step [OF a(2)] by (simp add: button_onPersistenceRead_def Let_def button_saved_def in_step_def)
qed

interpretation tab_module: keyed_module tab_onPersistenceWrite tab_onPersistenceRead tab_name "\<lambda>t. True" "\<lambda>t u. True"
proof unfold_locales
  show "\<exists>items. tab_onPersistenceWrite t = Inr items \<and> items \<noteq> [] \<and> distinct (map fst items)" for t
    by (simp add: tab_onPersistenceWrite_def writeItem_str_def)
  show "\<exists>u'. tab_onPersistenceRead items u = Inr u' \<and> tab_name u' = tab_name t"
    if "tab_onPersistenceWrite t = Inr items" for t u items
    using that by (auto simp: tab_onPersistenceWrite_def tab_onPersistenceRead_def writeItem_str_def setTabName_def Let_def)
qed (simp only: tab_onPersistenceRead_def readItem_map_of)

section \<open>Properties\<close>

text \<open>
  New settings given to a button while its commands run change its name and its text, but
  not its commands: when the execution is over, and in every later one, the button still runs
  the old commands, while its text, shown in the dialog and saved to the settings file, says
  otherwise. Given to an idle button, they take effect.
\<close>

theorem edit_while_running_is_lost:
  "\<lbrakk>isExecution (ub_executor b); in_step b; text_commands (raw_commands s) \<noteq> text_commands (raw_commands (ub_settings b));
    c = fold (button_worker_step writer) moves (onUserButtonContextMenuRequested (Some (True, s)) b)\<rbrakk> \<Longrightarrow>
   ub_settings c = s \<and> m_commands (exec_parser (ub_executor c)) = text_commands (raw_commands (ub_settings b)) \<and>
   \<not> in_step c \<and> \<not> in_step (onUserButtonClicked c) \<and>
   (\<not> isExecution (ub_executor c) \<longrightarrow> in_step (onUserButtonContextMenuRequested (Some (True, s)) c))"
proof -
  assume a: "isExecution (ub_executor b)" "in_step b" "text_commands (raw_commands s) \<noteq> text_commands (raw_commands (ub_settings b))"
    "c = fold (button_worker_step writer) moves (onUserButtonContextMenuRequested (Some (True, s)) b)"
  have h: "ub_settings c = s" "m_commands (exec_parser (ub_executor c)) = text_commands (raw_commands (ub_settings b))"
    using a(2,4) handle_running [OF a(1), of s]
    by (simp_all add: workers_keep_button onUserButtonContextMenuRequested_def in_step_def)
  then have n: "\<not> in_step c" using a(3) by (simp add: in_step_def)
  have "m_commands (exec_parser (ub_executor (onUserButtonClicked c))) = m_commands (exec_parser (ub_executor c))"
    "ub_settings (onUserButtonClicked c) = ub_settings c"
    by (simp_all add: onUserButtonClicked_def button_call_def executor_execute_def executor_abort_def Let_def)
  then have "\<not> in_step (onUserButtonClicked c)" using n by (simp add: in_step_def)
  with h n handle_in_step [of c s] show ?thesis by (simp add: onUserButtonContextMenuRequested_def)
qed

definition running_button :: user_button where
  "running_button = \<lparr>ub_id = 4, ub_settings = \<lparr>button_id = 1, button_name = ''B'', raw_commands = ''ls''\<rparr>,
     ub_executor = executor_init\<lparr>exec_parser := \<lparr>m_commands = [Write (- 1) ''ls''], m_current_command = 0\<rparr>,
       exec_isRunning := True, workers := [W_Start]\<rparr>, ub_calls = []\<rparr>"

theorem edit_while_running_is_lost_witness:
  "raw_commands (ub_settings (fold (button_worker_step (\<lambda>p t. True)) [0, 0, 0, 0, 0, 0, 0, 0, 0]
       (onUserButtonContextMenuRequested (Some (True, \<lparr>button_id = 1, button_name = ''B'', raw_commands = ''rm''\<rparr>)) running_button))) = ''rm'' \<and>
   m_commands (exec_parser (ub_executor (fold (button_worker_step (\<lambda>p t. True)) [0, 0, 0, 0, 0, 0, 0, 0, 0]
       (onUserButtonContextMenuRequested (Some (True, \<lparr>button_id = 1, button_name = ''B'', raw_commands = ''rm''\<rparr>)) running_button)))) =
     [Write (- 1) ''ls'']"
proof -
  have c: "text_commands ''ls'' = [Write (- 1) ''ls'']" "text_commands ''rm'' = [Write (- 1) ''rm'']"
    by code_simp+
  show ?thesis
    using edit_while_running_is_lost [OF _ _ _ refl, of running_button "\<lparr>button_id = 1, button_name = ''B'', raw_commands = ''rm''\<rparr>"
        "\<lambda>p t. True" "[0, 0, 0, 0, 0, 0, 0, 0, 0]"] c
    by (simp add: running_button_def in_step_def isExecution_def del: fold_simps)
qed

end
