(* ===== verification/GUIController.thy ===== *)
theory GUIController
  imports CppText
begin

text \<open>
  \<open>sw/GUIController/source/GUIController.cpp\<close>: the window behind the program. Its methods
  emit signals; a signal emitted in the GUI thread runs its slot at once, one emitted in
  another thread is queued until the GUI thread handles it. The Qt widgets are not code of the
  program: what the slots call on them is recorded, and what they answer (a text, a count, an
  index) is the argument \<open>w\<close>. Listeners are values of a type \<open>'l\<close>.
\<close>

section \<open>State\<close>

datatype GuiEvent = GUI_CLICKED | GUI_CONTEXT_MENU_REQUESTED

datatype gui_object = ButtonObject string | FilterLine nat | CommandLine | ShortcutObject string

datatype gui_request = GetCommand | GetLineEnding | GetTraceFilter u8 | GetTabName int

datatype gui_signal =
    SetButtonBackgroundColorSignal u32 u32
  | SetButtonFontColorSignal u32 u32
  | SetButtonCheckableSignal u32 bool
  | SetButtonCheckedSignal u32 bool
  | SetButtonEnabledSignal u32 bool
  | SetButtonTextSignal u32 string
  | ClearTerminalViewSignal
  | ClearTraceViewSignal
  | AddToTerminalViewSignal string u32 u32
  | AddToTraceViewSignal string u32 u32
  | ScrollTerminalToBottomSignal
  | ScrollTraceViewToBottomSignal
  | RegisterPortOpenedSignal string
  | RegisterPortClosedSignal string
  | SetCommandHistorySignal "string list"
  | GuiRequestSignal
  | AddLineEndingSignal string
  | SetCurrentLineEndingSignal string
  | SetTraceFilterSignal u8 string
  | SetTraceFilterEnabledSignal u8 bool
  | SetTraceFilterBackgroundColorSignal u32 u32
  | SetTraceFilterFontColorSignal u32 u32
  | SetPortLabelTextSignal u8 string
  | SetThroughputTextSignal u8 string
  | ReloadThemeSignal u8
  | SetStatusBarNotificationSignal string u32
  | SetInfoLabelTextSignal string
  | SetApplicationTitleSignal string
  | ClearCurrentCommandSignal
  | SetUserButtonTabNameSignal int string

text \<open>The calls on widgets: indices are positions in the window's lists.\<close>

datatype widget_call =
    ButtonColour nat u32
  | ButtonTextColour nat u32
  | ButtonSetCheckable nat bool
  | ButtonSetChecked nat bool
  | ButtonSetEnabled nat bool
  | ButtonSetText nat string
  | TerminalClear
  | TraceClear
  | TerminalAppend string
  | TraceAddItem string u32 u32
  | TerminalScrollToBottom
  | TraceScrollToBottom
  | PortComboAdd string
  | PortComboRemove int
  | PortComboSelect int
  | HistoryClear
  | HistoryInsertFirst string
  | HistoryDeselect
  | LineEndingAdd string
  | LineEndingSelect string
  | FilterSetText nat string
  | FilterSetEnabled nat bool
  | FilterSetStyle nat string
  | PortLabel nat string
  | PortThroughput nat string
  | LoadTheme int
  | StatusBar string u32
  | InfoLabel string
  | WindowTitle string
  | CommandClear
  | TabText int string

datatype 'l gui_notification =
    NotifyButton 'l u32 GuiEvent
  | NotifyTheme 'l int
  | NotifyTab 'l
  | NotifyPort string

record 'l button_event_item =
  item_id :: u32
  item_event :: GuiEvent
  item_listener :: 'l

record 'l gui =
  ui_buttons :: "string list"
  ui_filters :: "string list"
  ui_ports :: nat
  ui_send_button :: string
  ui_theme :: int
  terminal_item_count :: u32
  trace_item_count :: u32
  has_port_listener :: bool
  m_current_request :: "gui_request option"
  request_answer :: "string option"
  m_theme_listeners :: "'l list"
  m_button_listeners :: "'l button_event_item list"
  m_shortcuts_map :: "(gui_object \<times> string) list"
  m_tab_name_listeners :: "(int \<times> 'l) list"
  widget_calls :: "widget_call list"
  notified :: "'l gui_notification list"
  posted :: "gui_signal list"

text \<open>What the widgets answer.\<close>

record widgets =
  port_combo_text :: "int \<Rightarrow> string"
  port_combo_find :: "string \<Rightarrow> int"
  port_combo_count :: int
  port_combo_index :: int
  tab_widget_count :: int
  tab_widget_text :: "int \<Rightarrow> string"
  command_text :: string
  line_ending_text :: string
  filter_text :: "nat \<Rightarrow> string"
  filter_style :: "nat \<Rightarrow> string"
  trace_at_bottom :: bool

definition THEMES_MAX :: int where "THEMES_MAX = 2"

definition theme_names :: "string list" where
  "theme_names = [''DEFAULT'', ''DARK'']"

text \<open>\<open>QString(text.c_str())\<close>: the text up to its first zero byte.\<close>

definition q_string :: "string \<Rightarrow> string" where
  "q_string s = takeWhile (\<lambda>c. c \<noteq> CHR 0x00) s"

definition on_widget :: "widget_call \<Rightarrow> 'l gui \<Rightarrow> 'l gui" where
  "on_widget c g = g\<lparr>widget_calls := widget_calls g @ [c]\<rparr>"

definition notify :: "'l gui_notification list \<Rightarrow> 'l gui \<Rightarrow> 'l gui" where
  "notify ns g = g\<lparr>notified := notified g @ ns\<rparr>"

section \<open>Style sheets of the filter lines\<close>

text \<open>
  \<open>GUIControllerHelpers.hpp\<close>: the two colours of a filter line live in its style sheet; setting
  one parses the other out of the text. \<open>strtol\<close> with base 16 reads the longest run of
  hexadecimal digits after white space, a sign and an optional \<open>0x\<close>.
\<close>

definition hex_digit :: "nat \<Rightarrow> char" where
  "hex_digit n = (if n < 10 then char_of (48 + n) else char_of (87 + n))"

definition hex_val :: "char \<Rightarrow> nat option" where
  "hex_val c =
     (let n = of_char c :: nat
      in if 48 \<le> n \<and> n \<le> 57 then Some (n - 48)
         else if 97 \<le> n \<and> n \<le> 102 then Some (n - 87)
         else if 65 \<le> n \<and> n \<le> 70 then Some (n - 55)
         else None)"

definition hex_run :: "string \<Rightarrow> int" where
  "hex_run s =
     int (foldl (\<lambda>acc c. acc * 16 + the (hex_val c)) 0 (takeWhile (\<lambda>c. hex_val c \<noteq> None) s))"

definition strip_0x :: "string \<Rightarrow> string" where
  "strip_0x s =
     (case s of
        a # b # c # rest \<Rightarrow>
          if a = CHR ''0'' \<and> (b = CHR ''x'' \<or> b = CHR ''X'') \<and> hex_val c \<noteq> None then c # rest else s
      | _ \<Rightarrow> s)"

definition strtol16 :: "string \<Rightarrow> int" where
  "strtol16 s =
     (case dropWhile is_space s of
        [] \<Rightarrow> 0
      | c # cs \<Rightarrow>
          clamp64 (if c = CHR ''-'' then - hex_run (strip_0x cs)
                   else if c = CHR ''+'' then hex_run (strip_0x cs)
                   else hex_run (strip_0x (c # cs))))"

text \<open>\<open>%.6x\<close>: at least six digits.\<close>

definition hex_digits :: "nat \<Rightarrow> nat \<Rightarrow> string" where
  "hex_digits n k = map (\<lambda>i. hex_digit (k div 16 ^ i mod 16)) (rev [0..<n])"

definition hex_text :: "u32 \<Rightarrow> string" where
  "hex_text c = hex_digits (if unat c < 16 ^ 6 then 6 else if unat c < 16 ^ 7 then 7 else 8) (unat c)"

record stylesheet =
  sheet_text :: string
  sheet_background :: u32
  sheet_color :: u32

datatype sheet_item = BACKGROUND_COLOR | COLOR

definition createStylesheet :: "stylesheet \<Rightarrow> stylesheet" where
  "createStylesheet s =
     s\<lparr>sheet_text := ''background-color: #'' @ hex_text (sheet_background s) @ '';color: #'' @ hex_text (sheet_color s) @ '';''\<rparr>"

definition set_color :: "sheet_item \<Rightarrow> u32 \<Rightarrow> stylesheet \<Rightarrow> stylesheet" where
  "set_color i c s = (case i of BACKGROUND_COLOR \<Rightarrow> s\<lparr>sheet_background := c\<rparr> | COLOR \<Rightarrow> s\<lparr>sheet_color := c\<rparr>)"

definition sheet_setColor :: "sheet_item \<Rightarrow> u32 \<Rightarrow> stylesheet \<Rightarrow> stylesheet" where
  "sheet_setColor i c s = createStylesheet (set_color i (c AND 0xFFFFFF) s)"

definition sheet_getColor :: "sheet_item \<Rightarrow> stylesheet \<Rightarrow> u32" where
  "sheet_getColor i s = (case i of BACKGROUND_COLOR \<Rightarrow> sheet_background s | COLOR \<Rightarrow> sheet_color s) AND 0xFFFFFF"

text \<open>
  One entry of the sheet: without a \<open>#\<close>, \<open>find\<close> gives \<open>npos\<close>, and one more is 0, so the whole
  entry is read as the number; an unknown property counts as the background.
\<close>

definition parse_tag :: "string \<Rightarrow> stylesheet \<Rightarrow> stylesheet" where
  "parse_tag tag s =
     (let property = takeWhile (\<lambda>c. c \<noteq> CHR '':'') tag;
          val = (if CHR ''#'' \<in> set tag then tl (dropWhile (\<lambda>c. c \<noteq> CHR ''#'') tag) else tag);
          color = word_of_int (strtol16 val)
      in set_color (if property = ''color'' then COLOR else BACKGROUND_COLOR) color s)"

definition parseStylesheet :: "stylesheet \<Rightarrow> stylesheet" where
  "parseStylesheet s = fold parse_tag (getlines (CHR '';'') (sheet_text s)) s"

definition new_stylesheet :: "string \<Rightarrow> stylesheet" where
  "new_stylesheet t = parseStylesheet \<lparr>sheet_text = t, sheet_background = 0, sheet_color = 0\<rparr>"

lemma hex_digit_val [simp]: "n < 16 \<Longrightarrow> hex_val (hex_digit n) = Some n"
  by (auto simp: hex_val_def hex_digit_def Let_def of_char_of)

lemma hex_digit_plain:
  assumes "n < 16"
  shows "\<not> is_space (hex_digit n)" "hex_digit n \<notin> {CHR ''-'', CHR ''+'', CHR ''x'', CHR ''X'', CHR '';'', CHR ''#'', CHR '':''}"
proof -
  have "(of_char (hex_digit n) :: nat) \<in> {48..57} \<union> {97..102}" using assms by (auto simp: hex_digit_def of_char_of)
  then show "\<not> is_space (hex_digit n)" "hex_digit n \<notin> {CHR ''-'', CHR ''+'', CHR ''x'', CHR ''X'', CHR '';'', CHR ''#'', CHR '':''}"
    by (auto simp: is_space_def)
qed

lemma hex_digits_Suc: "hex_digits (Suc n) k = hex_digit (k div 16 ^ n mod 16) # hex_digits n k"
  by (simp add: hex_digits_def)

lemma hex_fold:
  "foldl (\<lambda>acc c. acc * 16 + the (hex_val c)) a (hex_digits n k) = a * 16 ^ n + k mod 16 ^ n"
proof (induction n arbitrary: a)
  case 0
  then show ?case by (simp add: hex_digits_def)
next
  case (Suc n)
  have "k mod 16 ^ Suc n = k div 16 ^ n mod 16 * 16 ^ n + k mod 16 ^ n"
    using mod_mult2_eq [of k "16 ^ n" 16] by (simp add: mult.commute)
  moreover have "foldl (\<lambda>acc c. acc * 16 + the (hex_val c)) a (hex_digits (Suc n) k) =
      (a * 16 + k div 16 ^ n mod 16) * 16 ^ n + k mod 16 ^ n"
    unfolding hex_digits_Suc foldl_Cons Suc.IH by simp
  ultimately show ?case by (simp add: add_mult_distrib)
qed

lemma hex_digits_all:
  assumes "c \<in> set (hex_digits n k)"
  shows "\<exists>d < 16. c = hex_digit d"
proof -
  obtain i where "c = hex_digit (k div 16 ^ i mod 16)" using assms by (auto simp: hex_digits_def)
  moreover have "k div 16 ^ i mod 16 < 16" by simp
  ultimately show ?thesis by blast
qed

lemma hex_run_digits: "hex_run (hex_digits n k) = int (k mod 16 ^ n)"
proof -
  have "hex_val c \<noteq> None" if "c \<in> set (hex_digits n k)" for c
    using hex_digits_all [OF that] by auto
  then have "takeWhile (\<lambda>c. hex_val c \<noteq> None) (hex_digits n k) = hex_digits n k"
    unfolding takeWhile_eq_all_conv by blast
  then show ?thesis unfolding hex_run_def by (simp only: hex_fold)
qed

lemma strip_digits: "strip_0x (hex_digits n k) = hex_digits n k"
proof -
  have "a # b # c # rest = hex_digits n k \<Longrightarrow> b \<noteq> CHR ''x'' \<and> b \<noteq> CHR ''X''" for a b c rest
    using hex_digits_all [of b n k] hex_digit_plain(2) by (metis insertCI list.set_intros(1,2))
  then show ?thesis by (auto simp: strip_0x_def split: list.split)
qed

lemma strtol16_hex_text [simp]: "strtol16 (hex_text c) = int (unat c)"
proof -
  define n where "n = (if unat c < 16 ^ 6 then 6 else if unat c < 16 ^ 7 then 7 else (8 :: nat))"
  have i: "uint c < 2 ^ 32" "- (2 ^ 63) \<le> uint c" 
    using unsigned_less [of c, where 'a = int] order_trans [OF _ unsigned_greater_eq [of c, where 'a = int], of "- (2 ^ 63)"]
    by simp_all
  have "unat c < 16 ^ 8" using unsigned_less [of c, where 'a = nat] by simp
  then have m: "unat c mod 16 ^ n = unat c" by (auto simp: n_def)
  have cs2: "hex_text c = hex_digits n (unat c)" by (simp add: hex_text_def n_def)
  have "n = Suc (n - 1)" by (simp add: n_def)
  then obtain d ds where cs1: "hex_text c = d # ds" unfolding cs2 by (metis hex_digits_Suc)
  note cs = cs1 cs2
  have "d \<in> set (hex_digits n (unat c))" using cs by (metis list.set_intros(1))
  then obtain k where k: "k < 16" "d = hex_digit k" using hex_digits_all by blast
  have "clamp64 (hex_run (strip_0x (d # ds))) = int (unat c)"
    using i unfolding cs(1) [symmetric] cs(2) strip_digits hex_run_digits m by (simp add: clamp64_def)
  then show "strtol16 (hex_text c) = int (unat c)"
    using hex_digit_plain [OF k(1)] k(2) cs(1) by (simp add: strtol16_def)
qed

lemma hex_text_chars: "c \<in> set (hex_text w) \<Longrightarrow> c \<notin> {CHR '';'', CHR ''#'', CHR '':''}"
proof -
  assume "c \<in> set (hex_text w)"
  then have "\<exists>d < 16. c = hex_digit d" unfolding hex_text_def by (rule hex_digits_all)
  then obtain d where "d < 16" "c = hex_digit d" by blast
  then show ?thesis using hex_digit_plain(2) [of d] by simp
qed

lemma parse_color_tag:
  "parse_tag (''background-color: #'' @ hex_text c) s = s\<lparr>sheet_background := c\<rparr>"
  "parse_tag (''color: #'' @ hex_text c) s = s\<lparr>sheet_color := c\<rparr>"
  by (simp_all add: parse_tag_def set_color_def Let_def)

text \<open>Any two colours survive being written to a sheet and parsed.\<close>

lemma parse_created:
  "new_stylesheet (sheet_text (createStylesheet s)) =
     \<lparr>sheet_text = sheet_text (createStylesheet s), sheet_background = sheet_background s, sheet_color = sheet_color s\<rparr>"
proof -
  let ?tags = "[''background-color: #'' @ hex_text (sheet_background s), ''color: #'' @ hex_text (sheet_color s)]"
  have "\<forall>x \<in> set ?tags. CHR '';'' \<notin> set x" using hex_text_chars by auto
  then have "getlines (CHR '';'') (terminated (CHR '';'') ?tags) = ?tags" by (rule getlines_terminated)
  then have "getlines (CHR '';'') (sheet_text (createStylesheet s)) = ?tags" by (simp add: createStylesheet_def)
  then show ?thesis by (simp add: new_stylesheet_def parseStylesheet_def parse_color_tag del: append.simps append_Cons)
qed

section \<open>Slots\<close>

text \<open>
  Signals carry a filter's or port's number as a signed byte: \<open>(size_t)id\<close> of a number above
  127 is larger than every list.
\<close>

definition in_list :: "nat \<Rightarrow> u8 \<Rightarrow> bool" where
  "in_list n i \<longleftrightarrow> unat i < 128 \<and> unat i < n"

definition on_button :: "u32 \<Rightarrow> (nat \<Rightarrow> widget_call) \<Rightarrow> 'l gui \<Rightarrow> 'l gui res" where
  "on_button i c g = (if length (ui_buttons g) > unat i \<and> unat i < 2 ^ 31 then Inr (on_widget (c (unat i)) g) else Inl AssertionFailed)"

definition on_filter :: "u8 \<Rightarrow> (nat \<Rightarrow> widget_call) \<Rightarrow> 'l gui \<Rightarrow> 'l gui res" where
  "on_filter i c g = (if in_list (length (ui_filters g)) i then Inr (on_widget (c (unat i)) g) else Inl AssertionFailed)"

definition on_port :: "u8 \<Rightarrow> (nat \<Rightarrow> widget_call) \<Rightarrow> 'l gui \<Rightarrow> 'l gui res" where
  "on_port i c g = (if in_list (ui_ports g) i then Inr (on_widget (c (unat i)) g) else Inl AssertionFailed)"

definition on_filter_style :: "widgets \<Rightarrow> sheet_item \<Rightarrow> u32 \<Rightarrow> u32 \<Rightarrow> 'l gui \<Rightarrow> 'l gui res" where
  "on_filter_style w item i color g =
     (if unat i < length (ui_filters g)
      then let ss = sheet_setColor item color (new_stylesheet (filter_style w (unat i)))
           in Inr (on_widget (FilterSetStyle (unat i) (q_string (sheet_text ss))) g)
      else Inl AssertionFailed)"

text \<open>\<open>themeToName\<close> indexes the array of names with the theme converted to unsigned.\<close>

definition themeToName :: "int \<Rightarrow> string res" where
  "themeToName theme =
     (if theme < THEMES_MAX then (if 0 \<le> theme then Inr (theme_names ! nat theme) else Inl OutOfBounds)
      else Inl AssertionFailed)"

definition nameToTheme :: "string \<Rightarrow> int" where
  "nameToTheme name =
     (let i = find_pos (\<lambda>n. n = name) theme_names in if i < length theme_names then int i else THEMES_MAX)"

definition onReloadThemeSignal :: "u8 \<Rightarrow> 'l gui \<Rightarrow> 'l gui res" where
  "onReloadThemeSignal i g =
     (let theme = sint i
      in if theme < THEMES_MAX
         then mapE (\<lambda>log_name.
                notify (map (\<lambda>l. NotifyTheme l theme) (m_theme_listeners g)) (on_widget (LoadTheme theme) (g\<lparr>ui_theme := theme\<rparr>)))
              (themeToName theme)
         else Inl AssertionFailed)"

text \<open>The requests: \<open>execute\<close> stores the widget's answer in the request object.\<close>

fun execute_request :: "widgets \<Rightarrow> 'l gui \<Rightarrow> gui_request \<Rightarrow> string res" where
  "execute_request w g GetCommand = Inr (command_text w)"
| "execute_request w g GetLineEnding = Inr (line_ending_text w)"
| "execute_request w g (GetTraceFilter i) =
     (if length (ui_filters g) > unat i then Inr (filter_text w (unat i)) else Inl AssertionFailed)"
| "execute_request w g (GetTabName i) = Inr (if tab_widget_count w > i then tab_widget_text w i else [])"

definition onGuiRequestSignal :: "widgets \<Rightarrow> 'l gui \<Rightarrow> 'l gui res" where
  "onGuiRequestSignal w g =
     (case m_current_request g of
        None \<Rightarrow> Inl AssertionFailed
      | Some r \<Rightarrow> mapE (\<lambda>t. g\<lparr>request_answer := Some t\<rparr>) (execute_request w g r))"

definition onRegisterPortClosedSignal :: "widgets \<Rightarrow> string \<Rightarrow> 'l gui \<Rightarrow> 'l gui" where
  "onRegisterPortClosedSignal w name g =
     (let index = port_combo_find w name in if index \<noteq> -1 then on_widget (PortComboRemove index) g else g)"

definition onSetCommandHistorySignal :: "string list \<Rightarrow> 'l gui \<Rightarrow> 'l gui" where
  "onSetCommandHistorySignal history g =
     on_widget HistoryDeselect (fold (\<lambda>c. on_widget (HistoryInsertFirst c)) history (on_widget HistoryClear g))"

definition onAddToTraceViewSignal :: "widgets \<Rightarrow> string \<Rightarrow> u32 \<Rightarrow> u32 \<Rightarrow> 'l gui \<Rightarrow> 'l gui" where
  "onAddToTraceViewSignal w t bg fg g =
     (let g1 = on_widget (TraceAddItem t bg fg) g; g2 = g1\<lparr>trace_item_count := trace_item_count g1 + 1\<rparr>
      in if trace_at_bottom w then on_widget TraceScrollToBottom g2 else g2)"

definition onSetUserButtonTabNameSignal :: "widgets \<Rightarrow> int \<Rightarrow> string \<Rightarrow> 'l gui \<Rightarrow> 'l gui" where
  "onSetUserButtonTabNameSignal w i name g = (if tab_widget_count w > i then on_widget (TabText i name) g else g)"

fun gui_slot :: "widgets \<Rightarrow> gui_signal \<Rightarrow> 'l gui \<Rightarrow> 'l gui res" where
  "gui_slot w (SetButtonBackgroundColorSignal i c) g = on_button i (\<lambda>n. ButtonColour n c) g"
| "gui_slot w (SetButtonFontColorSignal i c) g = on_button i (\<lambda>n. ButtonTextColour n c) g"
| "gui_slot w (SetButtonCheckableSignal i b) g = on_button i (\<lambda>n. ButtonSetCheckable n b) g"
| "gui_slot w (SetButtonCheckedSignal i b) g = on_button i (\<lambda>n. ButtonSetChecked n b) g"
| "gui_slot w (SetButtonEnabledSignal i b) g = on_button i (\<lambda>n. ButtonSetEnabled n b) g"
| "gui_slot w (SetButtonTextSignal i t) g = on_button i (\<lambda>n. ButtonSetText n t) g"
| "gui_slot w ClearTerminalViewSignal g = Inr ((on_widget TerminalClear g)\<lparr>terminal_item_count := 0\<rparr>)"
| "gui_slot w ClearTraceViewSignal g = Inr ((on_widget TraceClear g)\<lparr>trace_item_count := 0\<rparr>)"
| "gui_slot w (AddToTerminalViewSignal t bg fg) g =
     (let g1 = on_widget (TerminalAppend t) g in Inr (g1\<lparr>terminal_item_count := terminal_item_count g1 + 1\<rparr>))"
| "gui_slot w (AddToTraceViewSignal t bg fg) g = Inr (onAddToTraceViewSignal w t bg fg g)"
| "gui_slot w ScrollTerminalToBottomSignal g = Inr (on_widget TerminalScrollToBottom g)"
| "gui_slot w ScrollTraceViewToBottomSignal g = Inr (on_widget TraceScrollToBottom g)"
| "gui_slot w (RegisterPortOpenedSignal name) g = Inr (on_widget (PortComboAdd name) g)"
| "gui_slot w (RegisterPortClosedSignal name) g = Inr (onRegisterPortClosedSignal w name g)"
| "gui_slot w (SetCommandHistorySignal history) g = Inr (onSetCommandHistorySignal history g)"
| "gui_slot w GuiRequestSignal g = onGuiRequestSignal w g"
| "gui_slot w (AddLineEndingSignal e) g = Inr (on_widget (LineEndingAdd e) g)"
| "gui_slot w (SetCurrentLineEndingSignal e) g = Inr (on_widget (LineEndingSelect e) g)"
| "gui_slot w (SetTraceFilterSignal i t) g = on_filter i (\<lambda>n. FilterSetText n t) g"
| "gui_slot w (SetTraceFilterEnabledSignal i b) g = on_filter i (\<lambda>n. FilterSetEnabled n b) g"
| "gui_slot w (SetTraceFilterBackgroundColorSignal i c) g = on_filter_style w BACKGROUND_COLOR i c g"
| "gui_slot w (SetTraceFilterFontColorSignal i c) g = on_filter_style w COLOR i c g"
| "gui_slot w (SetPortLabelTextSignal i t) g = on_port i (\<lambda>n. PortLabel n t) g"
| "gui_slot w (SetThroughputTextSignal i t) g = on_port i (\<lambda>n. PortThroughput n t) g"
| "gui_slot w (ReloadThemeSignal i) g = onReloadThemeSignal i g"
| "gui_slot w (SetStatusBarNotificationSignal t tmo) g = Inr (on_widget (StatusBar t tmo) g)"
| "gui_slot w (SetInfoLabelTextSignal t) g = Inr (on_widget (InfoLabel t) g)"
| "gui_slot w (SetApplicationTitleSignal t) g = Inr (on_widget (WindowTitle t) g)"
| "gui_slot w ClearCurrentCommandSignal g = Inr (on_widget CommandClear g)"
| "gui_slot w (SetUserButtonTabNameSignal i t) g = Inr (onSetUserButtonTabNameSignal w i t g)"

text \<open>Emitting from the GUI thread and from another one, and one turn of the event loop.\<close>

definition gui_emit :: "bool \<Rightarrow> widgets \<Rightarrow> gui_signal \<Rightarrow> 'l gui \<Rightarrow> 'l gui res" where
  "gui_emit in_gui_thread w sig g = (if in_gui_thread then gui_slot w sig g else Inr (g\<lparr>posted := posted g @ [sig]\<rparr>))"

definition process_event :: "widgets \<Rightarrow> 'l gui \<Rightarrow> 'l gui res" where
  "process_event w g = (case posted g of [] \<Rightarrow> Inr g | sig # rest \<Rightarrow> gui_slot w sig (g\<lparr>posted := rest\<rparr>))"

fun process_events :: "widgets \<Rightarrow> nat \<Rightarrow> 'l gui \<Rightarrow> 'l gui res" where
  "process_events w 0 g = Inr g"
| "process_events w (Suc n) g = bindE (process_event w g) (process_events w n)"

section \<open>Methods\<close>

type_synonym 'l gui_op = "bool \<Rightarrow> widgets \<Rightarrow> 'l gui \<Rightarrow> 'l gui res"

text \<open>The methods that emit a signal; their first argument says whether the GUI thread calls.\<close>

definition gui_setButtonBackgroundColor :: "u32 \<Rightarrow> u32 \<Rightarrow> 'l gui_op" where
  "gui_setButtonBackgroundColor i c = (\<lambda>here w. gui_emit here w (SetButtonBackgroundColorSignal i c))"

definition gui_setButtonFontColor :: "u32 \<Rightarrow> u32 \<Rightarrow> 'l gui_op" where
  "gui_setButtonFontColor i c = (\<lambda>here w. gui_emit here w (SetButtonFontColorSignal i c))"

definition gui_setButtonCheckable :: "u32 \<Rightarrow> bool \<Rightarrow> 'l gui_op" where
  "gui_setButtonCheckable i b = (\<lambda>here w. gui_emit here w (SetButtonCheckableSignal i b))"

definition gui_setButtonChecked :: "u32 \<Rightarrow> bool \<Rightarrow> 'l gui_op" where
  "gui_setButtonChecked i b = (\<lambda>here w. gui_emit here w (SetButtonCheckedSignal i b))"

definition gui_setButtonEnabled :: "u32 \<Rightarrow> bool \<Rightarrow> 'l gui_op" where
  "gui_setButtonEnabled i b = (\<lambda>here w. gui_emit here w (SetButtonEnabledSignal i b))"

definition gui_setButtonText :: "u32 \<Rightarrow> string \<Rightarrow> 'l gui_op" where
  "gui_setButtonText i t = (\<lambda>here w. gui_emit here w (SetButtonTextSignal i (q_string t)))"

definition gui_clearTerminalView :: "'l gui_op" where
  "gui_clearTerminalView = (\<lambda>here w. gui_emit here w (ClearTerminalViewSignal))"

definition gui_clearTraceView :: "'l gui_op" where
  "gui_clearTraceView = (\<lambda>here w. gui_emit here w (ClearTraceViewSignal))"

definition gui_addToTerminalView :: "string \<Rightarrow> u32 \<Rightarrow> u32 \<Rightarrow> 'l gui_op" where
  "gui_addToTerminalView t bg fg = (\<lambda>here w. gui_emit here w (AddToTerminalViewSignal (q_string t) bg fg))"

definition gui_addToTraceView :: "string \<Rightarrow> u32 \<Rightarrow> u32 \<Rightarrow> 'l gui_op" where
  "gui_addToTraceView t bg fg = (\<lambda>here w. gui_emit here w (AddToTraceViewSignal (q_string t) bg fg))"

definition gui_scrollTerminalToBottom :: "'l gui_op" where
  "gui_scrollTerminalToBottom = (\<lambda>here w. gui_emit here w (ScrollTerminalToBottomSignal))"

definition gui_scrollTraceViewToBottom :: "'l gui_op" where
  "gui_scrollTraceViewToBottom = (\<lambda>here w. gui_emit here w (ScrollTraceViewToBottomSignal))"

definition gui_registerPortOpened :: "string \<Rightarrow> 'l gui_op" where
  "gui_registerPortOpened name = (\<lambda>here w. gui_emit here w (RegisterPortOpenedSignal (q_string name)))"

definition gui_registerPortClosed :: "string \<Rightarrow> 'l gui_op" where
  "gui_registerPortClosed name = (\<lambda>here w. gui_emit here w (RegisterPortClosedSignal (q_string name)))"

definition gui_setCommandsHistory :: "string list \<Rightarrow> 'l gui_op" where
  "gui_setCommandsHistory history = (\<lambda>here w. gui_emit here w (SetCommandHistorySignal (map q_string history)))"

definition gui_clearCommand :: "'l gui_op" where
  "gui_clearCommand = (\<lambda>here w. gui_emit here w (ClearCurrentCommandSignal))"

definition gui_addLineEnding :: "string \<Rightarrow> 'l gui_op" where
  "gui_addLineEnding e = (\<lambda>here w. gui_emit here w (AddLineEndingSignal (q_string e)))"

definition gui_setCurrentLineEnding :: "string \<Rightarrow> 'l gui_op" where
  "gui_setCurrentLineEnding e = (\<lambda>here w. gui_emit here w (SetCurrentLineEndingSignal (q_string e)))"

definition gui_setTraceFilter :: "u8 \<Rightarrow> string \<Rightarrow> 'l gui_op" where
  "gui_setTraceFilter i t = (\<lambda>here w. gui_emit here w (SetTraceFilterSignal i (q_string t)))"

definition gui_setTraceFilterEnabled :: "u8 \<Rightarrow> bool \<Rightarrow> 'l gui_op" where
  "gui_setTraceFilterEnabled i b = (\<lambda>here w. gui_emit here w (SetTraceFilterEnabledSignal i b))"

definition gui_setTraceFilterBackgroundColor :: "u32 \<Rightarrow> u32 \<Rightarrow> 'l gui_op" where
  "gui_setTraceFilterBackgroundColor i c = (\<lambda>here w. gui_emit here w (SetTraceFilterBackgroundColorSignal i c))"

definition gui_setTraceFilterFontColor :: "u32 \<Rightarrow> u32 \<Rightarrow> 'l gui_op" where
  "gui_setTraceFilterFontColor i c = (\<lambda>here w. gui_emit here w (SetTraceFilterFontColorSignal i c))"

definition gui_setPortLabelText :: "u8 \<Rightarrow> string \<Rightarrow> 'l gui_op" where
  "gui_setPortLabelText i t = (\<lambda>here w. gui_emit here w (SetPortLabelTextSignal i (q_string t)))"

definition gui_setThroughputText :: "u8 \<Rightarrow> string \<Rightarrow> 'l gui_op" where
  "gui_setThroughputText i t = (\<lambda>here w. gui_emit here w (SetThroughputTextSignal i (q_string t)))"

definition gui_reloadTheme :: "u8 \<Rightarrow> 'l gui_op" where
  "gui_reloadTheme theme = (\<lambda>here w. gui_emit here w (ReloadThemeSignal theme))"

definition gui_setTabName :: "int \<Rightarrow> string \<Rightarrow> 'l gui_op" where
  "gui_setTabName i t = (\<lambda>here w. gui_emit here w (SetUserButtonTabNameSignal i (q_string t)))"

definition gui_setStatusBarNotification :: "string \<Rightarrow> u32 \<Rightarrow> 'l gui_op" where
  "gui_setStatusBarNotification t tmo = (\<lambda>here w. gui_emit here w (SetStatusBarNotificationSignal (q_string t) tmo))"

definition gui_setInfoLabelText :: "string \<Rightarrow> 'l gui_op" where
  "gui_setInfoLabelText t = (\<lambda>here w. gui_emit here w (SetInfoLabelTextSignal (q_string t)))"

definition gui_setApplicationTitle :: "string \<Rightarrow> 'l gui_op" where
  "gui_setApplicationTitle t = (\<lambda>here w. gui_emit here w (SetApplicationTitleSignal (q_string t)))"

definition getButtonID :: "string \<Rightarrow> 'l gui \<Rightarrow> u32" where
  "getButtonID name g =
     (let i = find_pos (\<lambda>n. n = name) (ui_buttons g) in if i < length (ui_buttons g) then word_of_nat i else - 1)"

definition subscribeForButtonEvent :: "u32 \<Rightarrow> GuiEvent \<Rightarrow> 'l \<Rightarrow> 'l gui \<Rightarrow> 'l gui" where
  "subscribeForButtonEvent i e l g =
     (let hit = (\<lambda>x. item_id x = i \<and> item_event x = e); new = \<lparr>item_id = i, item_event = e, item_listener = l\<rparr>
      in if \<exists>x \<in> set (m_button_listeners g). hit x
         then g\<lparr>m_button_listeners := update_first hit (\<lambda>x. new) (m_button_listeners g)\<rparr>
         else g\<lparr>m_button_listeners := m_button_listeners g @ [new]\<rparr>)"

definition unsubscribeFromButtonEvent :: "u32 \<Rightarrow> GuiEvent \<Rightarrow> 'l \<Rightarrow> 'l gui \<Rightarrow> 'l gui" where
  "unsubscribeFromButtonEvent i e l g =
     g\<lparr>m_button_listeners :=
         erase_first (\<lambda>x. item_id x = i \<and> item_event x = e \<and> item_listener x = l) (m_button_listeners g)\<rparr>"

definition subscribeForThemeReloadEvent :: "'l \<Rightarrow> 'l gui \<Rightarrow> 'l gui" where
  "subscribeForThemeReloadEvent l g =
     (if l \<in> set (m_theme_listeners g) then g else g\<lparr>m_theme_listeners := m_theme_listeners g @ [l]\<rparr>)"

definition unsubscribeFromThemeReloadEvent :: "'l \<Rightarrow> 'l gui \<Rightarrow> 'l gui" where
  "unsubscribeFromThemeReloadEvent l g = g\<lparr>m_theme_listeners := erase_first (\<lambda>x. x = l) (m_theme_listeners g)\<rparr>"

definition subscribeForTabNameChangeRequest :: "int \<Rightarrow> 'l \<Rightarrow> 'l gui \<Rightarrow> 'l gui" where
  "subscribeForTabNameChangeRequest i l g =
     (if (i, l) \<in> set (m_tab_name_listeners g)
      then g\<lparr>m_tab_name_listeners := update_first (\<lambda>x. x = (i, l)) (\<lambda>x. (i, l)) (m_tab_name_listeners g)\<rparr>
      else g\<lparr>m_tab_name_listeners := m_tab_name_listeners g @ [(i, l)]\<rparr>)"

definition unsubscribeFromTabNameChangeRequest :: "int \<Rightarrow> 'l \<Rightarrow> 'l gui \<Rightarrow> 'l gui" where
  "unsubscribeFromTabNameChangeRequest i l g =
     g\<lparr>m_tab_name_listeners := erase_first (\<lambda>x. x = (i, l)) (m_tab_name_listeners g)\<rparr>"

definition subscribeForActivePortChangedEvent :: "'l gui \<Rightarrow> 'l gui" where
  "subscribeForActivePortChangedEvent g = g\<lparr>has_port_listener := True\<rparr>"

text \<open>
  \<open>executeGUIRequest\<close> in two steps: \<open>request_begin\<close> up to the signal, and \<open>request_end\<close>
  after the wait of 500 ms, which is over early when the request was executed. Another caller
  cannot begin in between: it waits for the mutex.
\<close>

definition request_begin :: "bool \<Rightarrow> widgets \<Rightarrow> gui_request \<Rightarrow> 'l gui \<Rightarrow> 'l gui res option" where
  "request_begin here w r g =
     (if m_current_request g = None
      then Some (gui_emit here w GuiRequestSignal (g\<lparr>m_current_request := Some r, request_answer := None\<rparr>))
      else None)"

definition request_end :: "'l gui \<Rightarrow> (bool \<times> string) \<times> 'l gui" where
  "request_end g =
     ((case request_answer g of None \<Rightarrow> (False, []) | Some t \<Rightarrow> (True, t)),
      g\<lparr>m_current_request := None, request_answer := None\<rparr>)"

section \<open>Events of the user\<close>

text \<open>
  \<open>run\<close> fills the map of widgets that stand for a button: the filter lines and the command
  line. The key shortcuts are connected to the same slot as the buttons, but not in the map.
\<close>

definition gui_run :: "'l gui \<Rightarrow> 'l gui" where
  "gui_run g =
     g\<lparr>m_shortcuts_map := map (\<lambda>i. (FilterLine i, ui_filters g ! i)) [0..<length (ui_filters g)] @ [(CommandLine, ui_send_button g)]\<rparr>"

definition sender_button :: "gui_object \<Rightarrow> 'l gui \<Rightarrow> string option" where
  "sender_button sender g =
     (case map_of (m_shortcuts_map g) sender of
        Some b \<Rightarrow> Some b
      | None \<Rightarrow> (case sender of ButtonObject b \<Rightarrow> Some b | _ \<Rightarrow> None))"

definition notify_button :: "u32 \<Rightarrow> GuiEvent \<Rightarrow> 'l gui \<Rightarrow> 'l gui" where
  "notify_button i e g =
     notify (map (\<lambda>x. NotifyButton (item_listener x) i e)
               (filter (\<lambda>x. item_id x = i \<and> item_event x = e) (m_button_listeners g))) g"

definition gui_onButtonEvent :: "GuiEvent \<Rightarrow> gui_object \<Rightarrow> 'l gui \<Rightarrow> 'l gui" where
  "gui_onButtonEvent e sender g =
     (case sender_button sender g of
        None \<Rightarrow> g
      | Some b \<Rightarrow>
          let i = find_pos (\<lambda>n. n = b) (ui_buttons g)
          in if i < length (ui_buttons g) then notify_button (word_of_nat i) e g else g)"

definition gui_onButtonClicked :: "gui_object \<Rightarrow> 'l gui \<Rightarrow> 'l gui" where
  "gui_onButtonClicked sender g = gui_onButtonEvent GUI_CLICKED sender g"

definition gui_onButtonContextMenuRequested :: "gui_object \<Rightarrow> 'l gui \<Rightarrow> 'l gui" where
  "gui_onButtonContextMenuRequested sender g = gui_onButtonEvent GUI_CONTEXT_MENU_REQUESTED sender g"

definition gui_onCurrentPortSelectionChanged :: "widgets \<Rightarrow> int \<Rightarrow> 'l gui \<Rightarrow> 'l gui" where
  "gui_onCurrentPortSelectionChanged w index g =
     (if has_port_listener g then notify [NotifyPort (port_combo_text w index)] g else g)"

definition onPortSwitchRequest :: "widgets \<Rightarrow> 'l gui \<Rightarrow> 'l gui" where
  "onPortSwitchRequest w g =
     (if port_combo_count w > 1
      then (if port_combo_index w = port_combo_count w - 1 then on_widget (PortComboSelect 0) g
            else on_widget (PortComboSelect (port_combo_index w + 1)) g)
      else g)"

definition gui_onTabNameChangeRequest :: "int \<Rightarrow> 'l gui \<Rightarrow> 'l gui" where
  "gui_onTabNameChangeRequest index g =
     notify (map (\<lambda>(i, l). NotifyTab l) (filter (\<lambda>(i, l). i = index) (m_tab_name_listeners g))) g"

section \<open>The table of button listeners\<close>

text \<open>
  The contract of a table of listeners: a map from keys to listeners. Subscribing replaces the
  listener of the key, unsubscribing removes it if it is the listener named, and an event of a
  key reaches the listener of the map, if there is one, and nobody else.
\<close>

locale listener_table =
  fixes table_ok :: "'t \<Rightarrow> bool"
    and lookup :: "'t \<Rightarrow> 'k \<rightharpoonup> 'l"
    and subscribe :: "'k \<Rightarrow> 'l \<Rightarrow> 't \<Rightarrow> 't"
    and unsubscribe :: "'k \<Rightarrow> 'l \<Rightarrow> 't \<Rightarrow> 't"
    and listeners :: "'k \<Rightarrow> 't \<Rightarrow> 'l list"
  assumes subscribe_ok: "table_ok t \<Longrightarrow> table_ok (subscribe k l t)"
    and unsubscribe_ok: "table_ok t \<Longrightarrow> table_ok (unsubscribe k l t)"
    and lookup_subscribe: "table_ok t \<Longrightarrow> lookup (subscribe k l t) = (lookup t)(k \<mapsto> l)"
    and lookup_unsubscribe:
      "table_ok t \<Longrightarrow> lookup (unsubscribe k l t) = (if lookup t k = Some l then (lookup t)(k := None) else lookup t)"
    and listeners_lookup: "table_ok t \<Longrightarrow> listeners k t = (case lookup t k of None \<Rightarrow> [] | Some l \<Rightarrow> [l])"
begin

primrec change :: "('k \<times> 'l) + ('k \<times> 'l) \<Rightarrow> 't \<Rightarrow> 't" where
  "change (Inl kl) t = subscribe (fst kl) (snd kl) t"
| "change (Inr kl) t = unsubscribe (fst kl) (snd kl) t"

primrec change_map :: "('k \<times> 'l) + ('k \<times> 'l) \<Rightarrow> ('k \<rightharpoonup> 'l) \<Rightarrow> ('k \<rightharpoonup> 'l)" where
  "change_map (Inl kl) m = m(fst kl \<mapsto> snd kl)"
| "change_map (Inr kl) m = (if m (fst kl) = Some (snd kl) then m(fst kl := None) else m)"

lemma changes: "table_ok t \<Longrightarrow> table_ok (fold change cs t) \<and> lookup (fold change cs t) = fold change_map cs (lookup t)"
proof (induction cs arbitrary: t)
  case (Cons c cs)
  have "table_ok (change c t)" "lookup (change c t) = change_map c (lookup t)"
    using Cons.prems by (cases c; simp add: subscribe_ok unsubscribe_ok lookup_subscribe lookup_unsubscribe)+
  then show ?case using Cons.IH by simp
qed simp

lemma listeners_after:
  "table_ok t \<Longrightarrow>
   listeners k (fold change cs t) = (case fold change_map cs (lookup t) k of None \<Rightarrow> [] | Some l \<Rightarrow> [l])"
  using changes [of t cs] listeners_lookup by simp

end

definition item_key :: "'l button_event_item \<Rightarrow> u32 \<times> GuiEvent" where
  "item_key x = (item_id x, item_event x)"

definition buttons_ok :: "'l gui \<Rightarrow> bool" where
  "buttons_ok g \<longleftrightarrow> distinct (map item_key (m_button_listeners g))"

definition button_lookup :: "'l gui \<Rightarrow> (u32 \<times> GuiEvent) \<rightharpoonup> 'l" where
  "button_lookup g = map_of (map (\<lambda>x. (item_key x, item_listener x)) (m_button_listeners g))"

definition button_listeners :: "(u32 \<times> GuiEvent) \<Rightarrow> 'l gui \<Rightarrow> 'l list" where
  "button_listeners k g = map item_listener (filter (\<lambda>x. item_key x = k) (m_button_listeners g))"

lemma item_key_iff: "item_id x = i \<and> item_event x = e \<longleftrightarrow> item_key x = (i, e)"
  by (simp add: item_key_def)

lemma filter_distinct_key:
  "distinct (map f xs) \<Longrightarrow>
   map g (filter (\<lambda>x. f x = k) xs) = (case map_of (map (\<lambda>x. (f x, g x)) xs) k of None \<Rightarrow> [] | Some l \<Rightarrow> [l])"
proof (induction xs)
  case (Cons x xs)
  have "f x = k \<Longrightarrow> filter (\<lambda>y. f y = k) xs = []"
    using Cons.prems by (auto simp: filter_empty_conv image_iff)
  then show ?case using Cons by auto
qed simp

lemma map_of_update_key:
  "\<exists>x \<in> set xs. f x = k \<Longrightarrow> f new = k \<Longrightarrow>
   map_of (map (\<lambda>x. (f x, g x)) (update_first (\<lambda>x. f x = k) (\<lambda>x. new) xs)) =
   (map_of (map (\<lambda>x. (f x, g x)) xs))(k \<mapsto> g new)"
proof (induction xs)
  case (Cons x xs)
  show ?case
  proof (cases "f x = k")
    case True
    with Cons.prems show ?thesis by (simp add: fun_eq_iff)
  next
    case False
    with Cons have "\<exists>y \<in> set xs. f y = k" by auto
    from Cons.IH [OF this Cons.prems(2)] False show ?thesis by (auto simp: fun_eq_iff)
  qed
qed simp

lemma map_of_append_key:
  "\<forall>x \<in> set xs. f x \<noteq> k \<Longrightarrow> f new = k \<Longrightarrow>
   map_of (map (\<lambda>x. (f x, g x)) (xs @ [new])) = (map_of (map (\<lambda>x. (f x, g x)) xs))(k \<mapsto> g new)"
  by (induction xs) (auto simp: fun_eq_iff)

lemma map_of_erase_key:
  "distinct (map f xs) \<Longrightarrow>
   map_of (map (\<lambda>x. (f x, g x)) (erase_first (\<lambda>x. f x = k \<and> g x = l) xs)) =
   (if map_of (map (\<lambda>x. (f x, g x)) xs) k = Some l then (map_of (map (\<lambda>x. (f x, g x)) xs))(k := None)
    else map_of (map (\<lambda>x. (f x, g x)) xs))"
proof (induction xs)
  case (Cons x xs)
  have "f x = k \<Longrightarrow> map_of (map (\<lambda>x. (f x, g x)) xs) k = None"
    using Cons.prems by (auto simp: map_of_eq_None_iff image_iff)
  then show ?case using Cons by (auto simp: fun_eq_iff)
qed auto

interpretation button_table: listener_table "buttons_ok :: 'a gui \<Rightarrow> bool" button_lookup
  "\<lambda>k. subscribeForButtonEvent (fst k) (snd k)" "\<lambda>k. unsubscribeFromButtonEvent (fst k) (snd k)" button_listeners
proof unfold_locales
  fix g :: "'a gui" and k :: "u32 \<times> GuiEvent" and l :: 'a
  assume ok: "buttons_ok g"
  let ?new = "\<lparr>item_id = fst k, item_event = snd k, item_listener = l\<rparr>"
  have new: "item_key ?new = k" "item_listener ?new = l" by (simp_all add: item_key_def)
  show "button_listeners k g = (case button_lookup g k of None \<Rightarrow> [] | Some l \<Rightarrow> [l])"
    using ok filter_distinct_key [of item_key "m_button_listeners g" item_listener k]
    by (simp only: button_listeners_def button_lookup_def buttons_ok_def)
  show "buttons_ok (unsubscribeFromButtonEvent (fst k) (snd k) l g)"
    using ok distinct_map_erase_first by (auto simp: buttons_ok_def unsubscribeFromButtonEvent_def)
  show "button_lookup (unsubscribeFromButtonEvent (fst k) (snd k) l g) =
      (if button_lookup g k = Some l then (button_lookup g)(k := None) else button_lookup g)"
    using map_of_erase_key [of item_key "m_button_listeners g" item_listener k l] ok
    by (simp add: button_lookup_def unsubscribeFromButtonEvent_def buttons_ok_def item_key_iff flip: conj_assoc)
  show "buttons_ok (subscribeForButtonEvent (fst k) (snd k) l g) "
  proof (cases "\<exists>x \<in> set (m_button_listeners g). item_key x = k")
    case True
    have "map item_key (update_first (\<lambda>x. item_key x = k) (\<lambda>x. ?new) xs) = map item_key xs" for xs :: "'a button_event_item list"
      by (induction xs) (auto simp: new(1))
    with True ok show ?thesis by (simp add: subscribeForButtonEvent_def buttons_ok_def item_key_iff Let_def)
  next
    case False
    with ok new(1) show ?thesis by (auto simp: subscribeForButtonEvent_def buttons_ok_def item_key_iff Let_def)
  qed
  show "button_lookup (subscribeForButtonEvent (fst k) (snd k) l g) = (button_lookup g)(k \<mapsto> l)"
    using map_of_update_key [of "m_button_listeners g" item_key k ?new item_listener]
      map_of_append_key [of "m_button_listeners g" item_key k ?new item_listener] new
    by (auto simp: subscribeForButtonEvent_def button_lookup_def item_key_iff Let_def)
qed

section \<open>Requests and the event queue\<close>

text \<open>Slots leave the queue and the running request alone, but for the request's own slot.\<close>

lemma widget_fields [simp]:
  "posted (on_widget c g) = posted g" "m_current_request (on_widget c g) = m_current_request g"
  "request_answer (on_widget c g) = request_answer g" "ui_filters (on_widget c g) = ui_filters g"
  "ui_buttons (on_widget c g) = ui_buttons g" "m_shortcuts_map (on_widget c g) = m_shortcuts_map g"
  "m_button_listeners (on_widget c g) = m_button_listeners g" "notified (on_widget c g) = notified g"
  by (simp_all add: on_widget_def)

lemma gui_notify_fields [simp]:
  "posted (notify ns g) = posted g" "m_current_request (notify ns g) = m_current_request g"
  "request_answer (notify ns g) = request_answer g" "ui_filters (notify ns g) = ui_filters g"
  by (simp_all add: notify_def)

definition same_request :: "'l gui \<Rightarrow> 'l gui \<Rightarrow> bool" where
  "same_request g h \<longleftrightarrow>
     posted h = posted g \<and> m_current_request h = m_current_request g \<and> request_answer h = request_answer g \<and>
     ui_filters h = ui_filters g"

lemma same_request_refl [simp]: "same_request g g"
  by (simp add: same_request_def)

lemma same_request_trans: "same_request g h \<Longrightarrow> same_request h k \<Longrightarrow> same_request g k"
  by (simp add: same_request_def)

lemma history_same_request: "same_request g (onSetCommandHistorySignal history g)"
proof -
  have "same_request g (fold (\<lambda>c. on_widget (HistoryInsertFirst c)) history g)" for g :: "'a gui"
    by (induction history arbitrary: g) (simp, simp add: same_request_def)
  then show ?thesis by (simp add: onSetCommandHistorySignal_def same_request_def)
qed

lemmas history_fields [simp] = history_same_request [unfolded same_request_def]

lemma slot_same_request:
  "gui_slot w sig g = Inr h \<Longrightarrow> sig \<noteq> GuiRequestSignal \<Longrightarrow> same_request g h"
  by (cases sig)
    (auto simp: on_button_def on_filter_def on_port_def on_filter_style_def onReloadThemeSignal_def mapE_Inr_iff
      onAddToTraceViewSignal_def onRegisterPortClosedSignal_def onSetUserButtonTabNameSignal_def Let_def same_request_def
      split: if_splits)

lemma process_others:
  assumes "GuiRequestSignal \<notin> set sigs" "posted g = sigs @ rest" "process_events w (length sigs) g = Inr h"
  shows "posted h = rest \<and> m_current_request h = m_current_request g \<and> request_answer h = request_answer g \<and>
    ui_filters h = ui_filters g"
  using assms
proof (induction sigs arbitrary: g)
  case (Cons sig sigs)
  from Cons.prems obtain k where k: "gui_slot w sig (g\<lparr>posted := sigs @ rest\<rparr>) = Inr k" "process_events w (length sigs) k = Inr h"
    by (auto simp: process_event_def bindE_Inr_iff)
  have "same_request (g\<lparr>posted := sigs @ rest\<rparr>) k" using slot_same_request [OF k(1)] Cons.prems(1) by auto
  then show ?case using Cons.IH [of k] Cons.prems(1) k(2) by (simp add: same_request_def)
qed simp

lemma process_events_add:
  fixes g :: "'l gui"
  shows "process_events w (m + n) g = bindE (process_events w m g) (process_events w n)"
proof (induction m arbitrary: g)
  case (Suc m)
  have "(process_events w (m + n) :: 'l gui \<Rightarrow> 'l gui res) = (\<lambda>g. bindE (process_events w m g) (process_events w n))"
    by (rule ext) (rule Suc.IH)
  then show ?case by (simp add: bindE_assoc)
qed simp

lemma process_events_snoc:
  fixes g :: "'l gui"
  shows "process_events w (Suc n) g = bindE (process_events w n g) (process_event w)"
proof -
  have "process_events w 0 = (Inr :: 'l gui \<Rightarrow> 'l gui res)" by (rule ext) simp
  then have "process_events w (Suc 0) = (process_event w :: 'l gui \<Rightarrow> 'l gui res)" by (intro ext) simp
  then show ?thesis using process_events_add [of w n "Suc 0" g] by simp
qed

section \<open>Properties\<close>

primrec subscription :: "((u32 \<times> GuiEvent) \<times> 'l) + ((u32 \<times> GuiEvent) \<times> 'l) \<Rightarrow> 'l gui \<Rightarrow> 'l gui" where
  "subscription (Inl kl) g = subscribeForButtonEvent (fst (fst kl)) (snd (fst kl)) (snd kl) g"
| "subscription (Inr kl) g = unsubscribeFromButtonEvent (fst (fst kl)) (snd (fst kl)) (snd kl) g"

primrec subscription_map ::
  "((u32 \<times> GuiEvent) \<times> 'l) + ((u32 \<times> GuiEvent) \<times> 'l) \<Rightarrow> ((u32 \<times> GuiEvent) \<rightharpoonup> 'l) \<Rightarrow> ((u32 \<times> GuiEvent) \<rightharpoonup> 'l)" where
  "subscription_map (Inl kl) m = m(fst kl \<mapsto> snd kl)"
| "subscription_map (Inr kl) m = (if m (fst kl) = Some (snd kl) then m(fst kl := None) else m)"

lemma subscription_change: "subscription c g = button_table.change c g"
  by (cases c) simp_all

lemma subscription_map_change: "subscription_map c m = button_table.change_map c m"
  by (cases c) simp_all

lemma subscriptions_change:
  "subscription = button_table.change" "subscription_map = button_table.change_map"
  by (rule ext, rule ext, rule subscription_change) (rule ext, rule ext, subst subscription_map_change, rule refl)

lemma notify_button_listeners:
  "notified (notify_button i e g) = notified g @ map (\<lambda>l. NotifyButton l i e) (button_listeners (i, e) g)"
  by (simp add: notify_button_def notify_def button_listeners_def item_key_iff comp_def)

lemma subscription_ui [simp]:
  "ui_buttons (fold subscription cs g) = ui_buttons g \<and> m_shortcuts_map (fold subscription cs g) = m_shortcuts_map g"
proof (induction cs arbitrary: g)
  case (Cons c cs)
  have "ui_buttons (subscription c g) = ui_buttons g \<and> m_shortcuts_map (subscription c g) = m_shortcuts_map g"
    by (cases c) (auto simp: subscribeForButtonEvent_def unsubscribeFromButtonEvent_def Let_def)
  with Cons.IH [of "subscription c g"] show ?case by simp
qed simp

text \<open>
  C36. Whatever was subscribed and unsubscribed before, in whatever order, a click on a button
  reaches exactly the listener that the table of subscriptions names for it (the last one
  subscribed and not unsubscribed by itself since), once, and nobody when there is none.
\<close>

theorem button_events_reach_their_listener:
  "\<lbrakk>m_button_listeners g = []; m_shortcuts_map g = []; i < length (ui_buttons g); distinct (ui_buttons g); length (ui_buttons g) < 2 ^ 32;
    h = fold subscription cs (gui_run g)\<rbrakk> \<Longrightarrow>
   notified (gui_onButtonClicked (ButtonObject (ui_buttons g ! i)) h) =
     notified h @ (case fold subscription_map cs Map.empty (word_of_nat i, GUI_CLICKED) of
                     None \<Rightarrow> [] | Some l \<Rightarrow> [NotifyButton l (word_of_nat i) GUI_CLICKED])"
proof -
  assume a: "m_button_listeners g = []" "i < length (ui_buttons g)" "distinct (ui_buttons g)" "h = fold subscription cs (gui_run g)"
  have run: "ui_buttons h = ui_buttons g" "m_shortcuts_map h = m_shortcuts_map (gui_run g)"
    by (simp_all add: a(4) gui_run_def)
  have "map_of (m_shortcuts_map h) (ButtonObject b) = None" for b
    by (auto simp: run gui_run_def map_of_eq_None_iff)
  moreover have "find_pos (\<lambda>n. n = ui_buttons g ! i) (ui_buttons g) = i"
    using find_pos_first_nth a(2,3) by blast
  ultimately have "gui_onButtonClicked (ButtonObject (ui_buttons g ! i)) h = notify_button (word_of_nat i) GUI_CLICKED h"
    using a(2) run(1) by (simp add: gui_onButtonClicked_def gui_onButtonEvent_def sender_button_def Let_def)
  moreover have "button_listeners k h = (case fold subscription_map cs Map.empty k of None \<Rightarrow> [] | Some l \<Rightarrow> [l])" for k
    using button_table.listeners_after [of "gui_run g" k cs] a(1,4)
    by (simp add: subscriptions_change gui_run_def buttons_ok_def button_lookup_def)
  ultimately show ?thesis by (simp add: notify_button_listeners split: option.split)
qed

definition example_gui :: "nat gui" where
  "example_gui = \<lparr>ui_buttons = [''sendButton'', ''portButton_0''], ui_filters = [''traceFilterButton_0''], ui_ports = 1,
     ui_send_button = ''sendButton'', ui_theme = 0, terminal_item_count = 0, trace_item_count = 0, has_port_listener = False,
     m_current_request = None, request_answer = None, m_theme_listeners = [], m_button_listeners = [], m_shortcuts_map = [],
     m_tab_name_listeners = [], widget_calls = [], notified = [], posted = []\<rparr>"

definition example_widgets :: widgets where
  "example_widgets = \<lparr>port_combo_text = (\<lambda>i. ''PORT1''), port_combo_find = (\<lambda>n. 0), port_combo_count = 2, port_combo_index = 1,
     tab_widget_count = 1, tab_widget_text = (\<lambda>i. ''TAB0''), command_text = ''ls'', line_ending_text = ''EMPTY'',
     filter_text = (\<lambda>i. ''err''), filter_style = (\<lambda>i. []), trace_at_bottom = True\<rparr>"

theorem button_events_reach_their_listener_witness:
  "notified (gui_onButtonClicked (ButtonObject ''portButton_0'')
     (fold subscription [Inl ((1, GUI_CLICKED), 4), Inl ((1, GUI_CLICKED), 5), Inr ((1, GUI_CLICKED), 4)] (gui_run example_gui))) =
   [NotifyButton 5 1 GUI_CLICKED]"
proof -
  have n: "notified (fold subscription [Inl ((1, GUI_CLICKED), 4), Inl ((1, GUI_CLICKED), 5), Inr ((1, GUI_CLICKED), 4)]
      (gui_run example_gui)) = []"
    by (simp add: subscribeForButtonEvent_def unsubscribeFromButtonEvent_def Let_def gui_run_def example_gui_def)
  show ?thesis
    using button_events_reach_their_listener [of example_gui 1, OF _ _ _ _ _ refl,
        of "[Inl ((1, GUI_CLICKED), 4), Inl ((1, GUI_CLICKED), 5), Inr ((1, GUI_CLICKED), 4)]"] n
    by (simp add: example_gui_def)
qed

text \<open>
  A question another thread asks the window is answered: while no question is running or
  queued, the request waits behind the signals queued before it, and when the GUI thread has
  handled them it holds what the widget answered.
\<close>

theorem gui_request_answered:
  "\<lbrakk>m_current_request g = None; GuiRequestSignal \<notin> set (posted g); request_begin False w r g = Some (Inr h);
    process_events w (length (posted h)) h = Inr k\<rbrakk> \<Longrightarrow>
   \<exists>t. execute_request w g r = Inr t \<and> fst (request_end k) = (True, t) \<and>
     m_current_request (snd (request_end k)) = None \<and> posted (snd (request_end k)) = []"
proof -
  assume a: "m_current_request g = None" "GuiRequestSignal \<notin> set (posted g)" "request_begin False w r g = Some (Inr h)"
    "process_events w (length (posted h)) h = Inr k"
  have h: "h = g\<lparr>m_current_request := Some r, request_answer := None, posted := posted g @ [GuiRequestSignal]\<rparr>"
    using a(1,3) by (auto simp: request_begin_def gui_emit_def)
  then have len: "length (posted h) = Suc (length (posted g))" by simp
  obtain j where j: "process_events w (length (posted g)) h = Inr j" "process_event w j = Inr k"
    using a(4) unfolding len process_events_snoc bindE_Inr_iff by blast
  have "posted j = [GuiRequestSignal]" "m_current_request j = Some r" "ui_filters j = ui_filters g"
    using process_others [OF a(2) _ j(1), of "[GuiRequestSignal]"] h by auto
  then obtain t where "execute_request w j r = Inr t" "request_answer k = Some t" "posted k = []"
    using j(2) by (cases r) (auto simp: process_event_def onGuiRequestSignal_def mapE_Inr_iff)
  moreover have "execute_request w j r = execute_request w g r"
    using \<open>ui_filters j = ui_filters g\<close> by (cases r) simp_all
  ultimately show ?thesis by (simp add: request_end_def)
qed

theorem gui_request_answered_witness:
  "\<exists>h k. request_begin False example_widgets GetCommand (example_gui\<lparr>posted := [ClearTraceViewSignal]\<rparr>) = Some (Inr h) \<and>
     process_events example_widgets 2 h = Inr k \<and> fst (request_end k) = (True, ''ls'')"
proof -
  let ?g = "example_gui\<lparr>posted := [ClearTraceViewSignal]\<rparr>"
  obtain h where h: "request_begin False example_widgets GetCommand ?g = Some (Inr h)"
    "h = ?g\<lparr>m_current_request := Some GetCommand, request_answer := None, posted := [ClearTraceViewSignal, GuiRequestSignal]\<rparr>"
    by (simp add: request_begin_def gui_emit_def example_gui_def)
  then obtain k where k: "process_events example_widgets 2 h = Inr k"
    by (simp add: numeral_2_eq_2 process_event_def onGuiRequestSignal_def on_widget_def)
  have l: "length (posted h) = 2" using h(2) by simp
  show ?thesis
    using gui_request_answered [OF _ _ h(1) k [folded l]] h(1) k by (auto simp: example_gui_def example_widgets_def)
qed

text \<open>
  A question that is not answered within 500 ms takes the program down: the asking thread
  gives up and forgets the request, but its signal stays queued, and when the GUI thread gets
  to it the assertion on the current request fails. That is enough of a race: while a script's
  thread waits for an answer, the GUI thread may be in the waiting loop of the button's
  \<open>abort\<close>, which also takes up to 500 ms.
\<close>

theorem gui_request_timeout_is_fatal:
  "\<lbrakk>m_current_request g = None; GuiRequestSignal \<notin> set (posted g); request_begin False w r g = Some (Inr h)\<rbrakk> \<Longrightarrow>
   fst (request_end h) = (False, []) \<and>
   (\<forall>k. process_events w (length (posted g)) (snd (request_end h)) = Inr k \<longrightarrow> process_event w k = Inl AssertionFailed)"
proof -
  assume a: "m_current_request g = None" "GuiRequestSignal \<notin> set (posted g)" "request_begin False w r g = Some (Inr h)"
  have h: "h = g\<lparr>m_current_request := Some r, request_answer := None, posted := posted g @ [GuiRequestSignal]\<rparr>"
    using a(1,3) by (auto simp: request_begin_def gui_emit_def)
  have "process_event w k = Inl AssertionFailed"
    if "process_events w (length (posted g)) (snd (request_end h)) = Inr k" for k
    using process_others [OF a(2) _ that, of "[GuiRequestSignal]"] h
    by (simp add: request_end_def process_event_def onGuiRequestSignal_def)
  then show ?thesis using h by (simp add: request_end_def)
qed

theorem gui_request_timeout_is_fatal_witness:
  "\<exists>h. request_begin False example_widgets GetLineEnding example_gui = Some (Inr h) \<and>
     process_event example_widgets (snd (request_end h)) = Inl AssertionFailed"
proof -
  obtain h where h: "request_begin False example_widgets GetLineEnding example_gui = Some (Inr h)"
    by (simp add: request_begin_def gui_emit_def example_gui_def)
  show ?thesis
    using gui_request_timeout_is_fatal [OF _ _ h] h by (simp add: example_gui_def)
qed

text \<open>
  The two colours of a filter line are independent: setting one keeps the other, whatever
  the style sheet was before, because each is parsed back out of the text as it was written.
\<close>

theorem filter_colours_are_independent:
  "let t1 = sheet_text (sheet_setColor i a (new_stylesheet t0)); t2 = sheet_text (sheet_setColor j b (new_stylesheet t1))
   in sheet_getColor j (new_stylesheet t2) = b AND 0xFFFFFF \<and>
      (i \<noteq> j \<longrightarrow> sheet_getColor i (new_stylesheet t2) = a AND 0xFFFFFF)"
  by (cases i; cases j) (simp_all add: Let_def sheet_setColor_def parse_created set_color_def sheet_getColor_def)

theorem filter_colours_are_independent_witness:
  "sheet_getColor BACKGROUND_COLOR (new_stylesheet (sheet_text (sheet_setColor COLOR 2
     (new_stylesheet (sheet_text (sheet_setColor BACKGROUND_COLOR 0xFF123456 (new_stylesheet []))))))) = 0x123456"
  using filter_colours_are_independent [where i = BACKGROUND_COLOR and a = "0xFF123456" and ?t0.0 = "[]" and j = COLOR and b = 2] by (simp add: Let_def)

text \<open>
  The key shortcuts (F2, F3, F4, Ctrl+M, Ctrl+1 to Ctrl+5) do nothing: they are connected to
  the slot of the buttons, which looks up the sender, and a shortcut is neither a button nor
  in the map of widgets that stand for one. The filter lines and the command line are.
\<close>

theorem key_shortcuts_are_dead:
  "gui_onButtonClicked (ShortcutObject s) (gui_run g) = gui_run g \<and>
   sender_button CommandLine (gui_run g) = Some (ui_send_button g) \<and>
   (\<forall>i < length (ui_filters g). sender_button (FilterLine i) (gui_run g) = Some (ui_filters g ! i))"
proof -
  let ?m = "map (\<lambda>i. (FilterLine i, ui_filters g ! i)) [0..<length (ui_filters g)]"
  have none: "map_of ?m (ShortcutObject s) = None" "map_of ?m CommandLine = None"
    by (auto simp: map_of_eq_None_iff)
  have "map_of ?m (FilterLine i) = Some (ui_filters g ! i)" if "i < length (ui_filters g)" for i
    using that by (intro map_of_is_SomeI) (auto simp: distinct_map inj_on_def comp_def)
  then show ?thesis using none
    by (simp add: gui_onButtonClicked_def gui_onButtonEvent_def sender_button_def gui_run_def map_add_def)
qed

theorem key_shortcuts_are_dead_witness:
  "sender_button (FilterLine 0) (gui_run example_gui) = Some ''traceFilterButton_0''"
  using key_shortcuts_are_dead [of "''loggingButton''" example_gui] by (simp add: example_gui_def)

text \<open>
  A theme number from the settings file is not checked before it reaches the window: 0 and
  1 load a theme and tell every listener, up to 127 an assertion fails, and above the signed
  byte of the signal is negative, passes the assertion and indexes the names out of bounds.
\<close>

theorem reload_theme_number:
  "gui_reloadTheme theme True w g =
     (if unat theme < 2
      then Inr (notify (map (\<lambda>l. NotifyTheme l (int (unat theme))) (m_theme_listeners g))
             (on_widget (LoadTheme (int (unat theme))) (g\<lparr>ui_theme := int (unat theme)\<rparr>)))
      else if unat theme < 128 then Inl AssertionFailed else Inl OutOfBounds)"
proof -
  define n where "n = unat theme"
  have u: "uint theme = int n" "unat theme = n" "n < 256"
    using unsigned_less [of theme, where 'a = nat] by (simp_all add: n_def)
  have s: "sint theme = (if n < 128 then int n else int n - 256)"
    by (simp add: sint_u8 n_def)
  show ?thesis
    using u(3) by (simp add: gui_reloadTheme_def gui_emit_def onReloadThemeSignal_def themeToName_def THEMES_MAX_def s u(1,2) Let_def)
qed

end
