(* ===== verification/FileLogger.thy ===== *)
theory FileLogger
  imports Prelude
begin

text \<open>
  \<open>sw/MainApplication/source/FileLogger.cpp\<close>: the log file of the terminal. The output stream
  is the path it has open, if any, over a file system that maps paths to texts; \<open>can_open\<close>
  says which paths the operating system lets it create. Opening truncates the file.
\<close>

record file_logger =
  open_file :: "string option"
  log_files :: "string \<rightharpoonup> string"

definition logger_isActive :: "file_logger \<Rightarrow> bool" where
  "logger_isActive l \<longleftrightarrow> open_file l \<noteq> None"

definition logger_openFile :: "(string \<Rightarrow> bool) \<Rightarrow> string \<Rightarrow> file_logger \<Rightarrow> bool \<times> file_logger" where
  "logger_openFile can_open file l =
     (if \<not> logger_isActive l \<and> can_open file
      then (True, l\<lparr>open_file := Some file, log_files := (log_files l)(file \<mapsto> [])\<rparr>)
      else (False, l))"

definition logger_closeFile :: "file_logger \<Rightarrow> file_logger" where
  "logger_closeFile l = (if logger_isActive l then l\<lparr>open_file := None\<rparr> else l)"

definition logger_putLog :: "string \<Rightarrow> file_logger \<Rightarrow> file_logger" where
  "logger_putLog log l =
     (case open_file l of
        None \<Rightarrow> l
      | Some f \<Rightarrow> l\<lparr>log_files := (log_files l)(f \<mapsto> (case log_files l f of None \<Rightarrow> log | Some t \<Rightarrow> t @ log))\<rparr>)"

definition new_file_logger :: "(string \<rightharpoonup> string) \<Rightarrow> file_logger" where
  "new_file_logger files = \<lparr>open_file = None, log_files = files\<rparr>"

section \<open>What a client sees\<close>

text \<open>
  The interface's contract: a logger writes somewhere or nowhere; what is put while it writes
  nowhere is lost, and starting afresh begins an empty log.
\<close>

locale log_sink =
  fixes active :: "'s \<Rightarrow> bool"
    and put :: "string \<Rightarrow> 's \<Rightarrow> 's"
    and content :: "'s \<Rightarrow> string"
  assumes put_active [simp]: "active (put t s) = active s"
    and put_content: "active s \<Longrightarrow> content (put t s) = content s @ t"
    and put_inactive: "\<not> active s \<Longrightarrow> put t s = s"
begin

lemma fold_put_active: "active s \<Longrightarrow> active (fold put ts s) \<and> content (fold put ts s) = content s @ concat ts"
  by (induction ts arbitrary: s) (simp_all add: put_content)

lemma fold_put_inactive: "\<not> active s \<Longrightarrow> fold put ts s = s"
  by (induction ts arbitrary: s) (simp_all add: put_inactive)

end

definition logged :: "file_logger \<Rightarrow> string" where
  "logged l = (case open_file l of None \<Rightarrow> [] | Some f \<Rightarrow> (case log_files l f of None \<Rightarrow> [] | Some t \<Rightarrow> t))"

interpretation file_sink: log_sink logger_isActive logger_putLog logged
  by unfold_locales (auto simp: logger_isActive_def logger_putLog_def logged_def split: option.splits)

lemma put_other_file: "open_file l \<noteq> Some g \<Longrightarrow> log_files (logger_putLog t l) g = log_files l g"
  by (auto simp: logger_putLog_def split: option.splits)

lemma put_open_file [simp]: "open_file (logger_putLog t l) = open_file l"
  by (simp add: logger_putLog_def split: option.splits)

lemma fold_put_file: "open_file (fold logger_putLog ts l) = open_file l"
  by (induction ts arbitrary: l) simp_all

lemma fold_put_other: "open_file l \<noteq> Some g \<Longrightarrow> log_files (fold logger_putLog ts l) g = log_files l g"
  by (induction ts arbitrary: l) (simp_all add: put_other_file)

text \<open>A whole session: open, log, close, and what comes after the closing is not in the file.\<close>

lemma log_session:
  assumes "logger_openFile can_open file l = (True, l1)"
  shows "log_files (fold logger_putLog late (logger_closeFile (fold logger_putLog ts l1))) =
    (log_files l)(file \<mapsto> concat ts)"
proof -
  have l1: "l1 = l\<lparr>open_file := Some file, log_files := (log_files l)(file \<mapsto> [])\<rparr>"
    using assms by (auto simp: logger_openFile_def split: if_splits)
  let ?l2 = "fold logger_putLog ts l1"
  have "logger_isActive l1" "logged l1 = []" by (simp_all add: l1 logger_isActive_def logged_def)
  then have a: "logger_isActive ?l2" "logged ?l2 = concat ts" using file_sink.fold_put_active [of l1 ts] by simp_all
  have f: "open_file ?l2 = Some file" using fold_put_file [of ts l1] by (simp add: l1)
  have "log_files ?l2 g = ((log_files l)(file \<mapsto> concat ts)) g" for g
  proof (cases "g = file")
    case True
    have "log_files l1 file \<noteq> None" by (simp add: l1)
    then have "log_files (fold logger_putLog us l1) file \<noteq> None" for us
    proof (induction us arbitrary: l1)
      case (Cons u us)
      then show ?case by (auto simp: logger_putLog_def split: option.splits)
    qed simp
    then obtain t where "log_files ?l2 file = Some t" by blast
    with a(2) f True show ?thesis by (simp add: logged_def)
  qed (use fold_put_other [of l1 g ts] l1 in simp)
  then have files: "log_files (logger_closeFile ?l2) = (log_files l)(file \<mapsto> concat ts)"
    by (auto simp: logger_closeFile_def fun_eq_iff)
  have "\<not> logger_isActive (logger_closeFile ?l2)" using a(1) by (simp add: logger_closeFile_def logger_isActive_def)
  then show ?thesis using file_sink.fold_put_inactive files by simp
qed

end
