(* ===== verification/MainApplication.thy ===== *)
theory MainApplication
  imports Port TraceFilter UserButton GUIController FileLogger
begin

text \<open>
  \<open>sw/MainApplication/source/MainApplication.cpp\<close>: the application itself. Its state holds
  the GUI controller, the ports, the trace filters and the file logger of the other theories;
  its operations are the handlers of buttons, ports, themes and persistence. An environment
  carries what one call finds around it: whether it runs in the GUI thread, the answers of the
  widgets, the time, the settings, and the outputs of the drivers.
\<close>

section \<open>State\<close>

datatype app_listener = ThisApplication | OtherListener nat

datatype app_handler =
    MarkerButton
  | LoggingButton
  | LoggingButtonMenu
  | SettingsButton
  | SendButton
  | BottomButton
  | ClearButton
  | TraceClearButton
  | TraceBottomButton

record main_app =
  app_gui :: "app_listener gui"
  app_ports :: "port list"
  app_filters :: "trace_filter list"
  m_file_logger :: file_logger
  m_marker_index :: u32
  m_file_logging_path :: string
  m_log_file_name :: string
  m_commands_history :: "(u8 \<times> string list) list"
  app_listeners :: "(u32 \<times> GuiEvent \<times> app_handler) list"
  m_logging_button_id :: u32
  m_current_port_name :: string
  app_dialogs :: "string list"

record calendar_time =
  tm_mday :: nat
  tm_mon :: nat
  tm_year :: nat
  tm_hour :: nat
  tm_min :: nat
  tm_sec :: nat
  tm_millis :: nat

record app_env =
  in_gui :: bool
  app_widgets :: widgets
  elsewhere :: "gui_request \<Rightarrow> string"
  local_time :: calendar_time
  app_colours :: colours
  maxTerminalTraces :: u32
  statusBarTimeout :: u32
  q_trimmed :: "string \<Rightarrow> string"
  regex_search :: "string \<Rightarrow> string \<Rightarrow> bool"
  creatable :: "string \<Rightarrow> bool"
  error_text :: string
  error_number :: nat
  logging_dialog :: "string \<Rightarrow> bool \<Rightarrow> string option"
  serial_out :: "nat \<Rightarrow> bytes \<Rightarrow> int \<Rightarrow> bool"
  socket_out :: "nat \<Rightarrow> bytes \<Rightarrow> int \<Rightarrow> bool"
  app_version :: string
  executable_path :: string

definition MAX_COMMANDS_HISTORY_ITEMS :: nat where
  "MAX_COMMANDS_HISTORY_ITEMS = 100"

definition TRACE_MARKER_COLOR :: u32 where
  "TRACE_MARKER_COLOR = 0xFF0000"

definition on_gui :: "app_env \<Rightarrow> app_listener gui_op \<Rightarrow> main_app \<Rightarrow> main_app res" where
  "on_gui env op a = mapE (\<lambda>g. a\<lparr>app_gui := g\<rparr>) (op (in_gui env) (app_widgets env) (app_gui a))"

text \<open>
  The two questions to the GUI controller: in the GUI thread the answer is the widget's text, in
  another thread it comes through the queue, or is empty when the wait is over first.
\<close>

definition getCurrentLineEnding :: "app_env \<Rightarrow> string" where
  "getCurrentLineEnding env = (if in_gui env then line_ending_text (app_widgets env) else elsewhere env GetLineEnding)"

definition getCurrentCommand :: "app_env \<Rightarrow> string" where
  "getCurrentCommand env = (if in_gui env then command_text (app_widgets env) else elsewhere env GetCommand)"

section \<open>The terminal\<close>

definition format_line :: "calendar_time \<Rightarrow> string \<Rightarrow> string \<Rightarrow> string" where
  "format_line ts name data =
     ''['' @ c_str name @ '']<'' @ to_string (tm_mday ts) @ ''-'' @ zero_pad 2 (tm_mon ts + 1) @ ''-'' @ to_string (tm_year ts + 1900) @
     '' '' @ to_string (tm_hour ts) @ '':'' @ zero_pad 2 (tm_min ts) @ '':'' @ zero_pad 2 (tm_sec ts) @ '':'' @ zero_pad 3 (tm_millis ts) @
     ''>: '' @ c_str data"

definition createLogFileName :: "calendar_time \<Rightarrow> string" where
  "createLogFileName ts =
     ''log_'' @ zero_pad 2 (tm_mday ts) @ zero_pad 2 (tm_mon ts + 1) @ to_string (tm_year ts + 1900) @ ''_'' @
     zero_pad 2 (tm_hour ts) @ zero_pad 2 (tm_min ts) @ zero_pad 2 (tm_sec ts)"

definition clear_if :: "bool \<Rightarrow> app_env \<Rightarrow> app_listener gui_op \<Rightarrow> main_app \<Rightarrow> main_app res" where
  "clear_if full env op a = (if full then on_gui env op a else Inr a)"

definition trace_line :: "app_env \<Rightarrow> string \<Rightarrow> string \<Rightarrow> trace_filter \<Rightarrow> main_app \<Rightarrow> main_app res" where
  "trace_line env data shown f a =
     (case tryMatch (regex_search env) data f of
        None \<Rightarrow> Inr a
      | Some s \<Rightarrow> on_gui env (gui_addToTraceView shown (background s) (font s)) a)"

definition addToTerminal :: "app_env \<Rightarrow> string \<Rightarrow> string \<Rightarrow> u32 \<Rightarrow> u32 \<Rightarrow> main_app \<Rightarrow> main_app res" where
  "addToTerminal env name data bg fg a =
     (let new_line = format_line (local_time env) name data; shown = q_trimmed env new_line
      in bindE (clear_if (terminal_item_count (app_gui a) \<ge> maxTerminalTraces env) env gui_clearTerminalView a) (\<lambda>a1.
         bindE (clear_if (trace_item_count (app_gui a1) \<ge> maxTerminalTraces env) env gui_clearTraceView a1) (\<lambda>a2.
         bindE (on_gui env (gui_addToTerminalView shown bg fg) a2) (\<lambda>a3.
         let a4 = a3\<lparr>m_file_logger := logger_putLog new_line (m_file_logger a3)\<rparr>
         in foldE (trace_line env data shown) (app_filters a4) a4))))"

definition onPortEvent :: "app_env \<Rightarrow> port_event \<Rightarrow> main_app \<Rightarrow> main_app res" where
  "onPortEvent env e a =
     (case ev_event e of
        EV_NEW_DATA \<Rightarrow> addToTerminal env (ev_name e) (map char_of_byte (ev_data e)) (ev_background e) (ev_font e) a
      | EV_CONNECTED \<Rightarrow> on_gui env (gui_registerPortOpened (ev_name e)) a
      | EV_DISCONNECTED \<Rightarrow> on_gui env (gui_registerPortClosed (ev_name e)) a
      | EV_CONNECTING \<Rightarrow> on_gui env (gui_registerPortClosed (ev_name e)) a)"

definition onMarkerButtonClicked :: "app_env \<Rightarrow> main_app \<Rightarrow> main_app res" where
  "onMarkerButtonClicked env a =
     (let a1 = a\<lparr>m_marker_index := m_marker_index a + 1\<rparr>;
          log = ''MARKER'' @ to_string (unat (m_marker_index a1)) @ [CHR 0x0A]
      in addToTerminal env ''MARKER'' log TRACE_MARKER_COLOR (text_colour (app_colours env)) a1)"

section \<open>The history of commands\<close>

definition history_of :: "u8 \<Rightarrow> main_app \<Rightarrow> string list" where
  "history_of i a = (case map_of (m_commands_history a) i of None \<Rightarrow> [] | Some h \<Rightarrow> h)"

definition set_history :: "u8 \<Rightarrow> string list \<Rightarrow> main_app \<Rightarrow> main_app" where
  "set_history i h a = a\<lparr>m_commands_history := obj_set i h (m_commands_history a)\<rparr>"

definition removeCommandHistoryDuplicates :: "string list \<Rightarrow> string \<Rightarrow> string list" where
  "removeCommandHistoryDuplicates history text = filter (\<lambda>x. x \<noteq> text) history"

text \<open>The loop that drops the oldest commands.\<close>

function drop_oldest :: "string list \<Rightarrow> string list" where
  "drop_oldest history = (if length history \<ge> MAX_COMMANDS_HISTORY_ITEMS then drop_oldest (tl history) else history)"
  by auto
termination by (relation "measure length") (auto simp: MAX_COMMANDS_HISTORY_ITEMS_def)

declare drop_oldest.simps [simp del]

definition addToCommandHistory :: "app_env \<Rightarrow> u8 \<Rightarrow> string \<Rightarrow> main_app \<Rightarrow> main_app res" where
  "addToCommandHistory env i text a =
     (if text \<noteq> []
      then let h = drop_oldest (removeCommandHistoryDuplicates (history_of i a) text @ [text])
           in on_gui env (gui_setCommandsHistory h) (set_history i h a)
      else Inr a)"

section \<open>Sending\<close>

definition portNameToId :: "string \<Rightarrow> main_app \<Rightarrow> u8" where
  "portNameToId name a =
     (let i = find_pos (\<lambda>p. port_name (m_settings p) = name) (app_ports a)
      in if i < length (app_ports a) then word_of_nat i else 0)"

definition with_ending :: "string \<Rightarrow> string \<Rightarrow> string" where
  "with_ending ending text =
     (if ending = [CHR 0x5C, CHR ''r'', CHR 0x5C, CHR ''n''] then text @ [CHR 0x0D, CHR 0x0A]
      else if ending = [CHR 0x5C, CHR ''n''] then text @ [CHR 0x0A]
      else text)"

text \<open>
  \<open>sendToPort\<close>: the port is a signed byte, -1 for the current port; the assertion compares it
  as an unsigned 32-bit number with the number of ports.
\<close>

definition target_port :: "u8 \<Rightarrow> main_app \<Rightarrow> u8" where
  "target_port portId a = (if portId = - 1 then portNameToId (m_current_port_name a) a else portId)"

definition sendToPort :: "app_env \<Rightarrow> u8 \<Rightarrow> string \<Rightarrow> main_app \<Rightarrow> (bool \<times> main_app) res" where
  "sendToPort env portId text a =
     (let p = target_port portId a
      in if unat (scast p :: u32) < length (app_ports a)
         then let n = unat p; data = with_ending (getCurrentLineEnding env) text
              in bindE (port_write (serial_out env n) (socket_out env n) (map byte_of_char data) (int (length data)) (app_ports a ! n)) (\<lambda>ok.
                   if ok then mapE (\<lambda>a1. (True, a1)) (addToCommandHistory env p text a) else Inr (False, a))
         else Inl AssertionFailed)"

definition onSendButtonClicked :: "app_env \<Rightarrow> main_app \<Rightarrow> main_app res" where
  "onSendButtonClicked env a =
     bindE (sendToPort env (- 1) (getCurrentCommand env) a) (\<lambda>(ok, a1). on_gui env gui_clearCommand a1)"

definition onCurrentPortSelectionChanged :: "app_env \<Rightarrow> string \<Rightarrow> main_app \<Rightarrow> (bool \<times> main_app) res" where
  "onCurrentPortSelectionChanged env name a =
     (let i = portNameToId name a; h = history_of i a
      in mapE (\<lambda>a1. (True, a1\<lparr>m_current_port_name := name\<rparr>)) (on_gui env (gui_setCommandsHistory h) (set_history i h a)))"

section \<open>Buttons\<close>

definition app_setButtonState :: "app_env \<Rightarrow> u32 \<Rightarrow> bool \<Rightarrow> main_app \<Rightarrow> main_app res" where
  "app_setButtonState env i state a =
     (let (bg, fg) = (if state then (0x00FF00, 0) else (background_colour (app_colours env), text_colour (app_colours env)))
      in bindE (on_gui env (gui_setButtonBackgroundColor i bg) a) (on_gui env (gui_setButtonFontColor i fg)))"

definition onLoggingButtonClicked :: "app_env \<Rightarrow> main_app \<Rightarrow> main_app res" where
  "onLoggingButtonClicked env a =
     (if \<not> logger_isActive (m_file_logger a)
      then let a1 = a\<lparr>m_log_file_name := m_file_logging_path a @ ''/'' @ createLogFileName (local_time env)\<rparr>;
               (ok, l) = logger_openFile (creatable env) (m_log_file_name a1) (m_file_logger a1);
               a2 = a1\<lparr>m_file_logger := l\<rparr>
           in if ok
              then bindE (on_gui env (gui_setStatusBarNotification (''New log file: '' @ m_log_file_name a2) (statusBarTimeout env)) a2)
                     (app_setButtonState env (m_logging_button_id a) True)
              else Inr (a2\<lparr>app_dialogs := app_dialogs a2 @
                     [''Cannot create logfile @ '' @ m_file_logging_path a2 @ [CHR 0x0A] @ error_text env @ '' ('' @ to_string (error_number env) @ '')'']\<rparr>)
      else bindE (on_gui env (gui_setStatusBarNotification (''Log file ready: '' @ m_log_file_name a) (statusBarTimeout env)) a) (\<lambda>a1.
             app_setButtonState env (m_logging_button_id a1) False (a1\<lparr>m_file_logger := logger_closeFile (m_file_logger a1)\<rparr>)))"

definition onLoggingButtonContextMenuRequested :: "app_env \<Rightarrow> main_app \<Rightarrow> main_app" where
  "onLoggingButtonContextMenuRequested env a =
     (case logging_dialog env (m_file_logging_path a) (\<not> logger_isActive (m_file_logger a)) of
        None \<Rightarrow> a
      | Some path \<Rightarrow> a\<lparr>m_file_logging_path := path\<rparr>)"

text \<open>The dialog of the settings changes other components through their own operations.\<close>

definition onSettingsButtonClicked :: "main_app \<Rightarrow> main_app" where
  "onSettingsButtonClicked a = a\<lparr>app_dialogs := app_dialogs a @ [''settings'']\<rparr>"

definition run_handler :: "app_env \<Rightarrow> app_handler \<Rightarrow> main_app \<Rightarrow> main_app res" where
  "run_handler env h a =
     (case h of
        MarkerButton \<Rightarrow> onMarkerButtonClicked env a
      | LoggingButton \<Rightarrow> onLoggingButtonClicked env a
      | LoggingButtonMenu \<Rightarrow> Inr (onLoggingButtonContextMenuRequested env a)
      | SettingsButton \<Rightarrow> Inr (onSettingsButtonClicked a)
      | SendButton \<Rightarrow> onSendButtonClicked env a
      | BottomButton \<Rightarrow> on_gui env gui_scrollTerminalToBottom a
      | ClearButton \<Rightarrow> on_gui env gui_clearTerminalView a
      | TraceClearButton \<Rightarrow> on_gui env gui_clearTraceView a
      | TraceBottomButton \<Rightarrow> on_gui env gui_scrollTraceViewToBottom a)"

definition app_onButtonEvent :: "app_env \<Rightarrow> u32 \<Rightarrow> GuiEvent \<Rightarrow> main_app \<Rightarrow> main_app res" where
  "app_onButtonEvent env i e a =
     foldE (\<lambda>(j, e', h). if j = i \<and> e' = e then run_handler env h else Inr) (app_listeners a) a"

definition app_onThemeChange :: "app_env \<Rightarrow> int \<Rightarrow> main_app \<Rightarrow> main_app res" where
  "app_onThemeChange env theme a =
     bindE (themeToName theme) (\<lambda>name.
     bindE (if \<not> logger_isActive (m_file_logger a) then app_setButtonState env (m_logging_button_id a) False a else Inr a) (\<lambda>a1.
       Inr (a1\<lparr>app_ports := map refreshUi (app_ports a1), app_filters := map (filter_refreshUi (app_colours env)) (app_filters a1)\<rparr>)))"

section \<open>Start and end\<close>

text \<open>
  The constructor, with the ports and filters it creates (\<open>port_create\<close> and \<open>filter_create\<close>
  in the order of their numbers): the window is shown, the buttons are looked up by name and
  subscribed to, and the application's own table maps each to its handler.
\<close>

definition button_table_of :: "(string \<Rightarrow> u32) \<Rightarrow> (u32 \<times> GuiEvent \<times> app_handler) list" where
  "button_table_of button =
     [(button ''markerButton'', GUI_CLICKED, MarkerButton),
      (button ''loggingButton'', GUI_CLICKED, LoggingButton),
      (button ''loggingButton'', GUI_CONTEXT_MENU_REQUESTED, LoggingButtonMenu),
      (button ''settingsButton'', GUI_CLICKED, SettingsButton),
      (button ''sendButton'', GUI_CLICKED, SendButton),
      (button ''bottomButton'', GUI_CLICKED, BottomButton),
      (button ''clearButton'', GUI_CLICKED, ClearButton),
      (button ''traceClearButton'', GUI_CLICKED, TraceClearButton),
      (button ''traceBottomButton'', GUI_CLICKED, TraceBottomButton)]"

definition subscribe_all :: "(u32 \<times> GuiEvent \<times> app_handler) list \<Rightarrow> app_listener gui \<Rightarrow> app_listener gui" where
  "subscribe_all table g = fold (\<lambda>(i, e, h). subscribeForButtonEvent i e ThisApplication) table g"

definition app_show_window :: "app_env \<Rightarrow> main_app \<Rightarrow> main_app res" where
  "app_show_window env a =
     bindE (on_gui env (gui_reloadTheme 1) a) (\<lambda>a1.
     bindE (on_gui env (gui_setApplicationTitle ''UltimateTerminal'') a1)
       (on_gui env (gui_setInfoLabelText (''UltimateTerminal v'' @ app_version env))))"

definition app_wire_buttons :: "main_app \<Rightarrow> main_app" where
  "app_wire_buttons a =
     (let table = button_table_of (\<lambda>n. getButtonID n (app_gui a))
      in a\<lparr>app_gui := subscribe_all table (app_gui a), app_listeners := table,
           m_logging_button_id := getButtonID ''loggingButton'' (app_gui a)\<rparr>)"

definition app_line_endings :: "app_env \<Rightarrow> main_app \<Rightarrow> main_app res" where
  "app_line_endings env a =
     bindE (on_gui env (gui_addLineEnding [CHR 0x5C, CHR ''r'', CHR 0x5C, CHR ''n'']) a) (\<lambda>a1.
     bindE (on_gui env (gui_addLineEnding [CHR 0x5C, CHR ''n'']) a1) (on_gui env (gui_addLineEnding ''EMPTY'')))"

definition app_subscribe :: "port list \<Rightarrow> trace_filter list \<Rightarrow> main_app \<Rightarrow> main_app" where
  "app_subscribe ports filters a =
     a\<lparr>app_gui := subscribeForThemeReloadEvent ThisApplication (subscribeForActivePortChangedEvent (app_gui a)),
       app_ports := ports, app_filters := filters\<rparr>"

definition app_start :: "(string \<rightharpoonup> string) \<Rightarrow> app_listener gui \<Rightarrow> main_app" where
  "app_start files g =
     \<lparr>app_gui = gui_run g, app_ports = [], app_filters = [], m_file_logger = new_file_logger files, m_marker_index = 0,
      m_file_logging_path = [], m_log_file_name = [], m_commands_history = [], app_listeners = [],
      m_logging_button_id = 0, m_current_port_name = [], app_dialogs = []\<rparr>"

definition app_create ::
  "app_env \<Rightarrow> (string \<rightharpoonup> string) \<Rightarrow> app_listener gui \<Rightarrow> port list \<Rightarrow> trace_filter list \<Rightarrow> main_app res" where
  "app_create env files g ports filters =
     bindE (app_show_window env (app_start files g)) (\<lambda>a1.
     bindE (app_setButtonState env (m_logging_button_id (app_wire_buttons a1)) False (app_wire_buttons a1)) (\<lambda>a2.
     mapE (\<lambda>a3. a3\<lparr>m_file_logging_path := executable_path env\<rparr>) (app_line_endings env (app_subscribe ports filters a2))))"

definition unsubscribe_all :: "(u32 \<times> GuiEvent \<times> app_handler) list \<Rightarrow> app_listener gui \<Rightarrow> app_listener gui" where
  "unsubscribe_all table g = fold (\<lambda>(i, e, h). unsubscribeFromButtonEvent i e ThisApplication) table g"

definition app_destroy :: "main_app \<Rightarrow> main_app" where
  "app_destroy a =
     a\<lparr>app_gui := unsubscribeFromThemeReloadEvent ThisApplication (unsubscribe_all (app_listeners a) (app_gui a)),
       app_listeners := [], app_filters := [], app_ports := []\<rparr>"

section \<open>Persistence\<close>

text \<open>\<open>m_commands_history[std::stoi(portID)].push_back(command)\<close>.\<close>

definition push_command :: "string \<Rightarrow> string \<Rightarrow> main_app \<Rightarrow> main_app res" where
  "push_command portID command a =
     mapE (\<lambda>i. set_history (word_of_int i) (history_of (word_of_int i) a @ [command]) a) (stoi portID)"

definition read_port_history :: "items \<Rightarrow> string \<Rightarrow> main_app \<Rightarrow> main_app res" where
  "read_port_history items portID a =
     (let line = snd (readItem_str items (''history.'' @ portID) [])
      in foldE (push_command portID) (getlines (CHR '':'') line) a)"

definition app_onPersistenceRead :: "app_env \<Rightarrow> items \<Rightarrow> main_app \<Rightarrow> main_app res" where
  "app_onPersistenceRead env items a =
     (let portsWithHistory = snd (readItem_str items ''portsWithHistory'' [])
      in bindE (foldE (read_port_history items) (getlines (CHR ''.'') portsWithHistory) a) (\<lambda>a1.
         let (has_ending, ending) = readItem_str items ''lineEnding'' []
         in bindE (if has_ending then on_gui env (gui_setCurrentLineEnding ending) a1 else Inr a1) (\<lambda>a2.
         bindE (readItem_num word_of_int items ''currentTheme'' (0 :: u8)) (\<lambda>(has_theme, theme).
         bindE (if has_theme then on_gui env (gui_reloadTheme theme) a2 else Inr a2) (\<lambda>a3.
         let (has_path, path) = readItem_str items ''loggingFile'' []
         in Inr (if has_path then a3\<lparr>m_file_logging_path := path\<rparr> else a3))))))"

definition write_port_history :: "u8 \<times> string list \<Rightarrow> items \<times> string \<Rightarrow> items \<times> string" where
  "write_port_history = (\<lambda>(i, h) (items, ports).
     (writeItem_str items (''history.'' @ to_string (unat i)) (concat (map (\<lambda>c. c @ [CHR '':'']) h)), ports @ to_string (unat i) @ ''.''))"

definition app_onPersistenceWrite :: "app_env \<Rightarrow> main_app \<Rightarrow> items res" where
  "app_onPersistenceWrite env a =
     (let b1 = writeItem_str [] ''applicationVersion'' (app_version env);
          b2 = writeItem_str b1 ''loggingFile'' (m_file_logging_path a);
          b3 = writeItem_str b2 ''lineEnding'' (getCurrentLineEnding env);
          b4 = writeItem_num b3 ''currentTheme'' (unat (word_of_int (ui_theme (app_gui a)) :: u8));
          (b5, ports) = fold write_port_history (m_commands_history a) (b4, [])
      in Inr (writeItem_str b5 ''portsWithHistory'' ports))"

section \<open>What the operations leave alone\<close>

lemma on_gui_Inr_iff: "on_gui env op a = Inr b \<longleftrightarrow> (\<exists>g. op (in_gui env) (app_widgets env) (app_gui a) = Inr g \<and> b = a\<lparr>app_gui := g\<rparr>)"
  by (auto simp: on_gui_def mapE_Inr_iff)

lemma history_simps [simp]:
  "history_of i (a\<lparr>app_gui := g\<rparr>) = history_of i a" "history_of i (a\<lparr>m_file_logger := l\<rparr>) = history_of i a"
  "history_of i (a\<lparr>m_marker_index := n\<rparr>) = history_of i a" "history_of i (a\<lparr>m_current_port_name := c\<rparr>) = history_of i a"
  "history_of i (a\<lparr>m_log_file_name := c\<rparr>) = history_of i a" "history_of i (a\<lparr>m_file_logging_path := c\<rparr>) = history_of i a"
  "history_of i (a\<lparr>app_dialogs := ds\<rparr>) = history_of i a"
  "history_of i (a\<lparr>app_ports := ps, app_filters := fs\<rparr>) = history_of i a"
  "history_of i (set_history j h a) = (if i = j then h else history_of i a)"
  by (simp_all add: history_of_def set_history_def map_of_obj_set)

lemma keeps_history:
  "on_gui env op a = Inr b \<Longrightarrow> history_of i b = history_of i a"
  "clear_if full env op a = Inr b \<Longrightarrow> history_of i b = history_of i a"
  "trace_line env data shown f a = Inr b \<Longrightarrow> history_of i b = history_of i a"
  by (auto simp: on_gui_Inr_iff clear_if_def trace_line_def split: if_splits option.splits)

lemma addToTerminal_history:
  assumes "addToTerminal env name data bg fg a = Inr b"
  shows "history_of i b = history_of i a"
proof -
  obtain a1 a2 a3 where steps:
    "clear_if (terminal_item_count (app_gui a) \<ge> maxTerminalTraces env) env gui_clearTerminalView a = Inr a1"
    "clear_if (trace_item_count (app_gui a1) \<ge> maxTerminalTraces env) env gui_clearTraceView a1 = Inr a2"
    "on_gui env (gui_addToTerminalView (q_trimmed env (format_line (local_time env) name data)) bg fg) a2 = Inr a3"
    and rest: "foldE (trace_line env data (q_trimmed env (format_line (local_time env) name data))) (app_filters a3)
      (a3\<lparr>m_file_logger := logger_putLog (format_line (local_time env) name data) (m_file_logger a3)\<rparr>) = Inr b"
    using assms by (auto simp: addToTerminal_def Let_def bindE_Inr_iff)
  have "history_of i b = history_of i a3"
    by (rule foldE_invariant [OF rest]) (auto dest: keeps_history(3) [where i = i])
  then show ?thesis
    using keeps_history(2) [OF steps(1)] keeps_history(2) [OF steps(2)] keeps_history(1) [OF steps(3)] by simp
qed

lemma setButtonState_history: "app_setButtonState env j st a = Inr b \<Longrightarrow> history_of i b = history_of i a"
  by (auto simp: app_setButtonState_def bindE_Inr_iff Let_def split: prod.splits dest!: keeps_history(1) [where i = i])

lemma logging_history:
  "onLoggingButtonClicked env a = Inr b \<Longrightarrow> history_of i b = history_of i a"
  by (auto simp: onLoggingButtonClicked_def bindE_Inr_iff Let_def split: prod.splits if_splits
      dest!: keeps_history(1) [where i = i] setButtonState_history [where i = i])

section \<open>The history is the list of the most recent commands\<close>

definition recent :: "string list \<Rightarrow> string list" where
  "recent commands = (let r = remdups commands in drop (length r - 99) r)"

lemma drop_oldest_eq: "drop_oldest h = drop (length h - 99) h"
proof (induction h rule: drop_oldest.induct)
  case (1 h)
  show ?case
  proof (cases "length h \<ge> 100")
    case True
    then have "drop_oldest h = drop_oldest (tl h)" by (subst drop_oldest.simps) (simp add: MAX_COMMANDS_HISTORY_ITEMS_def)
    also have "\<dots> = drop (length h - 100) (tl h)" using 1 True by (simp add: MAX_COMMANDS_HISTORY_ITEMS_def)
    also have "\<dots> = drop (length h - 99) h" using True by (simp add: drop_Suc [symmetric] Suc_diff_Suc numeral_eq_Suc)
    finally show ?thesis .
  qed (subst drop_oldest.simps, simp add: MAX_COMMANDS_HISTORY_ITEMS_def)
qed

lemma remdups_snoc: "remdups (xs @ [x]) = filter (\<lambda>y. y \<noteq> x) (remdups xs) @ [x]"
  by (induction xs) auto

lemma length_filter_distinct: "distinct xs \<Longrightarrow> x \<in> set xs \<Longrightarrow> length (filter (\<lambda>y. y \<noteq> x) xs) = length xs - 1"
proof (induction xs)
  case (Cons y ys)
  show ?case
  proof (cases "y = x")
    case True
    then have "filter (\<lambda>z. z \<noteq> x) ys = ys" using Cons.prems(1) by (auto simp: filter_id_conv)
    with True show ?thesis by simp
  next
    case False
    with Cons show ?thesis by (cases ys) auto
  qed
qed simp

text \<open>Dropping the oldest before or after a command moves to the end makes no difference.\<close>

lemma drop_filter_last:
  assumes "distinct r"
  shows "drop (length (filter (\<lambda>y. y \<noteq> x) r) - n) (filter (\<lambda>y. y \<noteq> x) r) =
    drop (length (filter (\<lambda>y. y \<noteq> x) (drop (length r - Suc n) r)) - n) (filter (\<lambda>y. y \<noteq> x) (drop (length r - Suc n) r))"
proof -
  define k where "k = length r - Suc n"
  have split: "filter (\<lambda>y. y \<noteq> x) r = filter (\<lambda>y. y \<noteq> x) (take k r) @ filter (\<lambda>y. y \<noteq> x) (drop k r)"
    by (metis append_take_drop_id filter_append)
  show ?thesis
  proof (cases "length r \<le> Suc n")
    case True
    then show ?thesis by simp
  next
    case False
    have "length (filter (\<lambda>y. y \<noteq> x) (drop k r)) \<ge> n"
    proof (cases "x \<in> set (drop k r)")
      case True
      then have "length (filter (\<lambda>y. y \<noteq> x) (drop k r)) = length (drop k r) - 1"
        using assms by (intro length_filter_distinct) simp_all
      then show ?thesis using \<open>\<not> length r \<le> Suc n\<close> by (simp add: k_def)
    next
      case False
      then have "filter (\<lambda>y. y \<noteq> x) (drop k r) = drop k r" by (auto simp: filter_id_conv)
      then show ?thesis using \<open>\<not> length r \<le> Suc n\<close> by (simp add: k_def)
    qed
    then show ?thesis unfolding k_def [symmetric] by (subst (1 2) split) simp
  qed
qed

lemma recent_snoc: "drop_oldest (removeCommandHistoryDuplicates (recent xs) t @ [t]) = recent (xs @ [t])"
proof -
  let ?r = "remdups xs"
  let ?f = "filter (\<lambda>y. y \<noteq> t)"
  have "drop (length (?f ?r) - 98) (?f ?r) =
      drop (length (?f (drop (length ?r - 99) ?r)) - 98) (?f (drop (length ?r - 99) ?r))"
    using drop_filter_last [of ?r t 98] by (simp add: numeral_eq_Suc)
  moreover have snoc: "drop (length (ys @ [t]) - 99) (ys @ [t]) = drop (length ys - 98) ys @ [t]" for ys
    by simp
  ultimately show ?thesis
    by (simp only: recent_def Let_def remdups_snoc drop_oldest_eq removeCommandHistoryDuplicates_def snoc)
qed

lemma recent_facts: "distinct (recent xs)" "length (recent xs) \<le> 99" "set (recent xs) \<subseteq> set xs"
  using set_drop_subset [of "length (remdups xs) - 99" "remdups xs"] by (simp_all add: recent_def Let_def)

text \<open>The operations of the application, and what each sends.\<close>

datatype app_op =
    SendToPort u8 string
  | PressButton app_handler
  | PortReports port_event
  | ThemeChanges int
  | SelectPort string

fun run_app_op :: "app_env \<times> app_op \<Rightarrow> main_app \<Rightarrow> main_app res" where
  "run_app_op (env, SendToPort p t) a = mapE snd (sendToPort env p t a)"
| "run_app_op (env, PressButton h) a = run_handler env h a"
| "run_app_op (env, PortReports e) a = onPortEvent env e a"
| "run_app_op (env, ThemeChanges theme) a = app_onThemeChange env theme a"
| "run_app_op (env, SelectPort name) a = mapE snd (onCurrentPortSelectionChanged env name a)"

definition sent_to :: "app_env \<Rightarrow> u8 \<Rightarrow> string \<Rightarrow> main_app \<Rightarrow> (u8 \<times> string) list" where
  "sent_to env p t a =
     (case sendToPort env p t a of
        Inr (ok, b) \<Rightarrow> if ok \<and> t \<noteq> [] then [(target_port p a, t)] else []
      | Inl e \<Rightarrow> [])"

fun sent_by :: "app_env \<times> app_op \<Rightarrow> main_app \<Rightarrow> (u8 \<times> string) list" where
  "sent_by (env, SendToPort p t) a = sent_to env p t a"
| "sent_by (env, PressButton SendButton) a = sent_to env (- 1) (getCurrentCommand env) a"
| "sent_by (env, op) a = []"

fun sent_in :: "(app_env \<times> app_op) list \<Rightarrow> main_app \<Rightarrow> (u8 \<times> string) list" where
  "sent_in [] a = []"
| "sent_in (x # xs) a = sent_by x a @ (case run_app_op x a of Inl e \<Rightarrow> [] | Inr b \<Rightarrow> sent_in xs b)"

definition commands_to :: "u8 \<Rightarrow> (u8 \<times> string) list \<Rightarrow> string list" where
  "commands_to i sent = map snd (filter (\<lambda>x. fst x = i) sent)"

lemma commands_to_simps [simp]:
  "commands_to i [] = []" "commands_to i (xs @ ys) = commands_to i xs @ commands_to i ys"
  "commands_to i [(j, t)] = (if i = j then [t] else [])"
  by (auto simp: commands_to_def)

lemma addToCommandHistory_history:
  "addToCommandHistory env j t a = Inr b \<Longrightarrow>
   history_of i b = (if i = j \<and> t \<noteq> [] then drop_oldest (removeCommandHistoryDuplicates (history_of i a) t @ [t]) else history_of i a)"
  by (auto simp: addToCommandHistory_def Let_def on_gui_Inr_iff split: if_splits)

lemma send_history:
  assumes "sendToPort env p t a = Inr (ok, b)" "history_of i a = recent past"
  shows "history_of i b = recent (past @ commands_to i (sent_to env p t a))"
proof (cases ok)
  case True
  then have "addToCommandHistory env (target_port p a) t a = Inr b"
    using assms(1) by (auto simp: sendToPort_def Let_def bindE_Inr_iff mapE_Inr_iff split: if_splits)
  from addToCommandHistory_history [OF this, of i] True assms show ?thesis
    by (auto simp: sent_to_def recent_snoc)
next
  case False
  then have "b = a" using assms(1) by (auto simp: sendToPort_def Let_def bindE_Inr_iff mapE_Inr_iff split: if_splits)
  with False assms show ?thesis by (simp add: sent_to_def)
qed

lemma handler_history:
  assumes "run_handler env h a = Inr b" "history_of i a = recent past"
  shows "history_of i b = recent (past @ commands_to i (sent_by (env, PressButton h) a))"
proof (cases "h = SendButton")
  case True
  then obtain ok a1 where s: "sendToPort env (- 1) (getCurrentCommand env) a = Inr (ok, a1)" "on_gui env gui_clearCommand a1 = Inr b"
    using assms(1) by (auto simp: run_handler_def onSendButtonClicked_def bindE_Inr_iff)
  show ?thesis using send_history [OF s(1) assms(2)] keeps_history(1) [OF s(2), of i] True by simp
next
  case False
  have "history_of i b = history_of i a"
    using assms(1) False
    by (cases h)
      (auto simp: run_handler_def onMarkerButtonClicked_def onLoggingButtonContextMenuRequested_def onSettingsButtonClicked_def
        Let_def split: option.splits dest: keeps_history(1) [where i = i] addToTerminal_history [where i = i] logging_history [where i = i])
  moreover have "sent_by (env, PressButton h) a = []" using False by (cases h) simp_all
  ultimately show ?thesis using assms(2) by simp
qed

lemma op_history:
  assumes "run_app_op (env, op) a = Inr b" "history_of i a = recent past"
  shows "history_of i b = recent (past @ commands_to i (sent_by (env, op) a))"
proof (cases op)
  case (SendToPort p t)
  then obtain ok where "sendToPort env p t a = Inr (ok, b)" using assms(1) by (auto simp: mapE_Inr_iff)
  from send_history [OF this assms(2)] SendToPort show ?thesis by simp
next
  case (PressButton h)
  then show ?thesis using handler_history assms by simp
next
  case (PortReports e)
  then have "history_of i b = history_of i a"
    using assms(1)
    by (auto simp: onPortEvent_def split: PortEventId.splits dest: keeps_history(1) [where i = i] addToTerminal_history [where i = i])
  with PortReports assms(2) show ?thesis by simp
next
  case (ThemeChanges theme)
  then have "history_of i b = history_of i a"
    using assms(1)
    by (auto simp: app_onThemeChange_def bindE_Inr_iff split: if_splits dest: setButtonState_history [where i = i])
  with ThemeChanges assms(2) show ?thesis by simp
next
  case (SelectPort name)
  then have "history_of i b = history_of i a"
    using assms(1) by (auto simp: onCurrentPortSelectionChanged_def Let_def mapE_Inr_iff on_gui_Inr_iff)
  with SelectPort assms(2) show ?thesis by simp
qed

lemma ops_history:
  "foldE run_app_op ops a = Inr b \<Longrightarrow> history_of i a = recent past \<Longrightarrow>
   history_of i b = recent (past @ commands_to i (sent_in ops a))"
proof (induction ops arbitrary: a past)
  case (Cons x xs)
  obtain a1 where a1: "run_app_op x a = Inr a1" "foldE run_app_op xs a1 = Inr b"
    using Cons.prems(1) by (auto simp: bindE_Inr_iff)
  obtain env op where x: "x = (env, op)" by fastforce
  have "history_of i a1 = recent (past @ commands_to i (sent_by x a))"
    using op_history a1(1) Cons.prems(2) unfolding x by blast
  from Cons.IH [OF a1(2) this] a1(1) show ?case by simp
qed simp

section \<open>How many lines the window holds\<close>

definition counts_fit :: "u32 \<Rightarrow> nat \<Rightarrow> app_listener gui \<Rightarrow> bool" where
  "counts_fit limit n g \<longleftrightarrow> unat (terminal_item_count g) \<le> max 1 (unat limit) \<and> unat (trace_item_count g) \<le> max 1 (unat limit) + n"

lemma unat_inc_le: "unat (x + 1 :: u32) \<le> unat x + 1"
  by (simp add: unat_word_ariths)

lemma counts_widget [simp]:
  "terminal_item_count (on_widget c g) = terminal_item_count g" "trace_item_count (on_widget c g) = trace_item_count g"
  "terminal_item_count (notify ns g) = terminal_item_count g" "trace_item_count (notify ns g) = trace_item_count g"
  by (simp_all add: on_widget_def notify_def)

definition adds_line :: "gui_signal \<Rightarrow> bool" where
  "adds_line sig \<longleftrightarrow> (case sig of AddToTerminalViewSignal t bg fg \<Rightarrow> True | AddToTraceViewSignal t bg fg \<Rightarrow> True | _ \<Rightarrow> False)"

lemma history_counts:
  "terminal_item_count (fold (\<lambda>c. on_widget (HistoryInsertFirst c)) cs g) = terminal_item_count g"
  "trace_item_count (fold (\<lambda>c. on_widget (HistoryInsertFirst c)) cs g) = trace_item_count g"
  by (induction cs arbitrary: g) simp_all

lemma slot_counts:
  "gui_slot w sig g = Inr h \<Longrightarrow> \<not> adds_line sig \<Longrightarrow>
   terminal_item_count h \<in> {0, terminal_item_count g} \<and> trace_item_count h \<in> {0, trace_item_count g}"
  by (cases sig)
    (auto simp: adds_line_def on_button_def on_filter_def on_port_def on_filter_style_def onReloadThemeSignal_def mapE_Inr_iff
      onRegisterPortClosedSignal_def onSetUserButtonTabNameSignal_def onGuiRequestSignal_def onSetCommandHistorySignal_def
      history_counts Let_def split: if_splits option.splits)

lemma slot_counts_fit: "gui_slot w sig g = Inr h \<Longrightarrow> \<not> adds_line sig \<Longrightarrow> counts_fit limit n g \<Longrightarrow> counts_fit limit n h"
  using slot_counts [of w sig g h] by (auto simp: counts_fit_def)

text \<open>The methods that add no line to either view.\<close>

definition quiet :: "app_listener gui_op \<Rightarrow> bool" where
  "quiet op \<longleftrightarrow> (\<exists>sig. op = (\<lambda>here w. gui_emit here w sig) \<and> \<not> adds_line sig)"

lemma quiet_methods [simp, intro]:
  "quiet (gui_setButtonBackgroundColor i c)" "quiet (gui_setButtonFontColor i c)" "quiet gui_clearTerminalView"
  "quiet gui_clearTraceView" "quiet gui_scrollTerminalToBottom" "quiet gui_scrollTraceViewToBottom"
  "quiet (gui_registerPortOpened t)" "quiet (gui_registerPortClosed t)" "quiet (gui_setCommandsHistory ts)"
  "quiet gui_clearCommand" "quiet (gui_setStatusBarNotification t c)"
  unfolding quiet_def adds_line_def gui_setButtonBackgroundColor_def gui_setButtonFontColor_def gui_clearTerminalView_def
    gui_clearTraceView_def gui_scrollTerminalToBottom_def gui_scrollTraceViewToBottom_def gui_registerPortOpened_def
    gui_registerPortClosed_def gui_setCommandsHistory_def gui_clearCommand_def gui_setStatusBarNotification_def
  by (rule exI, rule conjI, rule refl, simp)+

text \<open>In the GUI thread every signal runs its slot at once: \<open>addToTerminal\<close> without the queue.\<close>

definition cleared :: "u32 \<Rightarrow> app_listener gui \<Rightarrow> app_listener gui" where
  "cleared limit g =
     (let g1 = (if terminal_item_count g \<ge> limit then (on_widget TerminalClear g)\<lparr>terminal_item_count := 0\<rparr> else g)
      in if trace_item_count g1 \<ge> limit then (on_widget TraceClear g1)\<lparr>trace_item_count := 0\<rparr> else g1)"

definition appended :: "string \<Rightarrow> app_listener gui \<Rightarrow> app_listener gui" where
  "appended t g = (let g1 = on_widget (TerminalAppend (q_string t)) g in g1\<lparr>terminal_item_count := terminal_item_count g1 + 1\<rparr>)"

definition traced :: "app_env \<Rightarrow> string \<Rightarrow> string \<Rightarrow> trace_filter \<Rightarrow> app_listener gui \<Rightarrow> app_listener gui" where
  "traced env data shown f g =
     (case tryMatch (regex_search env) data f of
        None \<Rightarrow> g
      | Some s \<Rightarrow> onAddToTraceViewSignal (app_widgets env) (q_string shown) (background s) (font s) g)"

definition shown_line :: "app_env \<Rightarrow> string \<Rightarrow> string \<Rightarrow> string" where
  "shown_line env name data = q_trimmed env (format_line (local_time env) name data)"

lemma foldE_trace_lines:
  "in_gui env \<Longrightarrow> foldE (trace_line env data shown) fs a = Inr (a\<lparr>app_gui := fold (traced env data shown) fs (app_gui a)\<rparr>)"
proof (induction fs arbitrary: a)
  case (Cons f fs)
  have "trace_line env data shown f a = Inr (a\<lparr>app_gui := traced env data shown f (app_gui a)\<rparr>)"
    using Cons.prems
    by (simp add: trace_line_def traced_def on_gui_def gui_addToTraceView_def gui_emit_def split: option.split)
  then show ?case using Cons by simp
qed simp

lemma clear_in_gui:
  assumes "in_gui env"
  shows "bindE (clear_if (terminal_item_count (app_gui a) \<ge> limit) env gui_clearTerminalView a) (\<lambda>a1.
      clear_if (trace_item_count (app_gui a1) \<ge> limit) env gui_clearTraceView a1) = Inr (a\<lparr>app_gui := cleared limit (app_gui a)\<rparr>)"
  using assms
  by (simp add: clear_if_def on_gui_def gui_clearTerminalView_def gui_clearTraceView_def gui_emit_def cleared_def Let_def)

lemma addToTerminal_in_gui:
  assumes "in_gui env"
  shows "addToTerminal env name data bg fg a =
    Inr (a\<lparr>m_file_logger := logger_putLog (format_line (local_time env) name data) (m_file_logger a),
      app_gui := fold (traced env data (shown_line env name data)) (app_filters a)
        (appended (shown_line env name data) (cleared (maxTerminalTraces env) (app_gui a)))\<rparr>)"
proof -
  let ?rest = "\<lambda>a2. bindE (on_gui env (gui_addToTerminalView (shown_line env name data) bg fg) a2) (\<lambda>a3.
         let a4 = a3\<lparr>m_file_logger := logger_putLog (format_line (local_time env) name data) (m_file_logger a3)\<rparr>
         in foldE (trace_line env data (shown_line env name data)) (app_filters a4) a4)"
  have "addToTerminal env name data bg fg a =
      bindE (bindE (clear_if (terminal_item_count (app_gui a) \<ge> maxTerminalTraces env) env gui_clearTerminalView a) (\<lambda>a1.
        clear_if (trace_item_count (app_gui a1) \<ge> maxTerminalTraces env) env gui_clearTraceView a1)) ?rest"
    unfolding addToTerminal_def Let_def shown_line_def bindE_assoc ..
  also have "\<dots> = ?rest (a\<lparr>app_gui := cleared (maxTerminalTraces env) (app_gui a)\<rparr>)"
    unfolding clear_in_gui [OF assms] by simp
  finally show ?thesis
    using assms by (simp add: on_gui_def gui_addToTerminalView_def gui_emit_def Let_def foldE_trace_lines appended_def)
qed

lemma traced_counts:
  "terminal_item_count (fold (traced env data shown) fs g) = terminal_item_count g \<and>
   unat (trace_item_count (fold (traced env data shown) fs g)) \<le> unat (trace_item_count g) + length fs"
proof (induction fs arbitrary: g)
  case (Cons f fs)
  have t: "terminal_item_count (traced env data shown f g) = terminal_item_count g" 
    "unat (trace_item_count (traced env data shown f g)) \<le> unat (trace_item_count g) + 1"
    using unat_inc_le [of "trace_item_count g"]
    by (auto simp: traced_def onAddToTraceViewSignal_def Let_def split: option.split)
  show ?case using Cons.IH [of "traced env data shown f g"] t by simp
qed simp

lemma add_counts_fit:
  assumes "counts_fit limit n (app_gui a)" "in_gui env" "maxTerminalTraces env = limit" "length (app_filters a) \<le> n"
    "addToTerminal env name data bg fg a = Inr b"
  shows "counts_fit limit n (app_gui b) \<and> app_filters b = app_filters a"
proof -
  let ?c = "appended (shown_line env name data) (cleared limit (app_gui a))"
  have c: "unat (terminal_item_count ?c) \<le> max 1 (unat limit)" "unat (trace_item_count ?c) \<le> max 1 (unat limit)"
    using unat_inc_le [of "terminal_item_count (app_gui a)"]
    by (auto simp: appended_def cleared_def Let_def word_le_nat_alt)
  then show ?thesis
    using assms traced_counts [of env data "shown_line env name data" "app_filters a" ?c]
    by (auto simp: addToTerminal_in_gui counts_fit_def)
qed

definition app_fits :: "u32 \<Rightarrow> nat \<Rightarrow> main_app \<Rightarrow> bool" where
  "app_fits limit n a \<longleftrightarrow> counts_fit limit n (app_gui a) \<and> length (app_filters a) \<le> n"

lemma app_fits_simps [simp]:
  "app_fits limit n (a\<lparr>m_file_logger := l\<rparr>) = app_fits limit n a" "app_fits limit n (a\<lparr>m_marker_index := k\<rparr>) = app_fits limit n a"
  "app_fits limit n (a\<lparr>m_current_port_name := c\<rparr>) = app_fits limit n a" "app_fits limit n (a\<lparr>m_log_file_name := c\<rparr>) = app_fits limit n a"
  "app_fits limit n (a\<lparr>m_file_logging_path := c\<rparr>) = app_fits limit n a" "app_fits limit n (a\<lparr>app_dialogs := ds\<rparr>) = app_fits limit n a"
  "app_fits limit n (set_history i h a) = app_fits limit n a"
  "app_fits limit n (a\<lparr>app_ports := ps, app_filters := map f (app_filters a)\<rparr>) = app_fits limit n a"
  by (simp_all add: app_fits_def set_history_def)

lemma quiet_fits:
  assumes "on_gui env op a = Inr b" "quiet op" "in_gui env" "app_fits limit n a"
  shows "app_fits limit n b"
  using assms by (auto simp: on_gui_Inr_iff quiet_def gui_emit_def app_fits_def intro: slot_counts_fit)

lemma add_fits:
  "addToTerminal env name data bg fg a = Inr b \<Longrightarrow> in_gui env \<Longrightarrow> app_fits (maxTerminalTraces env) n a \<Longrightarrow>
   app_fits (maxTerminalTraces env) n b"
  using add_counts_fit [of "maxTerminalTraces env" n a env name data bg fg b] by (simp add: app_fits_def)

lemma button_state_fits:
  assumes "app_setButtonState env i st a = Inr b" "in_gui env" "app_fits limit n a"
  shows "app_fits limit n b"
proof -
  obtain bg fg a1 where s: "on_gui env (gui_setButtonBackgroundColor i bg) a = Inr a1" "on_gui env (gui_setButtonFontColor i fg) a1 = Inr b"
    using assms(1) that by (cases st) (auto simp: app_setButtonState_def bindE_Inr_iff)
  show ?thesis
    by (rule quiet_fits [OF s(2) quiet_methods(2) assms(2)]) (rule quiet_fits [OF s(1) quiet_methods(1) assms(2,3)])
qed

lemma history_fits:
  "on_gui env (gui_setCommandsHistory h) (set_history p h a) = Inr b \<Longrightarrow> in_gui env \<Longrightarrow> app_fits limit n a \<Longrightarrow> app_fits limit n b"
  by (rule quiet_fits, assumption) simp_all

lemma command_fits:
  "addToCommandHistory env p t a = Inr b \<Longrightarrow> in_gui env \<Longrightarrow> app_fits limit n a \<Longrightarrow> app_fits limit n b"
  by (auto simp: addToCommandHistory_def Let_def split: if_splits intro: history_fits)

lemma send_fits: "sendToPort env p t a = Inr (ok, b) \<Longrightarrow> in_gui env \<Longrightarrow> app_fits limit n a \<Longrightarrow> app_fits limit n b"
  by (auto simp: sendToPort_def Let_def bindE_Inr_iff mapE_Inr_iff split: if_splits intro: command_fits)

lemma logging_fits:
  assumes "onLoggingButtonClicked env a = Inr b" "in_gui env" "app_fits limit n a"
  shows "app_fits limit n b"
proof (cases "logger_isActive (m_file_logger a)")
  case True
  then obtain a1 where "on_gui env (gui_setStatusBarNotification (''Log file ready: '' @ m_log_file_name a) (statusBarTimeout env)) a = Inr a1"
    "app_setButtonState env (m_logging_button_id a1) False (a1\<lparr>m_file_logger := logger_closeFile (m_file_logger a1)\<rparr>) = Inr b"
    using assms(1) by (auto simp: onLoggingButtonClicked_def bindE_Inr_iff)
  then show ?thesis using assms(2,3) button_state_fits quiet_fits by (metis app_fits_simps(1) quiet_methods(11))
next
  case False
  show ?thesis
    using assms False quiet_fits [OF _ quiet_methods(11) assms(2), of _ _ _ _ limit n]
      button_state_fits [OF _ assms(2), of _ _ _ b limit n]
    by (auto simp: onLoggingButtonClicked_def bindE_Inr_iff Let_def split: prod.splits if_splits)
qed

lemma op_fits:
  assumes "run_app_op (env, op) a = Inr b" "in_gui env" "app_fits (maxTerminalTraces env) n a"
  shows "app_fits (maxTerminalTraces env) n b"
proof (cases op)
  case (SendToPort p t)
  then show ?thesis using assms send_fits by (auto simp: mapE_Inr_iff)
next
  case (PressButton h)
  then have h: "run_handler env h a = Inr b" using assms(1) by simp
  show ?thesis
  proof (cases h)
    case MarkerButton
    then show ?thesis using h assms add_fits [of env "''MARKER''" _ _ _ _ b n] by (auto simp: run_handler_def onMarkerButtonClicked_def Let_def)
  next
    case LoggingButton
    then show ?thesis using h assms logging_fits by (auto simp: run_handler_def)
  next
    case SendButton
    then obtain ok a1 where "sendToPort env (- 1) (getCurrentCommand env) a = Inr (ok, a1)" "on_gui env gui_clearCommand a1 = Inr b"
      using h by (auto simp: run_handler_def onSendButtonClicked_def bindE_Inr_iff)
    then show ?thesis using send_fits quiet_fits assms(2,3) by blast
  qed (use h assms in \<open>auto simp: run_handler_def onLoggingButtonContextMenuRequested_def onSettingsButtonClicked_def split: option.splits intro: quiet_fits\<close>)
next
  case (PortReports e)
  then show ?thesis using assms by (cases "ev_event e") (auto simp: onPortEvent_def intro: add_fits quiet_fits)
next
  case (ThemeChanges theme)
  then show ?thesis
    using assms button_state_fits [OF _ assms(2), of "m_logging_button_id a" False a _ "maxTerminalTraces env" n]
    by (auto simp: app_onThemeChange_def bindE_Inr_iff split: if_splits)
next
  case (SelectPort name)
  then show ?thesis using assms by (auto simp: onCurrentPortSelectionChanged_def Let_def mapE_Inr_iff intro: history_fits)
qed

section \<open>Bursts of lines\<close>

text \<open>The lines a user sees: what was appended since the view was last cleared.\<close>

fun see :: "widget_call \<Rightarrow> string list \<Rightarrow> string list" where
  "see TerminalClear ls = []"
| "see (TerminalAppend t) ls = ls @ [t]"
| "see c ls = ls"

definition visible :: "widget_call list \<Rightarrow> string list" where
  "visible cs = fold see cs []"

lemma visible_append: "visible (cs @ ds) = fold see ds (visible cs)"
  by (simp add: visible_def)




lemma appended_fields [simp]:
  "visible (widget_calls (appended t g)) = visible (widget_calls g) @ [q_string t]"
  "terminal_item_count (appended t g) = terminal_item_count g + 1" "trace_item_count (appended t g) = trace_item_count g"
  by (simp_all add: appended_def on_widget_def Let_def visible_append)


section \<open>Properties\<close>

text \<open>
  C8. Whatever else happens in between, the history of a port is exactly the list of the last 99
  different commands that were sent to it and accepted by its driver, each at the place of its
  latest use; so it holds no command twice and no empty one.
\<close>

theorem history_keeps_recent_commands:
  "\<lbrakk>m_commands_history a = []; foldE run_app_op ops a = Inr b\<rbrakk> \<Longrightarrow>
   history_of i b = recent (commands_to i (sent_in ops a)) \<and> distinct (history_of i b) \<and> length (history_of i b) \<le> 99"
proof -
  assume a: "m_commands_history a = []" "foldE run_app_op ops a = Inr b"
  have "history_of i a = recent []" using a(1) by (simp add: history_of_def recent_def)
  from ops_history [OF a(2) this] recent_facts show ?thesis by simp
qed

text \<open>
  C9. With every call in the GUI thread, the terminal never holds more lines than the setting
  says (and one when it says none), and the trace view at most one line per filter more.
\<close>

theorem views_stay_bounded:
  "\<lbrakk>\<forall>(env, op) \<in> set ops. in_gui env \<and> maxTerminalTraces env = limit; app_fits limit n a; foldE run_app_op ops a = Inr b\<rbrakk> \<Longrightarrow>
   unat (terminal_item_count (app_gui b)) \<le> max 1 (unat limit) \<and> unat (trace_item_count (app_gui b)) \<le> max 1 (unat limit) + n"
proof -
  assume a: "\<forall>(env, op) \<in> set ops. in_gui env \<and> maxTerminalTraces env = limit" "app_fits limit n a" "foldE run_app_op ops a = Inr b"
  have "app_fits limit n b"
  proof (rule foldE_invariant [where P = "app_fits limit n", OF a(3,2)])
    fix x :: "app_env \<times> app_op" and s t :: main_app
    assume x: "x \<in> set ops" "run_app_op x s = Inr t" "app_fits limit n s"
    obtain env op where "x = (env, op)" by fastforce
    then show "app_fits limit n t" using op_fits [of env op s t n] x a(1) by auto
  qed
  then show ?thesis by (simp add: app_fits_def counts_fit_def)
qed


definition example_app :: main_app where
  "example_app =
     \<lparr>app_gui = \<lparr>ui_buttons = [''markerButton'', ''loggingButton'', ''settingsButton'', ''sendButton'', ''bottomButton'', ''clearButton'',
          ''traceClearButton'', ''traceBottomButton''], ui_filters = [], ui_ports = 1, ui_send_button = ''sendButton'', ui_theme = 0,
          terminal_item_count = 0, trace_item_count = 0, has_port_listener = False, m_current_request = None, request_answer = None,
          m_theme_listeners = [], m_button_listeners = [], m_shortcuts_map = [], m_tab_name_listeners = [], widget_calls = [],
          notified = [], posted = []\<rparr>,
      app_ports =
        [\<lparr>m_buttonId = 9, m_settings = default_port_settings\<lparr>port_name := ''A''\<rparr>, m_connectRetryPeriod = 5000, m_timers_ref = timers_init,
          m_proxy = Some \<lparr>kind = SocketProxy ''127.0.0.1'' 7000, driver_started = True\<rparr>, m_timerId = 1,
          m_throughputCalculatorTimerID = 2, m_buttonState = BS_CONNECTED, m_throughputCalculator = \<lparr>m_bytesCount = 0, m_start = 0\<rparr>,
          gui_background = 0, gui_text = 1, port_calls = []\<rparr>],
      app_filters = [], m_file_logger = new_file_logger Map.empty, m_marker_index = 0, m_file_logging_path = [], m_log_file_name = [],
      m_commands_history = [], app_listeners = [], m_logging_button_id = 1, m_current_port_name = ''A'', app_dialogs = []\<rparr>"

definition example_env :: app_env where
  "example_env =
     \<lparr>in_gui = True, app_widgets = example_widgets, elsewhere = (\<lambda>r. []),
      local_time = \<lparr>tm_mday = 3, tm_mon = 4, tm_year = 122, tm_hour = 7, tm_min = 5, tm_sec = 9, tm_millis = 12\<rparr>,
      app_colours = example_colours, maxTerminalTraces = 2, statusBarTimeout = 3000, q_trimmed = (\<lambda>t. t), regex_search = (\<lambda>t r. t = r),
      creatable = (\<lambda>f. True), error_text = [], error_number = 0, logging_dialog = (\<lambda>p w. None),
      serial_out = (\<lambda>n d k. True), socket_out = (\<lambda>n d k. k > 0), app_version = ''1.0'', executable_path = ''/opt''\<rparr>"

definition example_sends :: "(app_env \<times> app_op) list" where
  "example_sends =
     [(example_env, SendToPort 0 ''ls''), (example_env, SelectPort ''B''), (example_env, SendToPort (- 1) ''ps''),
      (example_env, SendToPort 0 ''ls'')]"

lemmas send_defs = sendToPort_def target_port_def portNameToId_def port_write_def proxy_write_def with_ending_def
  getCurrentLineEnding_def addToCommandHistory_def on_gui_def gui_setCommandsHistory_def gui_emit_def
  removeCommandHistoryDuplicates_def drop_oldest_eq onCurrentPortSelectionChanged_def set_history_def history_of_def

theorem history_keeps_recent_commands_witness:
  "\<exists>b. foldE run_app_op example_sends example_app = Inr b \<and> history_of 0 b = [''ps'', ''ls''] \<and> distinct (history_of 0 b)"
proof -
  obtain b where b: "foldE run_app_op example_sends example_app = Inr b"
    by (simp add: example_sends_def send_defs example_app_def example_env_def example_widgets_def Let_def)
  have s: "commands_to 0 (sent_in example_sends example_app) = [''ls'', ''ps'', ''ls'']"
    by (simp add: example_sends_def sent_to_def send_defs example_app_def example_env_def example_widgets_def Let_def commands_to_def)
  show ?thesis
    using history_keeps_recent_commands [OF _ b, of 0] b s by (simp add: example_app_def recent_def)
qed

definition example_line :: "bytes \<Rightarrow> app_env \<times> app_op" where
  "example_line data =
     (example_env, PortReports \<lparr>ev_port_id = 0, ev_name = ''A'', ev_background = 1, ev_font = 2, ev_event = EV_NEW_DATA, ev_data = data\<rparr>)"

theorem views_stay_bounded_witness:
  "\<exists>b. foldE run_app_op [example_line [65], example_line [66], example_line [67]] example_app = Inr b \<and>
     unat (terminal_item_count (app_gui b)) \<le> 2"
proof -
  have e: "in_gui example_env" "maxTerminalTraces example_env = 2" by (simp_all add: example_env_def)
  obtain b where b: "foldE run_app_op [example_line [65], example_line [66], example_line [67]] example_app = Inr b"
    by (simp add: example_line_def onPortEvent_def addToTerminal_in_gui e)
  have "app_fits 2 0 example_app" by (simp add: app_fits_def counts_fit_def example_app_def)
  then show ?thesis using views_stay_bounded [OF _ _ b, of 2 0] b e by (simp add: example_line_def)
qed






section \<open>The buttons of the application\<close>

lemma history_buttons:
  "ui_buttons (fold (\<lambda>c. on_widget (HistoryInsertFirst c)) cs g) = ui_buttons g"
  "m_button_listeners (fold (\<lambda>c. on_widget (HistoryInsertFirst c)) cs g) = m_button_listeners g"
  "m_shortcuts_map (fold (\<lambda>c. on_widget (HistoryInsertFirst c)) cs g) = m_shortcuts_map g"
  by (induction cs arbitrary: g) simp_all

lemma notify_buttons [simp]: "ui_buttons (notify ns g) = ui_buttons g" "m_button_listeners (notify ns g) = m_button_listeners g"
  "m_shortcuts_map (notify ns g) = m_shortcuts_map g"
  by (simp_all add: notify_def)

definition same_buttons :: "app_listener gui \<Rightarrow> app_listener gui \<Rightarrow> bool" where
  "same_buttons g h \<longleftrightarrow>
     ui_buttons h = ui_buttons g \<and> m_button_listeners h = m_button_listeners g \<and> m_shortcuts_map h = m_shortcuts_map g"

lemma slot_buttons: "gui_slot w sig g = Inr h \<Longrightarrow> same_buttons g h"
  unfolding same_buttons_def
  by (cases sig)
    (auto simp: on_button_def on_filter_def on_port_def on_filter_style_def onReloadThemeSignal_def mapE_Inr_iff
      onRegisterPortClosedSignal_def onSetUserButtonTabNameSignal_def onGuiRequestSignal_def onSetCommandHistorySignal_def
      onAddToTraceViewSignal_def history_buttons Let_def split: if_splits option.splits)

lemma emit_buttons:
  assumes "on_gui env op a = Inr b" "\<exists>sig. op = (\<lambda>here w. gui_emit here w sig)"
  shows "same_buttons (app_gui a) (app_gui b) \<and> app_listeners b = app_listeners a"
proof -
  obtain sig g where "gui_emit (in_gui env) (app_widgets env) sig (app_gui a) = Inr g" "b = a\<lparr>app_gui := g\<rparr>"
    using assms by (auto simp: on_gui_Inr_iff)
  then show ?thesis
    using slot_buttons [of "app_widgets env" sig "app_gui a" g]
    by (cases "in_gui env") (auto simp: gui_emit_def same_buttons_def)
qed

lemma creating_methods:
  "\<exists>sig. gui_reloadTheme i = (\<lambda>here w. gui_emit here w sig)" "\<exists>sig. gui_setApplicationTitle t = (\<lambda>here w. gui_emit here w sig)"
  "\<exists>sig. gui_setInfoLabelText t = (\<lambda>here w. gui_emit here w sig)" "\<exists>sig. gui_addLineEnding t = (\<lambda>here w. gui_emit here w sig)"
  "\<exists>sig. gui_setButtonBackgroundColor j c = (\<lambda>here w. gui_emit here w sig)"
  "\<exists>sig. gui_setButtonFontColor j c = (\<lambda>here w. gui_emit here w sig)"
  unfolding gui_reloadTheme_def gui_setApplicationTitle_def gui_setInfoLabelText_def gui_addLineEnding_def
    gui_setButtonBackgroundColor_def gui_setButtonFontColor_def
  by (rule exI, rule refl)+

lemma button_state_buttons:
  assumes "app_setButtonState env i st a = Inr b"
  shows "same_buttons (app_gui a) (app_gui b) \<and> app_listeners b = app_listeners a"
proof -
  obtain bg fg a1 where s: "on_gui env (gui_setButtonBackgroundColor i bg) a = Inr a1" "on_gui env (gui_setButtonFontColor i fg) a1 = Inr b"
    using assms that by (cases st) (auto simp: app_setButtonState_def bindE_Inr_iff)
  show ?thesis
    using emit_buttons [OF s(1) creating_methods(5)] emit_buttons [OF s(2) creating_methods(6)] by (simp add: same_buttons_def)
qed

lemma subscribe_all_table:
  "buttons_ok g \<Longrightarrow>
   buttons_ok (subscribe_all t g) \<and>
   button_lookup (subscribe_all t g) k = (if \<exists>h. (fst k, snd k, h) \<in> set t then Some ThisApplication else button_lookup g k)"
proof (induction t arbitrary: g)
  case (Cons x t)
  obtain i e h where x: "x = (i, e, h)" by (cases x) auto
  let ?g = "subscribeForButtonEvent i e ThisApplication g"
  have "buttons_ok ?g" "button_lookup ?g = (button_lookup g)((i, e) \<mapsto> ThisApplication)"
    using button_table.subscribe_ok [OF Cons.prems, of "(i, e)"] button_table.lookup_subscribe [OF Cons.prems, of "(i, e)"] by simp_all
  then show ?case using Cons.IH [of ?g] by (cases k) (auto simp: subscribe_all_def x)
qed (simp add: subscribe_all_def)

lemma subscribe_all_ui: "ui_buttons (subscribe_all t g) = ui_buttons g \<and> m_shortcuts_map (subscribe_all t g) = m_shortcuts_map g"
  by (induction t arbitrary: g) (auto simp: subscribe_all_def subscribeForButtonEvent_def Let_def)

lemma subscribe_all_cong:
  "m_button_listeners g = m_button_listeners h \<Longrightarrow> m_button_listeners (subscribe_all t g) = m_button_listeners (subscribe_all t h)"
proof (induction t arbitrary: g h)
  case (Cons x t)
  obtain i e k where x: "x = (i, e, k)" by (cases x) auto
  have "m_button_listeners (subscribeForButtonEvent i e ThisApplication g) = m_button_listeners (subscribeForButtonEvent i e ThisApplication h)"
    using Cons.prems by (simp add: subscribeForButtonEvent_def Let_def)
  from Cons.IH [OF this] show ?case by (simp add: subscribe_all_def x)
qed (simp add: subscribe_all_def)

lemma dispatch:
  "distinct (map (\<lambda>(i, e, h). (i, e)) t) \<Longrightarrow> (i, e, h) \<in> set t \<Longrightarrow>
   foldE (\<lambda>(j, e', h). if j = i \<and> e' = e then run_handler env h else Inr) t a = run_handler env h a"
proof (induction t)
  case (Cons x t)
  have skip: "(\<forall>h. (i, e, h) \<notin> set t) \<Longrightarrow> foldE (\<lambda>(j, e', h). if j = i \<and> e' = e then run_handler env h else Inr) t b = Inr b" for t b
    by (induction t) auto
  show ?case
  proof (cases "x = (i, e, h)")
    case True
    then have "\<forall>h. (i, e, h) \<notin> set t" using Cons.prems(1) by (force simp: image_iff)
    then have "foldE (\<lambda>(j, e', h). if j = i \<and> e' = e then run_handler env h else Inr) t = Inr" using skip by blast
    then show ?thesis using True by simp
  next
    case False
    then have t: "(i, e, h) \<in> set t" using Cons.prems(2) by simp
    moreover obtain j e' h' where x: "x = (j, e', h')" by (cases x) auto
    ultimately have "(j, e') \<noteq> (i, e)" using Cons.prems(1) by (force simp: image_iff)
    then show ?thesis using Cons t x by auto
  qed
qed simp

definition app_button_names :: "string list" where
  "app_button_names =
     [''markerButton'', ''loggingButton'', ''settingsButton'', ''sendButton'', ''bottomButton'', ''clearButton'', ''traceClearButton'',
      ''traceBottomButton'']"

definition wired :: "(string \<times> GuiEvent \<times> app_handler) list" where
  "wired =
     [(''markerButton'', GUI_CLICKED, MarkerButton), (''loggingButton'', GUI_CLICKED, LoggingButton),
      (''loggingButton'', GUI_CONTEXT_MENU_REQUESTED, LoggingButtonMenu), (''settingsButton'', GUI_CLICKED, SettingsButton),
      (''sendButton'', GUI_CLICKED, SendButton), (''bottomButton'', GUI_CLICKED, BottomButton), (''clearButton'', GUI_CLICKED, ClearButton),
      (''traceClearButton'', GUI_CLICKED, TraceClearButton), (''traceBottomButton'', GUI_CLICKED, TraceBottomButton)]"

lemma button_table_wired: "button_table_of button = map (\<lambda>(n, e, h). (button n, e, h)) wired"
  by (simp add: button_table_of_def wired_def)

lemma wired_keys: "distinct (map (\<lambda>(n, e, h). (n, e)) wired)" "(n, e, h) \<in> set wired \<Longrightarrow> n \<in> set app_button_names"
  by (auto simp: wired_def app_button_names_def)

lemma word_of_nat_inj32: "(word_of_nat i :: u32) = word_of_nat j \<Longrightarrow> i < 2 ^ 32 \<Longrightarrow> j < 2 ^ 32 \<Longrightarrow> i = j"
  by (simp add: word_of_nat_eq_iff take_bit_nat_eq_self)

lemma getButtonID_inj:
  assumes "length (ui_buttons g) < 2 ^ 32" "m \<in> set (ui_buttons g)" "n \<in> set (ui_buttons g)" "getButtonID m g = getButtonID n g"
  shows "m = n"
proof -
  have less: "find_pos (\<lambda>x. x = k) (ui_buttons g) < length (ui_buttons g)" if "k \<in> set (ui_buttons g)" for k
    using that find_pos_less_iff [of "\<lambda>x. x = k" "ui_buttons g"] by simp
  have at: "ui_buttons g ! find_pos (\<lambda>x. x = k) (ui_buttons g) = k" if "k \<in> set (ui_buttons g)" for k
    using find_pos_sound [of "ui_buttons g" "\<lambda>x. x = k"] less [OF that] by simp
  have "(word_of_nat (find_pos (\<lambda>x. x = m) (ui_buttons g)) :: u32) = word_of_nat (find_pos (\<lambda>x. x = n) (ui_buttons g))"
    using assms(4) less [OF assms(2)] less [OF assms(3)] by (simp add: getButtonID_def Let_def)
  then have "find_pos (\<lambda>x. x = m) (ui_buttons g) = find_pos (\<lambda>x. x = n) (ui_buttons g)"
    using less_trans [OF less [OF assms(2)] assms(1)] less_trans [OF less [OF assms(3)] assms(1)] by (rule word_of_nat_inj32)
  then show ?thesis using at [OF assms(2)] at [OF assms(3)] by metis
qed

lemma window_buttons:
  assumes "app_show_window env a = Inr b"
  shows "same_buttons (app_gui a) (app_gui b)"
proof -
  obtain a1 a2 where s: "on_gui env (gui_reloadTheme 1) a = Inr a1" "on_gui env (gui_setApplicationTitle ''UltimateTerminal'') a1 = Inr a2"
    "on_gui env (gui_setInfoLabelText (''UltimateTerminal v'' @ app_version env)) a2 = Inr b"
    using assms by (auto simp: app_show_window_def bindE_Inr_iff)
  show ?thesis
    using emit_buttons [OF s(1) creating_methods(1)] emit_buttons [OF s(2) creating_methods(2)] emit_buttons [OF s(3) creating_methods(3)]
    by (simp add: same_buttons_def)
qed

lemma ending_buttons:
  assumes "app_line_endings env a = Inr b"
  shows "same_buttons (app_gui a) (app_gui b) \<and> app_listeners b = app_listeners a"
proof -
  obtain a1 a2 where s: "on_gui env (gui_addLineEnding [CHR 0x5C, CHR ''r'', CHR 0x5C, CHR ''n'']) a = Inr a1"
    "on_gui env (gui_addLineEnding [CHR 0x5C, CHR ''n'']) a1 = Inr a2" "on_gui env (gui_addLineEnding ''EMPTY'') a2 = Inr b"
    using assms by (auto simp: app_line_endings_def bindE_Inr_iff)
  show ?thesis
    using emit_buttons [OF s(1) creating_methods(4)] emit_buttons [OF s(2) creating_methods(4)] emit_buttons [OF s(3) creating_methods(4)]
    by (simp add: same_buttons_def)
qed

lemma app_create_tables:
  assumes "app_create env files g ports filters = Inr a"
  shows "ui_buttons (app_gui a) = ui_buttons g \<and> m_shortcuts_map (app_gui a) = m_shortcuts_map (gui_run g) \<and>
    app_listeners a = button_table_of (\<lambda>n. getButtonID n g) \<and>
    m_button_listeners (app_gui a) = m_button_listeners (subscribe_all (button_table_of (\<lambda>n. getButtonID n g)) g)"
proof -
  obtain a1 a2 a3 where s: "app_show_window env (app_start files g) = Inr a1"
    "app_setButtonState env (m_logging_button_id (app_wire_buttons a1)) False (app_wire_buttons a1) = Inr a2"
    "app_line_endings env (app_subscribe ports filters a2) = Inr a3" "a = a3\<lparr>m_file_logging_path := executable_path env\<rparr>"
    using assms by (auto simp: app_create_def bindE_Inr_iff mapE_Inr_iff)
  have run: "same_buttons (gui_run g) (app_gui a1)" using window_buttons [OF s(1)] by (simp add: app_start_def)
  then have id: "(\<lambda>n. getButtonID n (app_gui a1)) = (\<lambda>n. getButtonID n g)" and l: "m_button_listeners (app_gui a1) = m_button_listeners g"
    by (simp_all add: getButtonID_def same_buttons_def gui_run_def)
  have wire: "app_gui (app_wire_buttons a1) = subscribe_all (button_table_of (\<lambda>n. getButtonID n g)) (app_gui a1)"
    "app_listeners (app_wire_buttons a1) = button_table_of (\<lambda>n. getButtonID n g)"
    by (simp_all add: app_wire_buttons_def Let_def id)
  have sub: "same_buttons (app_gui a2) (app_gui (app_subscribe ports filters a2))" "app_listeners (app_subscribe ports filters a2) = app_listeners a2"
    by (simp_all add: app_subscribe_def same_buttons_def subscribeForThemeReloadEvent_def subscribeForActivePortChangedEvent_def)
  show ?thesis
    using run wire sub button_state_buttons [OF s(2)] ending_buttons [OF s(3)] s(4) subscribe_all_ui
      subscribe_all_cong [OF l, of "button_table_of (\<lambda>n. getButtonID n g)"]
    by (simp add: same_buttons_def gui_run_def)
qed

lemma creation_succeeds:
  assumes "unat (getButtonID ''loggingButton'' g) < length (ui_buttons g)" "length (ui_buttons g) < 2 ^ 31" "in_gui env"
  shows "\<exists>a. app_create env files g ports filters = Inr a"
proof -
  have window: "\<exists>b. app_show_window env a = Inr b" for a
    using assms(3)
    by (simp add: app_show_window_def on_gui_def gui_emit_def gui_reloadTheme_def onReloadThemeSignal_def THEMES_MAX_def themeToName_def
        gui_setApplicationTitle_def gui_setInfoLabelText_def Let_def)
  then obtain a1 where a1: "app_show_window env (app_start files g) = Inr a1" by blast
  let ?w = "app_wire_buttons a1"
  have "same_buttons (gui_run g) (app_gui a1)" using window_buttons [OF a1] by (simp add: app_start_def)
  then have u: "ui_buttons (app_gui a1) = ui_buttons g" "getButtonID n (app_gui a1) = getButtonID n g" for n
    by (simp_all add: same_buttons_def gui_run_def getButtonID_def)
  have w: "m_logging_button_id ?w = getButtonID ''loggingButton'' g" "ui_buttons (app_gui ?w) = ui_buttons g"
    using subscribe_all_ui u by (simp_all add: app_wire_buttons_def Let_def)
  let ?i = "m_logging_button_id ?w"
  have i: "unat ?i < length (ui_buttons (app_gui ?w))" "unat ?i < 2 ^ 31" using assms(1,2) w by simp_all
  define b where "b = ?w\<lparr>app_gui := on_widget (ButtonColour (unat ?i) (background_colour (app_colours env))) (app_gui ?w)\<rparr>"
  have b: "on_gui env (gui_setButtonBackgroundColor ?i (background_colour (app_colours env))) ?w = Inr b"
    using i assms(3) by (simp add: on_gui_def gui_emit_def gui_setButtonBackgroundColor_def on_button_def b_def)
  have "ui_buttons (app_gui b) = ui_buttons (app_gui ?w)" by (simp add: b_def)
  then obtain a2 where "on_gui env (gui_setButtonFontColor ?i (text_colour (app_colours env))) b = Inr a2"
    using i assms(3) by (simp add: on_gui_def gui_emit_def gui_setButtonFontColor_def on_button_def)
  then have a2: "app_setButtonState env ?i False ?w = Inr a2" by (simp add: app_setButtonState_def b)
  have "\<exists>b. app_line_endings env a = Inr b" for a
    using assms(3) by (simp add: app_line_endings_def on_gui_def gui_emit_def gui_addLineEnding_def)
  then show ?thesis by (simp add: app_create_def a1 a2) (metis mapE_simps(2))
qed

text \<open>A click on a button in the table of listeners is told to its listener, once.\<close>

lemma click_notifies:
  assumes "buttons_ok g" "button_lookup g (getButtonID n g, e) = Some l" "n \<in> set (ui_buttons g)"
    "m_shortcuts_map g = m_shortcuts_map (gui_run h)"
  shows "notified (gui_onButtonEvent e (ButtonObject n) g) = notified g @ [NotifyButton l (getButtonID n g) e]"
proof -
  have "map_of (map (\<lambda>i. (FilterLine i, ui_filters h ! i)) [0..<length (ui_filters h)]) (ButtonObject n) = None"
    by (auto simp: map_of_eq_None_iff)
  then have "sender_button (ButtonObject n) g = Some n" by (simp add: sender_button_def assms(4) gui_run_def map_add_def)
  moreover have i: "find_pos (\<lambda>m. m = n) (ui_buttons g) < length (ui_buttons g)" using assms(3) by simp
  then have "getButtonID n g = word_of_nat (find_pos (\<lambda>m. m = n) (ui_buttons g))" by (simp add: getButtonID_def)
  moreover have "button_listeners (getButtonID n g, e) g = [l]"
    using button_table.listeners_lookup [OF assms(1), of "(getButtonID n g, e)"] assms(2) by simp
  ultimately show ?thesis using assms(3) by (simp add: gui_onButtonEvent_def Let_def notify_button_listeners)
qed

text \<open>
  C10. Every button of the application does its own job and no other: after the start, a click on
  the button of that name (or the request of its menu) notifies the application once, and the
  application, told so, runs the handler of that button.
\<close>

theorem application_buttons_are_wired:
  "\<lbrakk>app_create env files g ports filters = Inr a; m_button_listeners g = []; length (ui_buttons g) < 2 ^ 32;
    set app_button_names \<subseteq> set (ui_buttons g); (n, e, h) \<in> set wired\<rbrakk> \<Longrightarrow>
   notified (gui_onButtonEvent e (ButtonObject n) (app_gui a)) = notified (app_gui a) @ [NotifyButton ThisApplication (getButtonID n g) e] \<and>
   app_onButtonEvent env' (getButtonID n g) e a = run_handler env' h a"
proof -
  assume a: "app_create env files g ports filters = Inr a" "m_button_listeners g = []" "length (ui_buttons g) < 2 ^ 32"
    "set app_button_names \<subseteq> set (ui_buttons g)" "(n, e, h) \<in> set wired"
  let ?id = "\<lambda>n. getButtonID n g"
  let ?t = "button_table_of ?id"
  have n: "m \<in> set (ui_buttons g)" if "(m, e', h') \<in> set wired" for m e' h'
    using wired_keys(2) [OF that] a(4) by blast
  have "inj_on (\<lambda>(n, e). (?id n, e)) (set (map (\<lambda>(n, e, h). (n, e)) wired))"
    using getButtonID_inj [OF a(3)] n by (auto simp: inj_on_def)
  then have "distinct (map (\<lambda>(n, e). (?id n, e)) (map (\<lambda>(n, e, h). (n, e)) wired))"
    using wired_keys(1) by (subst distinct_map) blast
  moreover have "map (\<lambda>(i, e, h). (i, e)) ?t = map (\<lambda>(n, e). (?id n, e)) (map (\<lambda>(n, e, h). (n, e)) wired)"
    by (simp add: button_table_wired comp_def case_prod_unfold)
  ultimately have dist: "distinct (map (\<lambda>(i, e, h). (i, e)) ?t)" by simp
  have mem: "(?id n, e, h) \<in> set ?t" using a(5) by (force simp: button_table_wired)
  have t: "ui_buttons (app_gui a) = ui_buttons g" "m_shortcuts_map (app_gui a) = m_shortcuts_map (gui_run g)" "app_listeners a = ?t"
    "m_button_listeners (app_gui a) = m_button_listeners (subscribe_all ?t g)"
    using app_create_tables [OF a(1)] by simp_all
  have "app_onButtonEvent env' (?id n) e a = run_handler env' h a"
    using dispatch [OF dist mem] t(3) by (simp add: app_onButtonEvent_def)
  moreover have "buttons_ok (subscribe_all ?t g)" "button_lookup (subscribe_all ?t g) (?id n, e) = Some ThisApplication"
    using subscribe_all_table [of g ?t "(?id n, e)"] a(2) mem by (auto simp: buttons_ok_def)
  moreover have "getButtonID n (app_gui a) = ?id n" by (simp add: getButtonID_def t(1))
  ultimately show ?thesis
    using click_notifies [of "app_gui a" n e ThisApplication g] n [OF a(5)] t(1,2,4) by (simp add: buttons_ok_def button_lookup_def)
qed

theorem application_buttons_are_wired_witness:
  "\<exists>a. app_create example_env Map.empty (app_gui example_app) [] [] = Inr a \<and>
     notified (gui_onButtonEvent GUI_CLICKED (ButtonObject ''sendButton'') (app_gui a)) = notified (app_gui a) @ [NotifyButton ThisApplication 3 GUI_CLICKED] \<and>
     app_onButtonEvent example_env 3 GUI_CLICKED a = onSendButtonClicked example_env a"
proof -
  let ?g = "app_gui example_app"
  have g: "m_button_listeners ?g = []" "length (ui_buttons ?g) < 2 ^ 32" "set app_button_names \<subseteq> set (ui_buttons ?g)"
    "(''sendButton'', GUI_CLICKED, SendButton) \<in> set wired" "getButtonID ''sendButton'' ?g = 3"
    by (simp_all add: example_app_def app_button_names_def wired_def getButtonID_def)
  obtain a where a: "app_create example_env Map.empty ?g [] [] = Inr a"
    using creation_succeeds [of ?g example_env Map.empty "[]" "[]"]
    by (auto simp: example_app_def example_env_def getButtonID_def)
  show ?thesis
    using application_buttons_are_wired [OF a g(1-4), of example_env] a by (simp add: g(5) run_handler_def)
qed

section \<open>Scripts and ports\<close>

lemma no_writes_in_waits: "Write p t \<notin> set (prepareWaitCommand n)"
proof (induction n rule: prepareWaitCommand.induct)
  case (1 n)
  show ?case
  proof (cases "n = 0")
    case False
    with 1 show ?thesis by (subst prepareWaitCommand.simps) (auto simp: Let_def)
  qed (simp add: prepareWaitCommand.simps)
qed

lemma special_writes: "processSpecialCommand ss = (processed, cmds, count, loop) \<Longrightarrow> Write p t \<notin> set cmds"
  using no_writes_in_waits
  by (auto simp: processSpecialCommand_def prepareRepeatCommand_def Let_def split: option.splits if_splits prod.splits)

lemma script_ports: "Write p t \<in> set (processStrings ss) \<Longrightarrow> p \<in> {-1, 0, 1, 2, 3, 4}"
proof (induction ss rule: processStrings.induct)
  case (2 s ss)
  show ?case
  proof (cases "isSpecialCommand s")
    case True
    obtain processed cmds count loop where c: "processSpecialCommand (s # ss) = (processed, cmds, count, loop)"
      by (cases "processSpecialCommand (s # ss)") auto
    have "Write p t \<in> set (processStrings loop) \<or> Write p t \<in> set (processStrings (drop processed (s # ss)))"
      using "2.prems" True special_writes [OF c] by (auto simp: processStrings.simps(2) c)
    then show ?thesis using "2.IH"(1,2) True c by auto
  next
    case False
    have "fst (parsePortCommand s) \<in> {-1, 0, 1, 2, 3, 4}"
      by (auto simp: parsePortCommand_def match_port_def digit_val_def DEFAULT_PORT_ID_def split: list.split option.split)
    then show ?thesis
      using "2.prems" "2.IH"(3,4) False
      by (auto simp: processStrings.simps(2) DEFAULT_PORT_ID_def split: if_splits prod.splits)
  qed
qed simp

text \<open>
  C27. No script of a user button makes \<open>sendToPort\<close> fail: its lines name the ports 0 to 4 or
  the current one, and the window has five ports, so with a driver behind each that can be
  written to (a serial or a socket one) every command reaches one of them.
\<close>

theorem scripts_reach_a_port:
  "\<lbrakk>Write p t \<in> set (m_commands (snd (parseCommands text q))); length (app_ports a) = 5;
    \<forall>r \<in> set (app_ports a). \<exists>x. m_proxy r = Some x \<and> (\<forall>c. kind x \<noteq> ProcessProxy c)\<rbrakk> \<Longrightarrow>
   unat (target_port (word_of_int p) a) < 5 \<and> (\<exists>ok b. sendToPort env (word_of_int p) t a = Inr (ok, b))"
proof -
  assume a: "Write p t \<in> set (m_commands (snd (parseCommands text q)))" "length (app_ports a) = 5"
    "\<forall>r \<in> set (app_ports a). \<exists>x. m_proxy r = Some x \<and> (\<forall>c. kind x \<noteq> ProcessProxy c)"
  have p: "p \<in> {-1, 0, 1, 2, 3, 4}" using a(1) script_ports by (simp add: parseCommands_def Let_def)
  have name: "portNameToId n a \<in> {0, 1, 2, 3, 4}" for n
  proof -
    define k where "k = find_pos (\<lambda>p. port_name (m_settings p) = n) (app_ports a)"
    have "k < 5 \<Longrightarrow> k \<in> {0, 1, 2, 3, 4}" by auto
    then show ?thesis using a(2) unfolding portNameToId_def Let_def k_def [symmetric] by auto
  qed
  have t: "target_port (word_of_int p) a \<in> {0, 1, 2, 3, 4}" using p name by (auto simp: target_port_def)
  then have lt: "unat (scast (target_port (word_of_int p) a) :: u32) < 5" "unat (target_port (word_of_int p) a) < 5" by auto
  let ?n = "unat (target_port (word_of_int p) a)"
  obtain x where "m_proxy (app_ports a ! ?n) = Some x" "\<forall>c. kind x \<noteq> ProcessProxy c" using a(2,3) lt(2) by (metis nth_mem)
  then have out: "\<exists>ok. port_write f g d n (app_ports a ! ?n) = Inr ok" for f g d n
    by (cases "kind x") (auto simp: port_write_def proxy_write_def)
  have history: "\<exists>b. addToCommandHistory env i t a = Inr b" for i
    by (simp add: addToCommandHistory_def on_gui_def gui_emit_def gui_setCommandsHistory_def Let_def)
  let ?d = "with_ending (getCurrentLineEnding env) t"
  obtain ok where ok: "port_write (serial_out env ?n) (socket_out env ?n) (map byte_of_char ?d) (int (length ?d)) (app_ports a ! ?n) = Inr ok"
    using out by blast
  obtain b where b: "addToCommandHistory env (target_port (word_of_int p) a) t a = Inr b" using history by blast
  have "sendToPort env (word_of_int p) t a = Inr (ok, if ok then b else a)"
    unfolding sendToPort_def Let_def ok bindE_simps b using lt(1) a(2) by simp
  with lt(2) show ?thesis by blast
qed

theorem scripts_reach_a_port_witness:
  "\<exists>ok b. sendToPort example_env (- 1) ''ls'' (example_app\<lparr>app_ports := replicate 5 (hd (app_ports example_app))\<rparr>) = Inr (ok, b)"
proof -
  let ?a = "example_app\<lparr>app_ports := replicate 5 (hd (app_ports example_app))\<rparr>"
  have "\<forall>r \<in> set (app_ports ?a). \<exists>x. m_proxy r = Some x \<and> (\<forall>c. kind x \<noteq> ProcessProxy c)" by (simp add: example_app_def)
  moreover have "Write (- 1) ''ls'' \<in> set (m_commands (snd (parseCommands ''ls'' \<lparr>m_commands = [], m_current_command = 0\<rparr>)))"
    by code_simp
  ultimately show ?thesis
    using scripts_reach_a_port [of "- 1" "''ls''" "''ls''" "\<lparr>m_commands = [], m_current_command = 0\<rparr>" ?a example_env] by simp
qed

end
