(* ===== verification/AppPersistence.thy ===== *)
theory AppPersistence
  imports MainApplication
begin

text \<open>
  What of the application survives a restart: the histories of commands, the path of the log file
  and the theme, as a module that keeps the contract of persistence.
\<close>

section \<open>The settings of the application\<close>

type_synonym history = "(u8 \<times> string list) list"

definition history_item :: "u8 \<times> string list \<Rightarrow> string \<times> string" where
  "history_item x = (''history.'' @ to_string (unat (fst x)), terminated (CHR '':'') (snd x))"

definition port_ids :: "history \<Rightarrow> string list" where
  "port_ids hs = map (\<lambda>x. to_string (unat (fst x))) hs"

lemma write_histories:
  "fold write_port_history hs (items, ports) = (items @ map history_item hs, ports @ terminated (CHR ''.'') (port_ids hs))"
  by (induction hs arbitrary: items ports)
    (auto simp: write_port_history_def writeItem_str_def history_item_def port_ids_def terminated_def)

definition app_base_items :: "app_env \<Rightarrow> main_app \<Rightarrow> items" where
  "app_base_items env a =
     [(''applicationVersion'', app_version env), (''loggingFile'', m_file_logging_path a), (''lineEnding'', getCurrentLineEnding env),
      (''currentTheme'', to_string (unat (word_of_int (ui_theme (app_gui a)) :: u8)))]"

definition app_items :: "app_env \<Rightarrow> main_app \<Rightarrow> items" where
  "app_items env a =
     app_base_items env a @ map history_item (m_commands_history a) @
       [(''portsWithHistory'', terminated (CHR ''.'') (port_ids (m_commands_history a)))]"

lemma app_writes: "app_onPersistenceWrite env a = Inr (app_items env a)"
  by (simp add: app_onPersistenceWrite_def write_histories writeItem_str_def writeItem_num_def app_items_def app_base_items_def Let_def)

lemma history_keys:
  "distinct (map fst hs) \<Longrightarrow> distinct (map fst (map history_item hs))"
  "k \<in> set (map fst (map history_item hs)) \<Longrightarrow> \<exists>t. k = ''history.'' @ t"
  by (auto simp: distinct_map inj_on_def history_item_def comp_def word_unat_eq_iff [symmetric])

lemma app_items_distinct:
  assumes "distinct (map fst (m_commands_history a))"
  shows "distinct (map fst (app_items env a))"
proof -
  have "\<forall>k \<in> set (map fst (map history_item (m_commands_history a))). \<exists>t. k = ''history.'' @ t" using history_keys(2) by blast
  then show ?thesis using history_keys(1) [OF assms] by (auto simp: app_items_def app_base_items_def)
qed

text \<open>Reading a history appends its commands to what the port has.\<close>

definition with_histories :: "history \<Rightarrow> main_app \<Rightarrow> main_app" where
  "with_histories hs a = fold (\<lambda>x a. fold (\<lambda>c a. set_history (fst x) (history_of (fst x) a @ [c]) a) (snd x) a) hs a"

lemma set_history_same [simp]:
  "app_gui (set_history i h a) = app_gui a" "m_file_logging_path (set_history i h a) = m_file_logging_path a"
  by (simp_all add: set_history_def)

lemma push_commands:
  "foldE (push_command (to_string (unat i))) h a = Inr (fold (\<lambda>c a. set_history i (history_of i a @ [c]) a) h a)"
proof (induction h arbitrary: a)
  case (Cons c h)
  have "unat i < 2 ^ 31" using unsigned_less [of i, where 'a = nat] by (simp add: less_trans)
  then have "stoi (to_string (unat i)) = Inr (uint i)" using stoi_to_string [of "unat i"] by simp
  then show ?case using Cons by (simp add: push_command_def)
qed simp

lemma push_commands_fields:
  "app_gui (fold (\<lambda>c a. set_history i (history_of i a @ [c]) a) h a) = app_gui a"
  "m_file_logging_path (fold (\<lambda>c a. set_history i (history_of i a @ [c]) a) h a) = m_file_logging_path a"
  "history_of j (fold (\<lambda>c a. set_history i (history_of i a @ [c]) a) h a) = (if i = j then history_of j a @ h else history_of j a)"
  by (induction h arbitrary: a) auto

lemma with_histories_fields:
  "app_gui (with_histories hs a) = app_gui a" "m_file_logging_path (with_histories hs a) = m_file_logging_path a"
  "distinct (map fst hs) \<Longrightarrow> history_of j (with_histories hs a) = history_of j a @ (case map_of hs j of None \<Rightarrow> [] | Some h \<Rightarrow> h)"
proof -
  show "app_gui (with_histories hs a) = app_gui a" "m_file_logging_path (with_histories hs a) = m_file_logging_path a"
    by (induction hs arbitrary: a) (simp_all add: with_histories_def push_commands_fields)
  show "distinct (map fst hs) \<Longrightarrow> history_of j (with_histories hs a) = history_of j a @ (case map_of hs j of None \<Rightarrow> [] | Some h \<Rightarrow> h)"
  proof (induction hs arbitrary: a)
    case (Cons x hs)
    have "fst x = j \<Longrightarrow> map_of hs j = None" using Cons.prems by (auto simp: map_of_eq_None_iff)
    then show ?case using Cons by (auto simp: with_histories_def push_commands_fields split: option.split)
  qed (simp add: with_histories_def)
qed

definition no_colon :: "history \<Rightarrow> bool" where
  "no_colon hs \<longleftrightarrow> (\<forall>x \<in> set hs. \<forall>c \<in> set (snd x). CHR '':'' \<notin> set c)"

lemma read_histories:
  assumes "\<forall>x \<in> set hs. map_of items (''history.'' @ to_string (unat (fst x))) = Some (terminated (CHR '':'') (snd x))" "no_colon hs"
  shows "foldE (read_port_history items) (port_ids hs) a = Inr (with_histories hs a)"
  using assms
proof (induction hs arbitrary: a)
  case (Cons x hs)
  have "getlines (CHR '':'') (terminated (CHR '':'') (snd x)) = snd x"
    using Cons.prems(2) by (intro getlines_terminated) (simp add: no_colon_def)
  then have "read_port_history items (to_string (unat (fst x))) a = Inr (fold (\<lambda>c a. set_history (fst x) (history_of (fst x) a @ [c]) a) (snd x) a)"
    using Cons.prems(1) push_commands by (simp add: read_port_history_def readItem_str_map_of)
  moreover have "no_colon hs" using Cons.prems(2) by (simp add: no_colon_def)
  ultimately show ?case using Cons by (simp add: port_ids_def with_histories_def)
qed (simp add: port_ids_def with_histories_def)

definition app_saved :: "main_app \<Rightarrow> (u8 \<Rightarrow> string list) \<times> string \<times> int" where
  "app_saved a = ((\<lambda>i. history_of i a), m_file_logging_path a, ui_theme (app_gui a))"

definition app_savable :: "app_env \<Rightarrow> main_app \<Rightarrow> bool" where
  "app_savable env a \<longleftrightarrow>
     in_gui env \<and> ui_theme (app_gui a) \<in> {0, 1} \<and> distinct (map fst (m_commands_history a)) \<and> no_colon (m_commands_history a)"

lemma theme_restored:
  assumes "i \<in> {0, 1}" "in_gui env"
  shows "\<exists>b. on_gui env (gui_reloadTheme (word_of_int i)) a = Inr b \<and> ui_theme (app_gui b) = i \<and>
    m_commands_history b = m_commands_history a"
  using assms
  by (auto simp: on_gui_def gui_emit_def gui_reloadTheme_def onReloadThemeSignal_def THEMES_MAX_def themeToName_def on_widget_def
      notify_def Let_def)

lemma app_read_back:
  assumes "app_savable env a" "m_commands_history b = []"
  shows "\<exists>c. app_onPersistenceRead env (app_items env a) b = Inr c \<and> app_saved c = app_saved a"
proof -
  let ?hs = "m_commands_history a"
  let ?items = "app_items env a"
  have ok: "in_gui env" "ui_theme (app_gui a) \<in> {0, 1}" "distinct (map fst ?hs)" "no_colon ?hs"
    using assms(1) by (simp_all add: app_savable_def)
  have m: "map_of ?items k = Some v" if "(k, v) \<in> set ?items" for k v
    using that app_items_distinct [OF ok(3), of env] by (intro map_of_is_SomeI)
  have base: "map_of ?items ''portsWithHistory'' = Some (terminated (CHR ''.'') (port_ids ?hs))"
    "map_of ?items ''lineEnding'' = Some (getCurrentLineEnding env)"
    "map_of ?items ''loggingFile'' = Some (m_file_logging_path a)"
    "map_of ?items ''currentTheme'' = Some (to_string (unat (word_of_int (ui_theme (app_gui a)) :: u8)))"
    by (rule m, simp add: app_items_def app_base_items_def)+
  have "\<forall>x \<in> set ?hs. map_of ?items (''history.'' @ to_string (unat (fst x))) = Some (terminated (CHR '':'') (snd x))"
  proof
    fix x assume "x \<in> set ?hs"
    then show "map_of ?items (''history.'' @ to_string (unat (fst x))) = Some (terminated (CHR '':'') (snd x))"
      by (intro m) (auto simp: app_items_def history_item_def)
  qed
  then have hist: "foldE (read_port_history ?items) (port_ids ?hs) b = Inr (with_histories ?hs b)"
    using read_histories ok(4) by blast
  have ids: "getlines (CHR ''.'') (terminated (CHR ''.'') (port_ids ?hs)) = port_ids ?hs"
    by (rule getlines_terminated) (auto simp: port_ids_def to_string_no is_digit_def)
  let ?b1 = "with_histories ?hs b"
  obtain b2 where b2: "on_gui env (gui_setCurrentLineEnding (getCurrentLineEnding env)) ?b1 = Inr b2"
    "m_commands_history b2 = m_commands_history ?b1" "m_file_logging_path b2 = m_file_logging_path ?b1"
    using ok(1) by (simp add: on_gui_def gui_setCurrentLineEnding_def gui_emit_def)
  obtain b3 where b3: "on_gui env (gui_reloadTheme (word_of_int (ui_theme (app_gui a)))) b2 = Inr b3"
    "ui_theme (app_gui b3) = ui_theme (app_gui a)" "m_commands_history b3 = m_commands_history b2"
    using theme_restored [OF ok(2,1), of b2] by blast
  have theme: "readItem_num word_of_int ?items ''currentTheme'' (0 :: u8) = Inr (True, word_of_int (ui_theme (app_gui a)))"
    using base(4) by (simp add: readItem_num_map_of)
  let ?c = "b3\<lparr>m_file_logging_path := m_file_logging_path a\<rparr>"
  have "app_onPersistenceRead env ?items b = Inr ?c"
    by (simp add: app_onPersistenceRead_def readItem_str_map_of base(1-3) ids hist b2(1) b3(1) theme)
  moreover have "history_of i ?c = history_of i a" for i
    using with_histories_fields(3) [OF ok(3), of i b] b2(2) b3(3) assms(2) by (simp add: history_of_def)
  ultimately show ?thesis using b3(2) by (simp add: app_saved_def)
qed

interpretation app_module: keyed_module "app_onPersistenceWrite env" "app_onPersistenceRead env" app_saved "app_savable env"
  "\<lambda>a b. m_commands_history b = []"
proof unfold_locales
  show "\<exists>items. app_onPersistenceWrite env a = Inr items \<and> items \<noteq> [] \<and> distinct (map fst items)" if "app_savable env a" for a
    using that app_items_distinct [of a env] by (auto simp: app_writes app_savable_def app_items_def)
next
  fix items items' :: items and b
  assume "map_of items = map_of items'"
  then have r: "readItem_str items = readItem_str items'" "readItem_num (word_of_int :: int \<Rightarrow> u8) items = readItem_num word_of_int items'"
    by (intro ext; simp only: readItem_map_of)+
  then have "read_port_history items = read_port_history items'" by (intro ext) (simp add: read_port_history_def)
  with r show "app_onPersistenceRead env items b = app_onPersistenceRead env items' b"
    by (simp add: app_onPersistenceRead_def)
next
  show "\<exists>c. app_onPersistenceRead env items b = Inr c \<and> app_saved c = app_saved a"
    if "app_savable env a" "m_commands_history b = []" "app_onPersistenceWrite env a = Inr items" for a b items
    using app_read_back [OF that(1,2)] that(3) by (simp add: app_writes)
qed

end
