(* ===== verification/SettingsHandler.thy ===== *)
theory SettingsHandler
  imports Persistence
begin

text \<open>
  \<open>sw/Settings/source/SettingsHandler.cpp\<close> and \<open>config/Settings_config.h\<close>: the settings of
  the program, one map per type, their listeners and their persistence. Reading a map with
  \<open>[]\<close> adds the missing key, so the getters change the state too.
\<close>

section \<open>Keys\<close>

datatype KeyID =
    Logger_supportFileLogging
  | Logger_supportStdoutLogging
  | Logger_supportSocketLogging
  | Logger_socketPort
  | Logger_maxFileSize
  | MainApplication_maxTerminalTraces
  | MainApplication_statusBarTimeout
  | PortSettingDialog_maxLineEditLength
  | GUI_Dark_WindowBackground
  | GUI_Dark_WindowText
  | GUI_Dark_TerminalBackground
  | GUI_UserButtons_Tabs
  | GUI_UserButtons_RowsPerTab
  | GUI_UserButtons_ButtonsPerRow
  | Throughput_Calculation_Window
  | SETTING_GROUP_MAX

datatype SettingType = ST_U32 | ST_BOOL | ST_STRING | ST_UNKNOWN

definition all_keys :: "KeyID list" where
  "all_keys =
     [Logger_supportFileLogging, Logger_supportStdoutLogging, Logger_supportSocketLogging, Logger_socketPort, Logger_maxFileSize,
      MainApplication_maxTerminalTraces, MainApplication_statusBarTimeout, PortSettingDialog_maxLineEditLength,
      GUI_Dark_WindowBackground, GUI_Dark_WindowText, GUI_Dark_TerminalBackground, GUI_UserButtons_Tabs, GUI_UserButtons_RowsPerTab,
      GUI_UserButtons_ButtonsPerRow, Throughput_Calculation_Window]"

definition m_setting_names :: "string list" where
  "m_setting_names =
     [''Logger_supportFileLogging'', ''Logger_supportStdoutLogging'', ''Logger_supportSocketLogging'', ''Logger_socketPort'',
      ''Logger_maxFileSize'', ''MainApplication_maxTerminalTraces'', ''MainApplication_statusBarTimeout'',
      ''PortSettingDialog_maxLineEditLength'', ''GUI_Dark_WindowBackground'', ''GUI_Dark_WindowText'', ''GUI_Dark_TerminalBackground'',
      ''GUI_UserButtons_Tabs'', ''GUI_UserButtons_RowsPerTab'', ''GUI_UserButtons_ButtonsPerRow'', ''Throughput_Calculation_Window'']"

definition default_bools :: "(KeyID \<times> bool) list" where
  "default_bools = [(Logger_supportFileLogging, True), (Logger_supportStdoutLogging, False), (Logger_supportSocketLogging, True)]"

definition default_u32s :: "(KeyID \<times> u32) list" where
  "default_u32s =
     [(Logger_socketPort, 14261), (Logger_maxFileSize, 104857600), (MainApplication_maxTerminalTraces, 10000),
      (MainApplication_statusBarTimeout, 10000), (PortSettingDialog_maxLineEditLength, 30), (GUI_Dark_WindowBackground, 3947580),
      (GUI_Dark_WindowText, 11842740), (GUI_Dark_TerminalBackground, 5263440), (GUI_UserButtons_Tabs, 3),
      (GUI_UserButtons_RowsPerTab, 2), (GUI_UserButtons_ButtonsPerRow, 5), (Throughput_Calculation_Window, 200)]"

section \<open>State and operations\<close>

record 'l settings =
  m_u32_items :: "KeyID \<rightharpoonup> u32"
  m_bool_items :: "KeyID \<rightharpoonup> bool"
  m_string_items :: "KeyID \<rightharpoonup> string"
  settings_listeners :: "(KeyID \<times> 'l) list"
  settings_notified :: "('l \<times> KeyID) list"

text \<open>The constructor loads the defaults.\<close>

definition settings_create :: "'l settings" where
  "settings_create =
     \<lparr>m_u32_items = map_of default_u32s, m_bool_items = map_of default_bools, m_string_items = Map.empty,
      settings_listeners = [], settings_notified = []\<rparr>"

definition settingExist :: "string \<Rightarrow> bool" where
  "settingExist name \<longleftrightarrow> name \<in> set m_setting_names"

definition getType :: "KeyID \<Rightarrow> 'l settings \<Rightarrow> SettingType" where
  "getType i s =
     (if m_u32_items s i \<noteq> None then ST_U32
      else if m_bool_items s i \<noteq> None then ST_BOOL
      else if m_string_items s i \<noteq> None then ST_STRING
      else ST_UNKNOWN)"

definition key_toString :: "KeyID \<Rightarrow> string res" where
  "key_toString i =
     (if i \<noteq> SETTING_GROUP_MAX then Inr (m_setting_names ! find_pos (\<lambda>k. k = i) all_keys) else Inl AssertionFailed)"

definition key_fromString :: "string \<Rightarrow> KeyID" where
  "key_fromString name =
     (let i = find_pos (\<lambda>n. n = name) m_setting_names in if i < length m_setting_names then all_keys ! i else SETTING_GROUP_MAX)"

text \<open>\<open>m_u32_items[id]\<close> and its like: the value, and the map with the key in it.\<close>

definition at_key :: "'v \<Rightarrow> KeyID \<Rightarrow> (KeyID \<rightharpoonup> 'v) \<Rightarrow> 'v \<times> (KeyID \<rightharpoonup> 'v)" where
  "at_key d i m = (case m i of Some v \<Rightarrow> (v, m) | None \<Rightarrow> (d, m(i \<mapsto> d)))"

definition getU32 :: "KeyID \<Rightarrow> 'l settings \<Rightarrow> (u32 \<times> 'l settings) res" where
  "getU32 i s =
     (if i \<noteq> SETTING_GROUP_MAX
      then let (v, m) = at_key 0 i (m_u32_items s) in Inr (v, s\<lparr>m_u32_items := m\<rparr>)
      else Inl AssertionFailed)"

definition getString :: "KeyID \<Rightarrow> 'l settings \<Rightarrow> (string \<times> 'l settings) res" where
  "getString i s =
     (if i \<noteq> SETTING_GROUP_MAX
      then let (v, m) = at_key [] i (m_string_items s) in Inr (v, s\<lparr>m_string_items := m\<rparr>)
      else Inl AssertionFailed)"

definition getBool :: "KeyID \<Rightarrow> 'l settings \<Rightarrow> (bool \<times> 'l settings) res" where
  "getBool i s =
     (if i \<noteq> SETTING_GROUP_MAX
      then let (v, m) = at_key False i (m_bool_items s) in Inr (v, s\<lparr>m_bool_items := m\<rparr>)
      else Inl AssertionFailed)"

definition registerListener :: "KeyID \<Rightarrow> 'l \<Rightarrow> 'l settings \<Rightarrow> 'l settings" where
  "registerListener i l s = s\<lparr>settings_listeners := settings_listeners s @ [(i, l)]\<rparr>"

definition unregisterListener :: "KeyID \<Rightarrow> 'l \<Rightarrow> 'l settings \<Rightarrow> 'l settings" where
  "unregisterListener i l s = s\<lparr>settings_listeners := erase_first (\<lambda>x. x = (i, l)) (settings_listeners s)\<rparr>"

definition settings_notify :: "KeyID \<Rightarrow> 'l settings \<Rightarrow> 'l settings" where
  "settings_notify i s =
     s\<lparr>settings_notified := settings_notified s @ map (\<lambda>(k, l). (l, k)) (filter (\<lambda>(k, l). k = i) (settings_listeners s))\<rparr>"

definition setU32 :: "KeyID \<Rightarrow> u32 \<Rightarrow> 'l settings \<Rightarrow> (bool \<times> 'l settings) res" where
  "setU32 i v s =
     (if i \<noteq> SETTING_GROUP_MAX
      then let (old, m) = at_key 0 i (m_u32_items s) in Inr (old \<noteq> v, settings_notify i (s\<lparr>m_u32_items := m(i \<mapsto> v)\<rparr>))
      else Inl AssertionFailed)"

definition setString :: "KeyID \<Rightarrow> string \<Rightarrow> 'l settings \<Rightarrow> (bool \<times> 'l settings) res" where
  "setString i v s =
     (if i \<noteq> SETTING_GROUP_MAX
      then let (old, m) = at_key [] i (m_string_items s) in Inr (old \<noteq> v, settings_notify i (s\<lparr>m_string_items := m(i \<mapsto> v)\<rparr>))
      else Inl AssertionFailed)"

definition setBool :: "KeyID \<Rightarrow> bool \<Rightarrow> 'l settings \<Rightarrow> (bool \<times> 'l settings) res" where
  "setBool i v s =
     (if i \<noteq> SETTING_GROUP_MAX
      then let (old, m) = at_key False i (m_bool_items s) in Inr (old \<noteq> v, settings_notify i (s\<lparr>m_bool_items := m(i \<mapsto> v)\<rparr>))
      else Inl AssertionFailed)"

section \<open>Persistence\<close>

text \<open>An item's value is the name of its type, a dot, and the value up to the end of the line.\<close>

definition split_setting :: "string \<Rightarrow> string \<times> string" where
  "split_setting v = (let (t, rest) = getline1 (CHR ''.'') v in (t, fst (getline1 (CHR 0x0A) rest)))"

definition read_setting :: "string \<times> string \<Rightarrow> 'l settings \<Rightarrow> 'l settings res" where
  "read_setting = (\<lambda>(key, value) s.
     (let settingID = key_fromString key; (settingType, settingValue) = split_setting value
      in if settingType = ''bool''
         then Inr (if settingExist key then s\<lparr>m_bool_items := (m_bool_items s)(settingID \<mapsto> settingValue = ''1'')\<rparr> else s)
         else if settingType = ''uint32_t''
         then mapE (\<lambda>v. if settingExist key then s\<lparr>m_u32_items := (m_u32_items s)(settingID \<mapsto> word_of_int v)\<rparr> else s) (stoi settingValue)
         else if settingType = ''std::string''
         then Inr (if settingExist key then s\<lparr>m_string_items := (m_string_items s)(settingID \<mapsto> settingValue)\<rparr> else s)
         else Inr s))"

definition settings_onPersistenceRead :: "items \<Rightarrow> 'l settings \<Rightarrow> 'l settings res" where
  "settings_onPersistenceRead items s = foldE read_setting items s"

definition setting_item :: "'l settings \<Rightarrow> string \<Rightarrow> string \<times> string" where
  "setting_item s name =
     (let i = key_fromString name
      in (name,
          case getType i s of
            ST_BOOL \<Rightarrow> ''bool.'' @ to_string (num_of_bool (fst (at_key False i (m_bool_items s))))
          | ST_U32 \<Rightarrow> ''uint32_t.'' @ to_string (unat (fst (at_key 0 i (m_u32_items s))))
          | _ \<Rightarrow> ''std::string.'' @ fst (at_key [] i (m_string_items s))))"

definition settings_onPersistenceWrite :: "'l settings \<Rightarrow> items res" where
  "settings_onPersistenceWrite s = Inr (map (setting_item s) m_setting_names)"

section \<open>Types of settings\<close>

definition key_type :: "KeyID \<Rightarrow> SettingType" where
  "key_type i = (if i \<in> fst ` set default_u32s then ST_U32 else if i \<in> fst ` set default_bools then ST_BOOL else ST_UNKNOWN)"

text \<open>Every key is in the map of its declared type and in no other.\<close>

definition settings_typed :: "'l settings \<Rightarrow> bool" where
  "settings_typed s \<longleftrightarrow>
     dom (m_u32_items s) = {i. key_type i = ST_U32} \<and> dom (m_bool_items s) = {i. key_type i = ST_BOOL} \<and> m_string_items s = Map.empty"

lemma key_type_MAX [simp]: "key_type SETTING_GROUP_MAX = ST_UNKNOWN"
  by (simp add: key_type_def default_u32s_def default_bools_def)

lemma created_typed: "settings_typed settings_create"
  by (auto simp: settings_typed_def settings_create_def key_type_def dom_map_of_conv_image_fst default_u32s_def default_bools_def)

lemma typed_values:
  assumes "settings_typed st"
  shows "key_type k = ST_U32 \<longleftrightarrow> (\<exists>n. m_u32_items st k = Some n)" "key_type k = ST_BOOL \<longleftrightarrow> (\<exists>b. m_bool_items st k = Some b)"
  using assms unfolding settings_typed_def by blast+

lemma typed_getU32:
  assumes "settings_typed st" "key_type k = ST_U32"
  shows "getU32 k st = Inr (the (m_u32_items st k), st)"
  using assms typed_values(1) [OF assms(1), of k] by (cases "k = SETTING_GROUP_MAX") (auto simp: getU32_def at_key_def)

lemma typed_getType: "settings_typed s \<Longrightarrow> getType i s = key_type i"
proof -
  assume s: "settings_typed s"
  then have "m_u32_items s i \<noteq> None \<longleftrightarrow> key_type i = ST_U32" "m_bool_items s i \<noteq> None \<longleftrightarrow> key_type i = ST_BOOL"
    unfolding settings_typed_def by blast+
  moreover have "key_type i \<noteq> ST_STRING" by (simp add: key_type_def)
  ultimately show ?thesis using s by (cases "key_type i") (auto simp: getType_def settings_typed_def)
qed

lemma names_distinct: "distinct m_setting_names"
  by (simp add: m_setting_names_def)

lemma names_keys: "name \<in> set m_setting_names \<Longrightarrow> key_type (key_fromString name) \<in> {ST_U32, ST_BOOL}"
  by (auto simp: m_setting_names_def key_fromString_def Let_def all_keys_def key_type_def default_u32s_def default_bools_def)

lemma keys_named: "key_type i \<in> {ST_U32, ST_BOOL} \<Longrightarrow> i \<in> key_fromString ` set m_setting_names"
proof -
  assume "key_type i \<in> {ST_U32, ST_BOOL}"
  then have "i \<in> set all_keys" by (cases i) (simp_all add: all_keys_def)
  moreover have "map key_fromString m_setting_names = all_keys"
    by (simp add: m_setting_names_def key_fromString_def Let_def all_keys_def)
  ultimately show ?thesis by (metis set_map)
qed

text \<open>Reading the item another state wrote for a key copies the key's value.\<close>

definition copy_setting :: "KeyID \<Rightarrow> 'l settings \<Rightarrow> 'l settings \<Rightarrow> 'l settings" where
  "copy_setting i s t =
     (if key_type i = ST_U32 then t\<lparr>m_u32_items := (m_u32_items t)(i := m_u32_items s i)\<rparr>
      else t\<lparr>m_bool_items := (m_bool_items t)(i := m_bool_items s i)\<rparr>)"

lemma split_written:
  "split_setting (''uint32_t.'' @ to_string n) = (''uint32_t'', to_string n)"
  "split_setting (''bool.'' @ to_string n) = (''bool'', to_string n)"
proof -
  have n: "CHR 0x0A \<notin> set (to_string n)" by (rule to_string_no) (simp add: is_digit_def)
  have d: "getline1 (CHR ''.'') (t @ CHR ''.'' # to_string n) = (t, to_string n)" if "CHR ''.'' \<notin> set t" for t
    using that by (rule getline1_delim)
  show "split_setting (''uint32_t.'' @ to_string n) = (''uint32_t'', to_string n)"
    "split_setting (''bool.'' @ to_string n) = (''bool'', to_string n)"
    using d [of "''uint32_t''"] d [of "''bool''"] getline1_last [OF n] by (simp_all add: split_setting_def)
qed

definition numbers_fit :: "'l settings \<Rightarrow> bool" where
  "numbers_fit s \<longleftrightarrow> (\<forall>i v. m_u32_items s i = Some v \<longrightarrow> unat v < 2 ^ 31)"

lemma one_digit: "to_string (num_of_bool b) = ''1'' \<longleftrightarrow> b"
proof -
  have "''1'' = to_string 1" by code_simp
  then show ?thesis by (simp add: num_of_bool_def)
qed

lemma read_written_item:
  assumes "settings_typed s" "numbers_fit s" "name \<in> set m_setting_names"
  shows "read_setting (setting_item s name) t = Inr (copy_setting (key_fromString name) s t)"
proof -
  let ?i = "key_fromString name"
  consider v where "key_type ?i = ST_U32" "m_u32_items s ?i = Some v" | b where "key_type ?i = ST_BOOL" "m_bool_items s ?i = Some b"
    using names_keys [OF assms(3)] assms(1) unfolding settings_typed_def by blast
  then show ?thesis
  proof cases
    case 1
    then have "stoi (to_string (unat v)) = Inr (int (unat v))" using assms(2) by (intro stoi_to_string) (simp add: numbers_fit_def)
    then show ?thesis
      using 1 assms(3) split_written(1) [of "unat v"]
      by (simp add: setting_item_def typed_getType [OF assms(1)] at_key_def read_setting_def settingExist_def copy_setting_def)
  next
    case 2
    then show ?thesis
      using assms(3) split_written(2) [of "num_of_bool b"]
      by (simp add: setting_item_def typed_getType [OF assms(1)] at_key_def read_setting_def settingExist_def copy_setting_def one_digit)
  qed
qed

lemma read_written_items:
  assumes "settings_typed s" "numbers_fit s" "\<forall>x \<in> set items. \<exists>name \<in> set m_setting_names. x = setting_item s name"
  shows "foldE read_setting items t = Inr (fold (\<lambda>x t. copy_setting (key_fromString (fst x)) s t) items t)"
  using assms(3)
proof (induction items arbitrary: t)
  case (Cons x items)
  then obtain name where n: "name \<in> set m_setting_names" "x = setting_item s name" by auto
  then have "fst x = name" by (simp add: setting_item_def Let_def)
  with n Cons show ?case by (simp add: read_written_item [OF assms(1,2) n(1)])
qed simp

lemma copied:
  "m_u32_items (fold (\<lambda>x t. copy_setting (key_fromString (fst x)) s t) items t) i =
     (if key_type i = ST_U32 \<and> i \<in> (\<lambda>x. key_fromString (fst x)) ` set items then m_u32_items s i else m_u32_items t i)"
  "m_bool_items (fold (\<lambda>x t. copy_setting (key_fromString (fst x)) s t) items t) i =
     (if key_type i \<noteq> ST_U32 \<and> i \<in> (\<lambda>x. key_fromString (fst x)) ` set items then m_bool_items s i else m_bool_items t i)"
  by (induction items arbitrary: t) (auto simp: copy_setting_def)

definition settings_saved :: "'l settings \<Rightarrow> (KeyID \<rightharpoonup> u32) \<times> (KeyID \<rightharpoonup> bool)" where
  "settings_saved s = (m_u32_items s, m_bool_items s)"

lemma settings_read_back:
  fixes s t :: "'l settings"
  assumes "settings_typed s" "numbers_fit s" "settings_typed t" "map_of items = map_of (map (setting_item s) m_setting_names)"
    "distinct (map fst items)"
  shows "\<exists>t'. settings_onPersistenceRead items t = Inr t' \<and> settings_saved t' = settings_saved s"
proof -
  have fst: "fst \<circ> setting_item s = (\<lambda>n. n)" by (simp add: fun_eq_iff setting_item_def Let_def)
  then have "distinct (map fst (map (setting_item s) m_setting_names))" using names_distinct by simp
  with assms(4,5) have set: "set items = setting_item s ` set m_setting_names"
    using map_of_inject_set [of items "map (setting_item s) m_setting_names"] by simp
  let ?t = "fold (\<lambda>x t. copy_setting (key_fromString (fst x)) s t) items t"
  have keys: "(\<lambda>x. key_fromString (fst x)) ` set items = key_fromString ` set m_setting_names"
    unfolding set using fst by (force simp: image_iff fun_eq_iff)
  have "m_u32_items ?t i = m_u32_items s i" for i
  proof (cases "key_type i = ST_U32")
    case True
    then show ?thesis using keys_named [of i] by (simp add: copied keys)
  next
    case False
    then have "m_u32_items s i = None" "m_u32_items t i = None" using assms(1,3) unfolding settings_typed_def by blast+
    then show ?thesis by (simp add: copied)
  qed
  moreover have "m_bool_items ?t i = m_bool_items s i" for i
  proof (cases "key_type i = ST_BOOL")
    case True
    then show ?thesis using keys_named [of i] by (simp add: copied keys)
  next
    case False
    then have "m_bool_items s i = None" "m_bool_items t i = None" using assms(1,3) unfolding settings_typed_def by blast+
    then show ?thesis by (simp add: copied)
  qed
  ultimately have "settings_saved ?t = settings_saved s" by (simp add: settings_saved_def fun_eq_iff)
  moreover have "settings_onPersistenceRead items t = Inr ?t"
    unfolding settings_onPersistenceRead_def by (rule read_written_items [OF assms(1,2)]) (use set in auto)
  ultimately show ?thesis by blast
qed

interpretation settings_module: persistent_module settings_onPersistenceWrite settings_onPersistenceRead settings_saved
  "\<lambda>s. settings_typed s \<and> numbers_fit s" "\<lambda>s t. settings_typed t"
proof unfold_locales
  have fst: "map fst (map (setting_item s) m_setting_names) = m_setting_names" for s :: "'a settings"
    by (simp add: setting_item_def Let_def comp_def)
  then show "\<exists>items. settings_onPersistenceWrite s = Inr items \<and> items \<noteq> [] \<and> distinct (map fst items)" for s :: "'a settings"
    using names_distinct by (auto simp: settings_onPersistenceWrite_def m_setting_names_def)
qed (auto simp: settings_onPersistenceWrite_def intro: settings_read_back)

text \<open>A number that does not fit a signed 32-bit integer.\<close>

lemma read_any_item:
  assumes "settings_typed s" "name \<in> set m_setting_names"
  shows "read_setting (setting_item s name) t = Inr (copy_setting (key_fromString name) s t) \<or>
    read_setting (setting_item s name) t = Inl OutOfRange"
proof (cases "\<exists>v. m_u32_items s (key_fromString name) = Some v \<and> 2 ^ 31 \<le> unat v")
  case True
  then obtain v where v: "m_u32_items s (key_fromString name) = Some v" "stoi (to_string (unat v)) = Inl OutOfRange"
    using stoi_to_string_overflow by blast
  then have "getType (key_fromString name) s = ST_U32" by (simp add: getType_def)
  then show ?thesis
    using v split_written(1) [of "unat v"] by (simp add: setting_item_def at_key_def read_setting_def)
next
  case False
  let ?s = "s\<lparr>m_u32_items := (\<lambda>i. if i = key_fromString name \<or> m_u32_items s i = None then m_u32_items s i else Some 0)\<rparr>"
  have "settings_typed ?s" "numbers_fit ?s" using assms(1) False by (auto simp: settings_typed_def numbers_fit_def dom_def)
  then have "read_setting (setting_item ?s name) t = Inr (copy_setting (key_fromString name) ?s t)"
    using read_written_item assms(2) by blast
  moreover have "setting_item ?s name = setting_item s name" "copy_setting (key_fromString name) ?s t = copy_setting (key_fromString name) s t"
    by (simp_all add: setting_item_def getType_def at_key_def copy_setting_def Let_def split: option.split)
  ultimately show ?thesis by simp
qed

lemma read_large:
  fixes s t :: "'l settings"
  assumes "settings_typed s" "\<forall>x \<in> set items. \<exists>name \<in> set m_setting_names. x = setting_item s name"
    "setting_item s name \<in> set items" "m_u32_items s (key_fromString name) = Some v" "2 ^ 31 \<le> unat v"
  shows "foldE read_setting items t = Inl OutOfRange"
proof -
  have big: "read_setting (setting_item s name) t = Inl OutOfRange" for t
    using assms(4) stoi_to_string_overflow [OF assms(5)] split_written(1) [of "unat v"]
    by (simp add: setting_item_def getType_def at_key_def read_setting_def)
  show ?thesis
    using assms(2,3)
  proof (induction items arbitrary: t)
    case (Cons x items)
    then obtain n where n: "n \<in> set m_setting_names" "x = setting_item s n" by auto
    show ?case
    proof (cases "x = setting_item s name")
      case True
      then show ?thesis by (simp add: big)
    next
      case False
      then show ?thesis using Cons read_any_item [OF assms(1) n(1), of t] n(2) by auto
    qed
  qed simp
qed

section \<open>Properties\<close>

datatype setting_op =
    GetU32 KeyID
  | GetBool KeyID
  | SetU32 KeyID u32
  | SetBool KeyID bool

fun run_setting_op :: "setting_op \<Rightarrow> 'l settings \<Rightarrow> 'l settings res" where
  "run_setting_op (GetU32 i) s = mapE snd (getU32 i s)"
| "run_setting_op (GetBool i) s = mapE snd (getBool i s)"
| "run_setting_op (SetU32 i v) s = mapE snd (setU32 i v s)"
| "run_setting_op (SetBool i v) s = mapE snd (setBool i v s)"

fun op_typed :: "setting_op \<Rightarrow> bool" where
  "op_typed (GetU32 i) \<longleftrightarrow> key_type i = ST_U32"
| "op_typed (GetBool i) \<longleftrightarrow> key_type i = ST_BOOL"
| "op_typed (SetU32 i v) \<longleftrightarrow> key_type i = ST_U32"
| "op_typed (SetBool i v) \<longleftrightarrow> key_type i = ST_BOOL"

text \<open>What a number setting should be after the operations.\<close>

fun last_u32 :: "KeyID \<Rightarrow> setting_op list \<Rightarrow> u32 option \<Rightarrow> u32 option" where
  "last_u32 i [] old = old"
| "last_u32 i (SetU32 j v # ops) old = last_u32 i ops (if i = j then Some v else old)"
| "last_u32 i (_ # ops) old = last_u32 i ops old"

lemma typed_step:
  assumes "settings_typed s" "op_typed op"
  shows "\<exists>t. run_setting_op op s = Inr t \<and> settings_typed t \<and>
    (\<forall>i. m_u32_items t i = (case op of SetU32 j v \<Rightarrow> if i = j then Some v else m_u32_items s i | _ \<Rightarrow> m_u32_items s i))"
proof -
  have known: "key_type i = ST_U32 \<Longrightarrow> \<exists>v. m_u32_items s i = Some v" "key_type i = ST_BOOL \<Longrightarrow> \<exists>v. m_bool_items s i = Some v" for i
    using assms(1) unfolding settings_typed_def by blast+
  have not_max: "key_type i \<in> {ST_U32, ST_BOOL} \<Longrightarrow> i \<noteq> SETTING_GROUP_MAX" for i by auto
  show ?thesis
    using assms known not_max
    by (cases op)
      (fastforce simp: getU32_def getBool_def setU32_def setBool_def at_key_def settings_typed_def settings_notify_def split: option.split)+
qed

text \<open>
  C29. Settings keep their types: from the defaults, getting and setting each key with its own
  type never fails and leaves every key in the map of its declared type and in no other, and a
  number setting holds what was last set.
\<close>

theorem settings_stay_typed:
  "\<forall>op \<in> set ops. op_typed op \<Longrightarrow>
   \<exists>t. foldE run_setting_op ops settings_create = Inr t \<and> settings_typed t \<and>
     (\<forall>i. m_u32_items t i = last_u32 i ops (map_of default_u32s i))"
proof -
  have "\<exists>t. foldE run_setting_op ops s = Inr t \<and> settings_typed t \<and> (\<forall>i. m_u32_items t i = last_u32 i ops (m_u32_items s i))"
    if "\<forall>op \<in> set ops. op_typed op" "settings_typed s" for s :: "'a settings"
    using that
  proof (induction ops arbitrary: s)
    case (Cons op ops)
    obtain t where t: "run_setting_op op s = Inr t" "settings_typed t"
      "\<forall>i. m_u32_items t i = (case op of SetU32 j v \<Rightarrow> if i = j then Some v else m_u32_items s i | _ \<Rightarrow> m_u32_items s i)"
      using typed_step [OF Cons.prems(2), of op] Cons.prems(1) by auto
    from Cons.IH [OF _ t(2)] Cons.prems(1) t(1,3) show ?case by (cases op) auto
  qed simp
  then show "\<forall>op \<in> set ops. op_typed op \<Longrightarrow> ?thesis" using created_typed by (fastforce simp: settings_create_def)
qed

theorem settings_stay_typed_witness:
  "\<exists>t. foldE run_setting_op [SetU32 GUI_UserButtons_Tabs 4, GetBool Logger_supportFileLogging, SetU32 GUI_UserButtons_Tabs 6]
       (settings_create :: nat settings) = Inr t \<and> m_u32_items t GUI_UserButtons_Tabs = Some 6"
proof -
  let ?ops = "[SetU32 GUI_UserButtons_Tabs 4, GetBool Logger_supportFileLogging, SetU32 GUI_UserButtons_Tabs 6]"
  have "\<forall>op \<in> set ?ops. op_typed op" by (simp add: key_type_def default_u32s_def default_bools_def)
  from settings_stay_typed [OF this] show ?thesis by fastforce
qed

text \<open>
  Settings survive a restart, whatever file they were changed from, as long as every number
  fits a signed 32-bit integer.
\<close>

theorem settings_survive:
  "\<lbrakk>settings_typed (s :: 'l settings); numbers_fit s; settings_typed (t :: 'l settings);
    \<And>doc. collect_settings [module_listener ''SETTINGS'' settings_onPersistenceWrite settings_onPersistenceRead] s = Inr doc \<Longrightarrow>
      parse (dump doc) = Inr doc\<rbrakk> \<Longrightarrow>
   \<exists>files' doc t'.
     persistence_save dump True path [module_listener ''SETTINGS'' settings_onPersistenceWrite settings_onPersistenceRead] s files = (Inr True, files') \<and>
     persistence_loadFile parse path files' JNull = Inr (True, doc) \<and>
     persistence_restore [module_listener ''SETTINGS'' settings_onPersistenceWrite settings_onPersistenceRead] (doc, t) = Inr (doc, t') \<and>
     settings_saved t' = settings_saved s"
  by (rule settings_module.save_load_restore) simp_all

theorem settings_survive_witness:
  "\<exists>doc t'. persistence_restore [module_listener ''SETTINGS'' settings_onPersistenceWrite settings_onPersistenceRead]
       (doc, settings_create) = Inr (doc, t' :: nat settings) \<and>
     settings_saved t' = settings_saved (settings_create\<lparr>m_u32_items := (map_of default_u32s)(GUI_UserButtons_Tabs \<mapsto> 6)\<rparr> :: nat settings)"
proof -
  let ?s = "settings_create\<lparr>m_u32_items := (map_of default_u32s)(GUI_UserButtons_Tabs \<mapsto> 6)\<rparr> :: nat settings"
  let ?l = "module_listener ''SETTINGS'' settings_onPersistenceWrite settings_onPersistenceRead :: nat settings persistence_listener"
  have d: "dom (m_u32_items (settings_create :: nat settings)) = {i. key_type i = ST_U32}"
    "dom (m_bool_items (settings_create :: nat settings)) = {i. key_type i = ST_BOOL}"
    using created_typed [where 'a = nat] by (simp_all add: settings_typed_def)
  have "key_type GUI_UserButtons_Tabs = ST_U32" by (simp add: key_type_def default_u32s_def)
  then have typed: "settings_typed ?s" using d by (auto simp: settings_typed_def settings_create_def)
  have fit: "numbers_fit ?s" by (auto simp: numbers_fit_def default_u32s_def settings_create_def split: if_splits)
  define d where "d = (case collect_settings [?l] ?s of Inr d \<Rightarrow> d | Inl e \<Rightarrow> JNull)"
  have same: "Inr d = (Inr doc :: json res)" if "collect_settings [?l] ?s = Inr doc" for doc
    using that by (simp add: d_def)
  have "\<exists>files' doc t'. persistence_save (\<lambda>j. []) True ''f'' [?l] ?s Map.empty = (Inr True, files') \<and>
      persistence_loadFile (\<lambda>x. Inr d) ''f'' files' JNull = Inr (True, doc) \<and>
      persistence_restore [?l] (doc, settings_create) = Inr (doc, t') \<and> settings_saved t' = settings_saved ?s"
    by (rule settings_survive [OF typed fit created_typed]) (rule same)
  then show ?thesis by blast
qed

text \<open>
  A number of 2147483648 or more can be set and is saved, but it is read back with
  \<open>std::stoi\<close>: the restore of the settings throws, whatever the state is, and the program
  cannot start any more until its settings file is removed.
\<close>

theorem large_setting_blocks_start:
  "\<lbrakk>settings_typed s; key_type i = ST_U32; 2 ^ 31 \<le> unat v; setU32 i v s = Inr (changed, s' :: 'l settings)\<rbrakk> \<Longrightarrow>
   \<exists>doc. collect_settings [module_listener ''SETTINGS'' settings_onPersistenceWrite settings_onPersistenceRead] s' = Inr doc \<and>
     restoreModule (module_listener ''SETTINGS'' settings_onPersistenceWrite settings_onPersistenceRead) (doc, t :: 'l settings) = Inl OutOfRange"
proof -
  assume a: "settings_typed s" "key_type i = ST_U32" "2 ^ 31 \<le> unat v" "setU32 i v s = Inr (changed, s')"
  let ?l = "module_listener ''SETTINGS'' settings_onPersistenceWrite settings_onPersistenceRead :: 'l settings persistence_listener"
  let ?items = "map (setting_item s') m_setting_names"
  have s': "settings_typed s'" "m_u32_items s' i = Some v"
    using typed_step [OF a(1), of "SetU32 i v"] a(2,4) by auto
  have w: "onPersistenceWrite ?l s' = Inr ?items" by (simp add: module_listener_def settings_onPersistenceWrite_def)
  have keys: "map fst ?items = m_setting_names" by (simp add: setting_item_def Let_def comp_def)
  then have d: "distinct (map fst ?items)" using names_distinct by simp
  have one: "distinct (map getName [?l])" by simp
  have ok: "\<forall>l \<in> set [?l]. writes_ok l s'" using writes_okI(1) [OF w] by simp
  obtain doc where doc: "collect_settings [?l] s' = Inr doc" "represents doc (doc_of [?l] s')"
    using collect_settings_doc [OF one ok] by blast
  have stored: "doc_of [?l] s' (getName ?l) = Some (module_json ?items)"
    unfolding writes_okI(2) [OF w, symmetric] by (rule doc_of_in [OF one]) simp
  have "?items \<noteq> []" by (simp add: m_setting_names_def)
  then have r: "restoreModule ?l (doc, t) = mapE (\<lambda>t'. (doc, t')) (onPersistenceRead ?l (stored ?items) t)"
    by (rule restoreModule_saved [OF doc(2) stored])
  have set: "set (stored ?items) = set ?items"
    using map_of_inject_set [OF stored_distinct d] map_of_stored [OF d] by simp
  obtain name where n: "name \<in> set m_setting_names" "i = key_fromString name" using keys_named [of i] a(2) by auto
  have "foldE read_setting (stored ?items) t = Inl OutOfRange"
    using read_large [OF s'(1), of "stored ?items" name v t] set n s'(2) a(3) by auto
  then show ?thesis using doc(1) r by (simp add: module_listener_def settings_onPersistenceRead_def)
qed

theorem large_setting_blocks_start_witness:
  "\<exists>s' doc. setU32 MainApplication_maxTerminalTraces 3000000000 settings_create = Inr (True, s' :: nat settings) \<and>
     collect_settings [module_listener ''SETTINGS'' settings_onPersistenceWrite settings_onPersistenceRead] s' = Inr doc \<and>
     restoreModule (module_listener ''SETTINGS'' settings_onPersistenceWrite settings_onPersistenceRead) (doc, settings_create :: nat settings) = Inl OutOfRange"
proof -
  have k: "key_type MainApplication_maxTerminalTraces = ST_U32" by (simp add: key_type_def default_u32s_def)
  obtain s' where s': "setU32 MainApplication_maxTerminalTraces 3000000000 settings_create = Inr (True, s' :: nat settings)"
    by (simp add: setU32_def settings_create_def at_key_def default_u32s_def)
  show ?thesis using large_setting_blocks_start [OF created_typed k _ s', of settings_create] s' by force
qed

end
