(* ===== verification/LoggerEngine.thy ===== *)
theory LoggerEngine
  imports SettingsHandler
begin

text \<open>
  \<open>sw/Logger/source/LoggerEngine.cpp\<close>, \<open>sw/Logger/public/Logger.h\<close> and the writers: the levels
  of the groups, the buffer a line is formatted in, the writers it goes to, and the levels'
  persistence. \<open>printf\<close>'s formatting of a message is the caller's argument: the text it makes.
\<close>

section \<open>Groups, levels, writers\<close>

datatype LoggerLevelID = LL_ASSERT | LL_ALWAYS | LL_ERROR | LL_INFO | LL_LOW | LL_MEDIUM | LL_HIGH | LOGGER_LEVEL_MAX

definition all_levels :: "LoggerLevelID list" where
  "all_levels = [LL_ASSERT, LL_ALWAYS, LL_ERROR, LL_INFO, LL_LOW, LL_MEDIUM, LL_HIGH]"

definition m_level_names :: "string list" where
  "m_level_names = [''ASSERT'', ''ALWAYS'', ''ERROR'', ''INFO'', ''LOW'', ''MEDIUM'', ''HIGH'']"

definition level_num :: "LoggerLevelID \<Rightarrow> nat" where
  "level_num l = find_pos (\<lambda>k. k = l) all_levels"

text \<open>The enumerators of a C++ enumeration are compared by their numbers.\<close>

lemma level_num_inj: "level_num l = level_num k \<longleftrightarrow> l = k"
  by (cases l; cases k) (simp_all add: level_num_def all_levels_def)

instantiation LoggerLevelID :: linorder
begin

definition less_eq_LoggerLevelID :: "LoggerLevelID \<Rightarrow> LoggerLevelID \<Rightarrow> bool" where
  "l \<le> k \<longleftrightarrow> level_num l \<le> level_num k"

definition less_LoggerLevelID :: "LoggerLevelID \<Rightarrow> LoggerLevelID \<Rightarrow> bool" where
  "l < k \<longleftrightarrow> level_num l < level_num k"

instance
  by intro_classes (auto simp: less_eq_LoggerLevelID_def less_LoggerLevelID_def level_num_inj)

end

text \<open>A group is its number; \<open>LOGGER_GROUP_MAX\<close> is the number of groups.\<close>

definition m_group_names :: "string list" where
  "m_group_names =
     [''MAIN'', ''GUI_CONTROLLER'', ''SETTINGS'', ''SOCK_DRV'', ''UTILITIES'', ''PROCESS_DRV'', ''SERIAL_DRV'', ''GUI_DIALOG'',
      ''TRACE_FILTER'', ''PORT_HANDLER'', ''USER_BTN_HANDLER'', ''PERSISTENCE'', ''RPC_SERVER'', ''RPC_CLIENT'', ''TEST_FRAMEWORK'',
      ''TEST_SERVER'']"

definition LOGGER_GROUP_MAX :: nat where
  "LOGGER_GROUP_MAX = 16"

definition LOGGER_BUFFER_SIZE :: nat where
  "LOGGER_BUFFER_SIZE = 4096"

datatype LoggerWriterID = STDOUT_WRITER | SOCKET_WRITER | FILE_WRITER | ALL_WRITERS

text \<open>A writer with what was written to it; a file writer writes only while its stream is good.\<close>

record frontend =
  fe_type :: LoggerWriterID
  fe_path :: string
  fe_limit :: u32
  fe_port :: u16
  fe_open :: bool
  fe_output :: "string list"

record logger =
  m_group_levels :: "LoggerLevelID list"
  m_frontends :: "frontend list"
  lg_files :: "string \<rightharpoonup> string"

definition new_logger :: "bool \<Rightarrow> (string \<rightharpoonup> string) \<Rightarrow> logger" where
  "new_logger debug files =
     \<lparr>m_group_levels = replicate LOGGER_GROUP_MAX (if debug then LL_HIGH else LL_ERROR), m_frontends = [], lg_files = files\<rparr>"

section \<open>Names\<close>

definition getGroupName :: "nat \<Rightarrow> string res" where
  "getGroupName i = (if i < LOGGER_GROUP_MAX then Inr (m_group_names ! i) else Inl AssertionFailed)"

definition getLevelName :: "LoggerLevelID \<Rightarrow> string res" where
  "getLevelName l = (if l \<noteq> LOGGER_LEVEL_MAX then Inr (m_level_names ! level_num l) else Inl AssertionFailed)"

definition groupFromString :: "string \<Rightarrow> nat" where
  "groupFromString name = find_pos (\<lambda>n. n = name) m_group_names"

definition levelFromString :: "string \<Rightarrow> LoggerLevelID" where
  "levelFromString name =
     (let i = find_pos (\<lambda>n. n = name) m_level_names in if i < length m_level_names then all_levels ! i else LOGGER_LEVEL_MAX)"


definition setLevel :: "nat \<Rightarrow> LoggerLevelID \<Rightarrow> logger \<Rightarrow> logger res" where
  "setLevel i l g =
     (if i < length (m_group_levels g) then Inr (g\<lparr>m_group_levels := (m_group_levels g)[i := l]\<rparr>) else Inl OutOfBounds)"

definition getLevel :: "nat \<Rightarrow> logger \<Rightarrow> LoggerLevelID res" where
  "getLevel i g = (if i < length (m_group_levels g) then Inr (m_group_levels g ! i) else Inl OutOfBounds)"

section \<open>Writing\<close>

definition log_heading :: "nat \<times> nat \<times> nat \<times> nat \<Rightarrow> LoggerLevelID \<Rightarrow> nat \<Rightarrow> string \<Rightarrow> nat \<Rightarrow> string" where
  "log_heading = (\<lambda>(h, m, s, ms) l i filename line.
     ''['' @ zero_pad 2 h @ '':'' @ zero_pad 2 m @ '':'' @ zero_pad 2 s @ ''.'' @ zero_pad 3 ms @ '']-'' @ m_level_names ! level_num l @ ''-'' @
     m_group_names ! i @ ''-'' @ filename @ '':'' @ to_string line @ '': '')"

definition isLevelAllowed :: "nat \<Rightarrow> LoggerLevelID \<Rightarrow> logger \<Rightarrow> bool" where
  "isLevelAllowed i l g \<longleftrightarrow> l \<le> m_group_levels g ! i"






text \<open>\<open>assertion\<close> ends the program; the group of its heading is \<open>ASSERT\<close>, the number 0.\<close>

definition assertion_line :: "nat \<times> nat \<times> nat \<times> nat \<Rightarrow> string \<Rightarrow> nat \<Rightarrow> string \<Rightarrow> string res" where
  "assertion_line now filename line cond =
     (let heading = log_heading now LL_ASSERT 0 filename line; msg = ''Assertion failed('' @ cond @ '')!''
      in if length heading + length msg + 2 \<le> LOGGER_BUFFER_SIZE then Inr (heading @ msg @ [CHR 0x0A]) else Inl OutOfBounds)"

section \<open>Writers\<close>









definition stopFrontends :: "logger \<Rightarrow> logger" where
  "stopFrontends g = g\<lparr>m_frontends := []\<rparr>"

section \<open>Persistence\<close>

definition write_level :: "logger \<Rightarrow> nat \<Rightarrow> items \<Rightarrow> items res" where
  "write_level g i items = mapE (writeItem_str items (m_group_names ! i)) (getLevelName (m_group_levels g ! i))"

definition logger_onPersistenceWrite :: "logger \<Rightarrow> items res" where
  "logger_onPersistenceWrite g = foldE (write_level g) [0..<length m_group_names] []"

definition read_level :: "string \<times> string \<Rightarrow> logger \<Rightarrow> logger res" where
  "read_level x g = setLevel (groupFromString (fst x)) (levelFromString (snd x)) g"

definition logger_onPersistenceRead :: "items \<Rightarrow> logger \<Rightarrow> logger res" where
  "logger_onPersistenceRead items g = foldE read_level items g"

section \<open>Levels survive a restart\<close>

definition levels_ok :: "logger \<Rightarrow> bool" where
  "levels_ok g \<longleftrightarrow> length (m_group_levels g) = LOGGER_GROUP_MAX \<and> LOGGER_LEVEL_MAX \<notin> set (m_group_levels g)"

definition level_item :: "logger \<Rightarrow> nat \<Rightarrow> string \<times> string" where
  "level_item g i = (m_group_names ! i, m_level_names ! level_num (m_group_levels g ! i))"

lemma group_names: "length m_group_names = LOGGER_GROUP_MAX" "distinct m_group_names"
  by (simp_all add: m_group_names_def LOGGER_GROUP_MAX_def)

lemma group_name_roundtrip: "i < LOGGER_GROUP_MAX \<Longrightarrow> groupFromString (m_group_names ! i) = i"
  unfolding groupFromString_def by (rule find_pos_first_nth) (simp_all add: group_names)

lemma level_name_roundtrip:
  "l \<noteq> LOGGER_LEVEL_MAX \<Longrightarrow> getLevelName l = Inr (m_level_names ! level_num l) \<and> levelFromString (m_level_names ! level_num l) = l"
  by (cases l) (simp_all add: getLevelName_def level_num_def all_levels_def m_level_names_def levelFromString_def)

lemma level_at: "levels_ok g \<Longrightarrow> i < LOGGER_GROUP_MAX \<Longrightarrow> m_group_levels g ! i \<noteq> LOGGER_LEVEL_MAX"
  by (metis levels_ok_def nth_mem)

lemma writes_levels:
  assumes "levels_ok g"
  shows "logger_onPersistenceWrite g = Inr (map (level_item g) [0..<LOGGER_GROUP_MAX])"
proof -
  have "foldE (write_level g) is items = Inr (items @ map (level_item g) is)" if "\<forall>i \<in> set is. i < LOGGER_GROUP_MAX" for "is" items
    using that
    by (induction "is" arbitrary: items)
      (simp_all add: write_level_def writeItem_str_def level_item_def level_name_roundtrip [OF level_at [OF assms], THEN conjunct1])
  then show ?thesis by (simp add: logger_onPersistenceWrite_def group_names)
qed

lemma read_level_item:
  "levels_ok s \<Longrightarrow> length (m_group_levels t) = LOGGER_GROUP_MAX \<Longrightarrow> i < LOGGER_GROUP_MAX \<Longrightarrow>
   read_level (level_item s i) t = Inr (t\<lparr>m_group_levels := (m_group_levels t)[i := m_group_levels s ! i]\<rparr>)"
  by (simp add: read_level_def level_item_def group_name_roundtrip setLevel_def level_name_roundtrip [OF level_at, THEN conjunct2])

lemma read_level_items:
  assumes "levels_ok s" "length (m_group_levels t) = LOGGER_GROUP_MAX" "\<forall>x \<in> set items. \<exists>i < LOGGER_GROUP_MAX. x = level_item s i"
  shows "\<exists>t'. foldE read_level items t = Inr t' \<and> length (m_group_levels t') = LOGGER_GROUP_MAX \<and>
    (\<forall>i < LOGGER_GROUP_MAX. m_group_levels t' ! i = (if level_item s i \<in> set items then m_group_levels s ! i else m_group_levels t ! i))"
  using assms(2,3)
proof (induction items arbitrary: t)
  case (Cons x items)
  obtain k where k: "k < LOGGER_GROUP_MAX" "x = level_item s k" using Cons.prems(2) by auto
  let ?t = "t\<lparr>m_group_levels := (m_group_levels t)[k := m_group_levels s ! k]\<rparr>"
  obtain t' where t': "foldE read_level items ?t = Inr t'" "length (m_group_levels t') = LOGGER_GROUP_MAX"
    "\<forall>i < LOGGER_GROUP_MAX. m_group_levels t' ! i = (if level_item s i \<in> set items then m_group_levels s ! i else m_group_levels ?t ! i)"
    using Cons.IH [of ?t] Cons.prems by auto
  have same: "level_item s i = level_item s k \<Longrightarrow> i < LOGGER_GROUP_MAX \<Longrightarrow> i = k" for i
    using group_name_roundtrip k(1) by (metis level_item_def prod.inject)
  have "foldE read_level (x # items) t = Inr t'"
    using t'(1) read_level_item [OF assms(1) Cons.prems(1) k(1)] k(2) by simp
  moreover have "m_group_levels t' ! i = (if level_item s i \<in> set (x # items) then m_group_levels s ! i else m_group_levels t ! i)"
    if "i < LOGGER_GROUP_MAX" for i
    using t'(3) that same [of i] k Cons.prems(1) by (cases "i = k") auto
  ultimately show ?case using t'(2) by blast
qed simp

interpretation logger_module: persistent_module logger_onPersistenceWrite logger_onPersistenceRead m_group_levels levels_ok
  "\<lambda>s t. length (m_group_levels t) = LOGGER_GROUP_MAX"
proof unfold_locales
  have keys: "map fst (map (level_item g) [0..<LOGGER_GROUP_MAX]) = m_group_names" for g
    using map_nth [of m_group_names] by (simp add: level_item_def comp_def group_names)
  show "\<exists>items. logger_onPersistenceWrite g = Inr items \<and> items \<noteq> [] \<and> distinct (map fst items)" if "levels_ok g" for g
  proof -
    have "map (level_item g) [0..<LOGGER_GROUP_MAX] \<noteq> []" by (simp add: LOGGER_GROUP_MAX_def)
    moreover have "distinct (map fst (map (level_item g) [0..<LOGGER_GROUP_MAX]))" unfolding keys by (rule group_names)
    ultimately show ?thesis using writes_levels [OF that] by blast
  qed
  show "\<exists>t'. logger_onPersistenceRead items' t = Inr t' \<and> m_group_levels t' = m_group_levels s"
    if "levels_ok s" "length (m_group_levels t) = LOGGER_GROUP_MAX" "logger_onPersistenceWrite s = Inr items" "map_of items' = map_of items"
      "distinct (map fst items')" for s t items items'
  proof -
    note read = read_level_items [OF that(1,2)]
    have items: "items = map (level_item s) [0..<LOGGER_GROUP_MAX]" using that(3) writes_levels [OF that(1)] by simp
    have "distinct (map fst items)" unfolding items keys by (rule group_names)
    then have set: "set items' = set items" using map_of_inject_set that(4,5) by blast
    then have "\<forall>x \<in> set items'. \<exists>i < LOGGER_GROUP_MAX. x = level_item s i" unfolding items by auto
    then obtain t' where t': "foldE read_level items' t = Inr t'" "length (m_group_levels t') = LOGGER_GROUP_MAX"
      "\<forall>i < LOGGER_GROUP_MAX. m_group_levels t' ! i = (if level_item s i \<in> set items' then m_group_levels s ! i else m_group_levels t ! i)"
      using read by blast
    have "m_group_levels t' = m_group_levels s"
      using t'(2,3) that(1) set items by (intro nth_equalityI) (auto simp: levels_ok_def)
    then show ?thesis using t'(1) by (simp add: logger_onPersistenceRead_def)
  qed
qed

section \<open>The log file\<close>













section \<open>Properties\<close>




text \<open>
  The levels of all groups survive a restart.
\<close>

theorem logger_levels_survive:
  "\<lbrakk>levels_ok s; length (m_group_levels t) = LOGGER_GROUP_MAX;
    \<And>doc. collect_settings [module_listener ''LOGGERENGINE'' logger_onPersistenceWrite logger_onPersistenceRead] s = Inr doc \<Longrightarrow>
      parse (dump doc) = Inr doc\<rbrakk> \<Longrightarrow>
   \<exists>files' doc t'.
     persistence_save dump True path [module_listener ''LOGGERENGINE'' logger_onPersistenceWrite logger_onPersistenceRead] s files = (Inr True, files') \<and>
     persistence_loadFile parse path files' JNull = Inr (True, doc) \<and>
     persistence_restore [module_listener ''LOGGERENGINE'' logger_onPersistenceWrite logger_onPersistenceRead] (doc, t) = Inr (doc, t') \<and>
     m_group_levels t' = m_group_levels s"
  by (rule logger_module.save_load_restore) simp_all

theorem logger_levels_survive_witness:
  "\<exists>files' doc t'.
     persistence_save (\<lambda>j. ''doc'') True ''f'' [module_listener ''LOGGERENGINE'' logger_onPersistenceWrite logger_onPersistenceRead]
       (new_logger True Map.empty) Map.empty = (Inr True, files') \<and>
     persistence_loadFile (\<lambda>t. collect_settings [module_listener ''LOGGERENGINE'' logger_onPersistenceWrite logger_onPersistenceRead]
       (new_logger True Map.empty)) ''f'' files' JNull = Inr (True, doc) \<and>
     persistence_restore [module_listener ''LOGGERENGINE'' logger_onPersistenceWrite logger_onPersistenceRead]
       (doc, new_logger False Map.empty) = Inr (doc, t') \<and>
     m_group_levels t' = replicate LOGGER_GROUP_MAX LL_HIGH"
proof -
  have "levels_ok (new_logger True Map.empty)" "length (m_group_levels (new_logger False Map.empty)) = LOGGER_GROUP_MAX"
    "m_group_levels (new_logger True Map.empty) = replicate LOGGER_GROUP_MAX LL_HIGH"
    by (simp_all add: levels_ok_def new_logger_def)
  then show ?thesis
    using logger_levels_survive [of "new_logger True Map.empty" "new_logger False Map.empty"
        "\<lambda>t. collect_settings [module_listener ''LOGGERENGINE'' logger_onPersistenceWrite logger_onPersistenceRead] (new_logger True Map.empty)"
        "\<lambda>j. ''doc''" "''f''" Map.empty]
    by simp
qed

text \<open>
  A level the program does not know, in the settings file, is not refused: it becomes
  \<open>LOGGER_LEVEL_MAX\<close>, which allows every message, and when the settings are next saved its name
  is asked for, an assertion fails, and the settings file is left empty. A group it does not know
  makes it write behind the array of levels.
\<close>

theorem unknown_level_empties_settings:
  "\<lbrakk>length (m_group_levels g) = LOGGER_GROUP_MAX; i < LOGGER_GROUP_MAX; levelFromString v = LOGGER_LEVEL_MAX;
    logger_onPersistenceRead [(m_group_names ! i, v)] g = Inr h\<rbrakk> \<Longrightarrow>
   isLevelAllowed i l h \<and>
   persistence_save dump True path [module_listener ''LOGGERENGINE'' logger_onPersistenceWrite logger_onPersistenceRead] h files = (Inl AssertionFailed, files(path \<mapsto> [])) \<and>
   (n \<notin> set m_group_names \<longrightarrow> logger_onPersistenceRead [(n, v)] g = Inl OutOfBounds)"
proof -
  assume a: "length (m_group_levels g) = LOGGER_GROUP_MAX" "i < LOGGER_GROUP_MAX" "levelFromString v = LOGGER_LEVEL_MAX"
    "logger_onPersistenceRead [(m_group_names ! i, v)] g = Inr h"
  have h: "h = g\<lparr>m_group_levels := (m_group_levels g)[i := LOGGER_LEVEL_MAX]\<rparr>"
    using a by (simp add: logger_onPersistenceRead_def read_level_def group_name_roundtrip setLevel_def)
  have allowed: "isLevelAllowed i l h"
    using find_pos_le [of "\<lambda>k. k = l" all_levels] a(1,2)
    by (simp add: isLevelAllowed_def h less_eq_LoggerLevelID_def level_num_def all_levels_def del: find_pos_le)
  have steps: "\<exists>e. write_level h j items = Inl AssertionFailed \<or> write_level h j items = Inr e" for j items
    by (cases "getLevelName (m_group_levels h ! j)") (auto simp: write_level_def getLevelName_def split: if_splits)
  have stop: "write_level h i items = Inl AssertionFailed" for items
    using a(1,2) by (simp add: write_level_def h getLevelName_def)
  have "foldE (write_level h) is items = Inl AssertionFailed" if "i \<in> set is" for "is" items
    using that
  proof (induction "is" arbitrary: items)
    case (Cons j js)
    then show ?case using steps [of j items] stop [of items] by (cases "j = i") auto
  qed simp
  then have "logger_onPersistenceWrite h = Inl AssertionFailed"
    using a(2) by (simp add: logger_onPersistenceWrite_def group_names)
  then have "persistence_save dump True path [module_listener ''LOGGERENGINE'' logger_onPersistenceWrite logger_onPersistenceRead] h files = (Inl AssertionFailed, files(path \<mapsto> []))"
    by (simp add: persistence_save_def collect_settings_def save_module_def module_listener_def)
  moreover have "n \<notin> set m_group_names \<Longrightarrow> groupFromString n = LOGGER_GROUP_MAX"
    using find_pos_eq_length_iff [of "\<lambda>k. k = n" m_group_names] group_names(1) by (auto simp: groupFromString_def)
  ultimately show ?thesis using allowed a(1) by (auto simp: logger_onPersistenceRead_def read_level_def setLevel_def)
qed

theorem unknown_level_empties_settings_witness:
  "\<exists>h. logger_onPersistenceRead [(''MAIN'', ''DEBUG'')] (new_logger False Map.empty) = Inr h \<and>
     persistence_save (\<lambda>j. ''doc'') True ''f'' [module_listener ''LOGGERENGINE'' logger_onPersistenceWrite logger_onPersistenceRead] h Map.empty =
       (Inl AssertionFailed, [''f'' \<mapsto> []])"
proof -
  have i: "length (m_group_levels (new_logger False Map.empty)) = LOGGER_GROUP_MAX" "(0 :: nat) < LOGGER_GROUP_MAX"
    "m_group_names ! 0 = ''MAIN''" "levelFromString ''DEBUG'' = LOGGER_LEVEL_MAX"
    by (simp_all add: new_logger_def LOGGER_GROUP_MAX_def m_group_names_def levelFromString_def m_level_names_def)
  obtain h where h: "logger_onPersistenceRead [(m_group_names ! 0, ''DEBUG'')] (new_logger False Map.empty) = Inr h"
    using i(1,2) by (simp add: logger_onPersistenceRead_def read_level_def group_name_roundtrip setLevel_def)
  from unknown_level_empties_settings [OF i(1,2,4) h] h i(3) show ?thesis by auto
qed

end
