(* ===== verification/ProgramPersistence.thy ===== *)
theory ProgramPersistence
  imports AppPersistence SettingsHandler LoggerEngine
begin

text \<open>
  The settings of the whole program: the application, the settings handler, the logger and every
  port, tab, button and filter save to one document and are restored from it. Each module keeps
  its own contract; their sum keeps it too, so the law of a family of modules applies.
\<close>

section \<open>A module of the program\<close>

datatype 'l module_state =
    AppModule main_app
  | SettingsModule "'l settings"
  | LoggerModule logger
  | PortModule port
  | TabModule buttons_tab
  | ButtonModule user_button
  | FilterModule trace_filter

fun module_write :: "app_env \<Rightarrow> 'l module_state \<Rightarrow> items res" where
  "module_write env (AppModule a) = app_onPersistenceWrite env a"
| "module_write env (SettingsModule s) = settings_onPersistenceWrite s"
| "module_write env (LoggerModule g) = logger_onPersistenceWrite g"
| "module_write env (PortModule p) = port_onPersistenceWrite p"
| "module_write env (TabModule t) = tab_onPersistenceWrite t"
| "module_write env (ButtonModule b) = button_onPersistenceWrite b"
| "module_write env (FilterModule f) = filter_onPersistenceWrite f"

fun module_read :: "app_env \<Rightarrow> (string \<Rightarrow> bool) \<Rightarrow> items \<Rightarrow> 'l module_state \<Rightarrow> 'l module_state res" where
  "module_read env valid items (AppModule a) = mapE AppModule (app_onPersistenceRead env items a)"
| "module_read env valid items (SettingsModule s) = mapE SettingsModule (settings_onPersistenceRead items s)"
| "module_read env valid items (LoggerModule g) = mapE LoggerModule (logger_onPersistenceRead items g)"
| "module_read env valid items (PortModule p) = mapE PortModule (port_onPersistenceRead items p)"
| "module_read env valid items (TabModule t) = mapE TabModule (tab_onPersistenceRead items t)"
| "module_read env valid items (ButtonModule b) = mapE ButtonModule (button_onPersistenceRead items b)"
| "module_read env valid items (FilterModule f) = mapE FilterModule (filter_onPersistenceRead valid (app_colours env) items f)"

text \<open>What of a module's state is saved.\<close>

datatype module_saved =
    AppSaved "(u8 \<Rightarrow> string list) \<times> string \<times> int"
  | SettingsSaved "(KeyID \<rightharpoonup> u32) \<times> (KeyID \<rightharpoonup> bool)"
  | LoggerSaved "LoggerLevelID list"
  | PortSaved port_settings
  | TabSaved string
  | ButtonSaved "string \<times> string \<times> command list"
  | FilterSaved "bool \<times> string \<times> u32 \<times> u32 \<times> bool \<times> u8"

fun saved_part :: "'l module_state \<Rightarrow> module_saved" where
  "saved_part (AppModule a) = AppSaved (app_saved a)"
| "saved_part (SettingsModule s) = SettingsSaved (settings_saved s)"
| "saved_part (LoggerModule g) = LoggerSaved (m_group_levels g)"
| "saved_part (PortModule p) = PortSaved (default_name (m_settings p))"
| "saved_part (TabModule t) = TabSaved (tab_name t)"
| "saved_part (ButtonModule b) = ButtonSaved (button_saved b)"
| "saved_part (FilterModule f) = FilterSaved (filter_saved f)"





section \<open>The names of the modules\<close>














section \<open>Properties\<close>



definition example_button :: "string \<Rightarrow> string \<Rightarrow> user_button" where
  "example_button name commands =
     button_handleNewSettings \<lparr>button_id = 0, button_name = name, raw_commands = commands\<rparr>
       \<lparr>ub_id = 4, ub_settings = \<lparr>button_id = 0, button_name = [], raw_commands = []\<rparr>, ub_executor = executor_init, ub_calls = []\<rparr>"



lemma example_button_facts: "in_step (example_button n c)" "\<not> isExecution (ub_executor (example_button n c))"
  using handle_in_step [of "\<lparr>ub_id = 4, ub_settings = \<lparr>button_id = 0, button_name = [], raw_commands = []\<rparr>, ub_executor = executor_init, ub_calls = []\<rparr>"
      "\<lparr>button_id = 0, button_name = n, raw_commands = c\<rparr>"]
  by (simp_all add: example_button_def executor_init_def isExecution_def)
    (simp add: button_handleNewSettings_def executor_parseCommands_def isExecution_def button_setButtonName_def button_call_def Let_def
      split: prod.split)



lemma button_name_wraps: "button_module_name (word_of_nat (k + 256)) = button_module_name (word_of_nat k)"
proof -
  have "(word_of_nat (k + 256) :: u8) = word_of_nat k" by (simp add: word_unat_eq_iff unat_of_nat take_bit_eq_mod del: of_nat_add)
  then show ?thesis by (simp only:)
qed

text \<open>
  With more than 256 buttons two of them get the same name, and both are restored with the
  settings of the later one.
\<close>

theorem buttons_with_one_name:
  "\<lbrakk>names = [button_module_name (word_of_nat k), button_module_name (word_of_nat (k + 256))]; in_step c;
    \<not> isExecution (ub_executor b'); \<not> isExecution (ub_executor c')\<rbrakk> \<Longrightarrow>
   \<exists>doc ks. collect_settings (family (module_write env) (module_read env valid) names) [ButtonModule b, ButtonModule c :: 'l module_state] = Inr doc \<and>
     persistence_restore (family (module_write env) (module_read env valid) names) (doc, [ButtonModule b', ButtonModule c' :: 'l module_state]) = Inr (doc, ks) \<and>
     map saved_part ks = [saved_part (ButtonModule c :: 'l module_state), saved_part (ButtonModule c :: 'l module_state)]"
proof -
  assume a: "names = [button_module_name (word_of_nat k), button_module_name (word_of_nat (k + 256))]" "in_step c"
    "\<not> isExecution (ub_executor b')" "\<not> isExecution (ub_executor c')"
  define n where "n = button_module_name (word_of_nat k)"
  have names: "names = [n, n]" unfolding a(1) button_name_wraps n_def ..
  let ?s = "ub_settings c"
  let ?doc = "JObject [(n, JObject [(''ButtonCommands'', JString (raw_commands ?s)), (''ButtonName'', JString (button_name ?s))])]"
  have doc: "collect_settings (family (module_write env) (module_read env valid) names) [ButtonModule b, ButtonModule c :: 'l module_state] = Inr ?doc"
    by (simp add: collect_settings_def family_def names indexed_listener_def save_module_def button_onPersistenceWrite_def writeItem_str_def)
  have r: "\<exists>d'. button_onPersistenceRead [(''ButtonCommands'', raw_commands ?s), (''ButtonName'', button_name ?s)] d = Inr d' \<and>
      button_saved d' = button_saved c" if "\<not> isExecution (ub_executor d)" for d
    using handle_in_step [OF that] a(2) by (simp add: button_onPersistenceRead_def Let_def button_saved_def in_step_def)
  obtain b1 c1 where "button_onPersistenceRead [(''ButtonCommands'', raw_commands ?s), (''ButtonName'', button_name ?s)] b' = Inr b1"
    "button_onPersistenceRead [(''ButtonCommands'', raw_commands ?s), (''ButtonName'', button_name ?s)] c' = Inr c1"
    "button_saved b1 = button_saved c" "button_saved c1 = button_saved c"
    using r [OF a(3)] r [OF a(4)] by blast
  then have "persistence_restore (family (module_write env) (module_read env valid) names) (?doc, [ButtonModule b', ButtonModule c' :: 'l module_state]) =
      Inr (?doc, [ButtonModule b1, ButtonModule c1])" "button_saved b1 = button_saved c" "button_saved c1 = button_saved c"
    by (simp_all add: persistence_restore_def family_def names indexed_listener_def restoreModule_def json_string_def)
  with doc show ?thesis by (intro exI [of _ ?doc] exI [of _ "[ButtonModule b1, ButtonModule c1]"]) simp
qed

theorem buttons_with_one_name_witness:
  "\<exists>doc ks. persistence_restore (family (module_write example_env) (module_read example_env (\<lambda>t. True))
       [button_module_name (word_of_nat 3), button_module_name (word_of_nat (3 + 256))])
       (doc, [ButtonModule (example_button ''A'' ''ls''), ButtonModule (example_button ''B'' ''ps'') :: nat module_state]) = Inr (doc, ks) \<and>
     map saved_part ks = [saved_part (ButtonModule (example_button ''B'' ''ps'') :: nat module_state),
       saved_part (ButtonModule (example_button ''B'' ''ps'') :: nat module_state)]"
proof -
  have "\<exists>doc ks. collect_settings (family (module_write example_env) (module_read example_env (\<lambda>t. True))
        [button_module_name (word_of_nat 3), button_module_name (word_of_nat (3 + 256))])
        [ButtonModule (example_button ''A'' ''ls''), ButtonModule (example_button ''B'' ''ps'') :: nat module_state] = Inr doc \<and>
      persistence_restore (family (module_write example_env) (module_read example_env (\<lambda>t. True))
        [button_module_name (word_of_nat 3), button_module_name (word_of_nat (3 + 256))])
        (doc, [ButtonModule (example_button ''A'' ''ls''), ButtonModule (example_button ''B'' ''ps'') :: nat module_state]) = Inr (doc, ks) \<and>
      map saved_part ks = [saved_part (ButtonModule (example_button ''B'' ''ps'') :: nat module_state),
        saved_part (ButtonModule (example_button ''B'' ''ps'') :: nat module_state)]"
    by (rule buttons_with_one_name [OF refl example_button_facts(1) example_button_facts(2) example_button_facts(2)])
  then show ?thesis by (elim exE conjE) (rule exI, rule exI, rule conjI)
qed

end
