(* ===== verification/Dialogs.thy ===== *)
theory Dialogs
  imports Port TraceFilter UserButton
begin

text \<open>
  The dialogs of \<open>sw/Dialogs/source\<close> for a port, a trace filter, the log file's path, a user
  button and a tab's name: the values their widgets are given, what the user does with them, and
  the settings read back from them. What a widget answers after it was given a value is Qt's,
  and a parameter; \<open>qt_documented\<close> states what Qt's documentation says of it.
\<close>

section \<open>Qt\<close>

text \<open>
  What a line edit of some maximum length answers after it was given a text, a combo box with
  some items after it was given a current text, \<open>QColor(rgb).rgb()\<close>, \<open>QString::toUInt\<close>, and a
  text edit after \<open>setText\<close>, which guesses whether it is given HTML.
\<close>

record qt =
  edit_text :: "nat \<Rightarrow> string \<Rightarrow> string"
  box_text :: "string list \<Rightarrow> string \<Rightarrow> string"
  solid_rgb :: "u32 \<Rightarrow> u32"
  toUInt :: "string \<Rightarrow> u32 option"
  text_edit_text :: "string \<Rightarrow> string"

definition qt_documented :: "qt \<Rightarrow> bool" where
  "qt_documented q \<longleftrightarrow>
     (\<forall>n t. length t \<le> n \<longrightarrow> edit_text q n t = t) \<and>
     (\<forall>items t. t \<in> set items \<longrightarrow> box_text q items t = t) \<and>
     (\<forall>items t. items \<noteq> [] \<longrightarrow> box_text q items t \<in> set items) \<and>
     (\<forall>c. solid_rgb q c = c OR 0xFF000000) \<and>
     (\<forall>w. toUInt q (to_string (unat w)) = Some w)"

text \<open>The maximum length of a line edit that was not given one.\<close>

definition QT_MAX_LENGTH :: nat where
  "QT_MAX_LENGTH = 32767"

text \<open>A widget that was removed from the form is gone: reading it is undefined behaviour.\<close>

definition widget :: "'a option \<Rightarrow> 'a res" where
  "widget w = (case w of None \<Rightarrow> Inl NullDeref | Some x \<Rightarrow> Inr x)"

lemma widget_simps [simp]: "widget (Some x) = Inr x" "widget None = Inl NullDeref"
  by (simp_all add: widget_def)

section \<open>The dialog of a port\<close>

record port_dialog =
  m_current_settings :: port_settings
  pd_editable :: bool
  m_portTypeBox :: string
  m_portNameEdit :: "string option"
  m_deviceNameEdit :: "string option"
  m_baudRateBox :: "string option"
  m_dataBitsBox :: "string option"
  m_parityBitsBox :: "string option"
  m_stopBitsBox :: "string option"
  m_ipAddressEdit :: "string option"
  m_ipPortEdit :: "string option"
  m_commandEdit :: "string option"
  m_traceColorSelectionButton :: "u32 option"
  m_fontColorSelectionButton :: "u32 option"

definition new_port_dialog :: port_dialog where
  "new_port_dialog =
     \<lparr>m_current_settings = default_port_settings, pd_editable = True, m_portTypeBox = [], m_portNameEdit = None,
      m_deviceNameEdit = None, m_baudRateBox = None, m_dataBitsBox = None, m_parityBitsBox = None, m_stopBitsBox = None,
      m_ipAddressEdit = None, m_ipPortEdit = None, m_commandEdit = None, m_traceColorSelectionButton = None,
      m_fontColorSelectionButton = None\<rparr>"

definition clearDialog :: "port_dialog \<Rightarrow> port_dialog" where
  "clearDialog d =
     d\<lparr>m_portNameEdit := None, m_deviceNameEdit := None, m_baudRateBox := None, m_dataBitsBox := None, m_parityBitsBox := None,
       m_stopBitsBox := None, m_ipAddressEdit := None, m_ipPortEdit := None, m_commandEdit := None,
       m_traceColorSelectionButton := None, m_fontColorSelectionButton := None\<rparr>"

definition addPortTypeComboBox :: "qt \<Rightarrow> PortType \<Rightarrow> port_dialog \<Rightarrow> port_dialog" where
  "addPortTypeComboBox q t d = d\<lparr>m_portTypeBox := box_text q port_names (port_type_toName t)\<rparr>"

text \<open>The part the three views share: the name, cut to the configured length, and the two colours.\<close>

definition render_common :: "qt \<Rightarrow> u32 \<Rightarrow> port_settings \<Rightarrow> port_dialog \<Rightarrow> port_dialog" where
  "render_common q maxlen s d =
     (clearDialog d)\<lparr>m_portNameEdit := Some (edit_text q (unat maxlen) (edit_text q QT_MAX_LENGTH (c_str (port_name s)))),
       m_traceColorSelectionButton := Some (solid_rgb q (trace_color s)), m_fontColorSelectionButton := Some (solid_rgb q (font_color s))\<rparr>"

definition renderSerialView :: "qt \<Rightarrow> u32 \<Rightarrow> port_settings \<Rightarrow> port_dialog \<Rightarrow> port_dialog res" where
  "renderSerialView q maxlen s d =
     bindE (baudrate_toName (baudRate (serialSettings s))) (\<lambda>b.
     bindE (databits_toName (dataBits (serialSettings s))) (\<lambda>e.
     bindE (paritybits_toName (parityBits (serialSettings s))) (\<lambda>r.
     mapE (\<lambda>t. (render_common q maxlen s d)
         \<lparr>m_deviceNameEdit := Some (edit_text q QT_MAX_LENGTH (c_str (device (serialSettings s)))),
          m_baudRateBox := Some (box_text q g_baudrates_names b), m_dataBitsBox := Some (box_text q g_databits_names e),
          m_parityBitsBox := Some (box_text q g_paritybits_names r), m_stopBitsBox := Some (box_text q g_stopbits_names t)\<rparr>)
       (stopbits_toName (stopBits (serialSettings s))))))"

definition renderEthernetView :: "qt \<Rightarrow> u32 \<Rightarrow> port_settings \<Rightarrow> port_dialog \<Rightarrow> port_dialog res" where
  "renderEthernetView q maxlen s d =
     Inr ((render_common q maxlen s d)
       \<lparr>m_ipAddressEdit := Some (edit_text q QT_MAX_LENGTH (c_str (ip_address s))),
        m_ipPortEdit := Some (edit_text q QT_MAX_LENGTH (to_string (unat (ip_port s))))\<rparr>)"

definition renderCommandView :: "qt \<Rightarrow> u32 \<Rightarrow> port_settings \<Rightarrow> port_dialog \<Rightarrow> port_dialog res" where
  "renderCommandView q maxlen s d =
     Inr ((render_common q maxlen s d)\<lparr>m_commandEdit := Some (edit_text q QT_MAX_LENGTH (c_str (port_command s)))\<rparr>)"

definition port_createLayout :: "qt \<Rightarrow> u32 \<Rightarrow> port_settings \<Rightarrow> bool \<Rightarrow> port_dialog \<Rightarrow> port_dialog res" where
  "port_createLayout q maxlen s allow_edit d =
     (let d1 = addPortTypeComboBox q (port_type s) (d\<lparr>m_current_settings := s, pd_editable := allow_edit\<rparr>)
      in case port_type s of
           SERIAL \<Rightarrow> renderSerialView q maxlen s d1
         | ETHERNET \<Rightarrow> renderEthernetView q maxlen s d1
         | COMMAND \<Rightarrow> renderCommandView q maxlen s d1
         | PORT_TYPE_MAX \<Rightarrow> Inl AssertionFailed)"

definition onPortTypeChanged :: "qt \<Rightarrow> u32 \<Rightarrow> string \<Rightarrow> port_dialog \<Rightarrow> port_dialog res" where
  "onPortTypeChanged q maxlen name d =
     (case port_type_fromName name of
        SERIAL \<Rightarrow> renderSerialView q maxlen (m_current_settings d) d
      | ETHERNET \<Rightarrow> renderEthernetView q maxlen (m_current_settings d) d
      | COMMAND \<Rightarrow> renderCommandView q maxlen (m_current_settings d) d
      | PORT_TYPE_MAX \<Rightarrow> Inr d)"

text \<open>\<open>chosen\<close> is the colour of the colour dialog where the user accepted it.\<close>

definition onBackgroundColorButtonClicked :: "u32 option \<Rightarrow> port_dialog \<Rightarrow> port_dialog" where
  "onBackgroundColorButtonClicked chosen d =
     (case chosen of
        None \<Rightarrow> d
      | Some c \<Rightarrow> d\<lparr>m_traceColorSelectionButton := Some c, m_current_settings := (m_current_settings d)\<lparr>trace_color := c\<rparr>\<rparr>)"

definition onFontColorButtonClicked :: "u32 option \<Rightarrow> port_dialog \<Rightarrow> port_dialog" where
  "onFontColorButtonClicked chosen d =
     (case chosen of
        None \<Rightarrow> d
      | Some c \<Rightarrow> d\<lparr>m_fontColorSelectionButton := Some c, m_current_settings := (m_current_settings d)\<lparr>font_color := c\<rparr>\<rparr>)"

definition port_convertGuiValues :: "qt \<Rightarrow> port_dialog \<Rightarrow> port_settings res" where
  "port_convertGuiValues q d =
     (let out = (m_current_settings d)\<lparr>port_type := port_type_fromName (m_portTypeBox d)\<rparr>;
          named = (\<lambda>out. mapE (\<lambda>n. out\<lparr>port_name := n, trace_color := trace_color (m_current_settings d),
            font_color := font_color (m_current_settings d)\<rparr>) (widget (m_portNameEdit d)))
      in case port_type out of
           SERIAL \<Rightarrow>
             bindE (widget (m_baudRateBox d)) (\<lambda>b.
             bindE (widget (m_dataBitsBox d)) (\<lambda>e.
             bindE (widget (m_parityBitsBox d)) (\<lambda>r.
             bindE (widget (m_stopBitsBox d)) (\<lambda>t.
             bindE (widget (m_deviceNameEdit d)) (\<lambda>dev.
               named (out\<lparr>serialSettings := (serialSettings out)\<lparr>baudRate := baudrate_fromName b, dataBits := databits_fromName e,
                 parityBits := paritybits_fromName r, stopBits := stopbits_fromName t, device := dev\<rparr>\<rparr>))))))
         | ETHERNET \<Rightarrow>
             bindE (widget (m_ipAddressEdit d)) (\<lambda>a.
             bindE (widget (m_ipPortEdit d)) (\<lambda>p.
               named (out\<lparr>ip_address := a, ip_port := (case toUInt q p of None \<Rightarrow> 0 | Some n \<Rightarrow> n)\<rparr>)))
         | COMMAND \<Rightarrow> bindE (widget (m_commandEdit d)) (\<lambda>c. named (out\<lparr>port_command := c\<rparr>))
         | PORT_TYPE_MAX \<Rightarrow> named out)"

text \<open>What the user can do with the widgets.\<close>

datatype port_input =
    ChoosePortType string
  | TypePortName string
  | TypeDevice string
  | ChooseBaudRate string
  | ChooseDataBits string
  | ChooseParity string
  | ChooseStopBits string
  | TypeAddress string
  | TypePort string
  | TypeCommand string
  | PickBackground "u32 option"
  | PickFont "u32 option"

text \<open>The user chooses among the items of a box and types into the edits that are there.\<close>

definition pick_item :: "string list \<Rightarrow> string \<Rightarrow> string option \<Rightarrow> string option" where
  "pick_item items t box = (if t \<in> set items then map_option (\<lambda>old. t) box else box)"

definition port_input :: "qt \<Rightarrow> u32 \<Rightarrow> port_input \<Rightarrow> port_dialog \<Rightarrow> port_dialog res" where
  "port_input q maxlen i d =
     (if pd_editable d
      then case i of
             ChoosePortType t \<Rightarrow>
               if t \<in> set port_names \<and> t \<noteq> m_portTypeBox d then onPortTypeChanged q maxlen t (d\<lparr>m_portTypeBox := t\<rparr>) else Inr d
           | TypePortName t \<Rightarrow> Inr (d\<lparr>m_portNameEdit := map_option (\<lambda>old. edit_text q (unat maxlen) t) (m_portNameEdit d)\<rparr>)
           | TypeDevice t \<Rightarrow> Inr (d\<lparr>m_deviceNameEdit := map_option (\<lambda>old. edit_text q QT_MAX_LENGTH t) (m_deviceNameEdit d)\<rparr>)
           | ChooseBaudRate t \<Rightarrow> Inr (d\<lparr>m_baudRateBox := pick_item g_baudrates_names t (m_baudRateBox d)\<rparr>)
           | ChooseDataBits t \<Rightarrow> Inr (d\<lparr>m_dataBitsBox := pick_item g_databits_names t (m_dataBitsBox d)\<rparr>)
           | ChooseParity t \<Rightarrow> Inr (d\<lparr>m_parityBitsBox := pick_item g_paritybits_names t (m_parityBitsBox d)\<rparr>)
           | ChooseStopBits t \<Rightarrow> Inr (d\<lparr>m_stopBitsBox := pick_item g_stopbits_names t (m_stopBitsBox d)\<rparr>)
           | TypeAddress t \<Rightarrow> Inr (d\<lparr>m_ipAddressEdit := map_option (\<lambda>old. edit_text q QT_MAX_LENGTH t) (m_ipAddressEdit d)\<rparr>)
           | TypePort t \<Rightarrow> Inr (d\<lparr>m_ipPortEdit := map_option (\<lambda>old. edit_text q QT_MAX_LENGTH t) (m_ipPortEdit d)\<rparr>)
           | TypeCommand t \<Rightarrow> Inr (d\<lparr>m_commandEdit := map_option (\<lambda>old. edit_text q QT_MAX_LENGTH t) (m_commandEdit d)\<rparr>)
           | PickBackground c \<Rightarrow> Inr (onBackgroundColorButtonClicked c d)
           | PickFont c \<Rightarrow> Inr (onFontColorButtonClicked c d)
      else Inr d)"

text \<open>\<open>showDialog\<close>; the OK button is disabled when the settings cannot be edited.\<close>

definition port_showDialog :: "qt \<Rightarrow> u32 \<Rightarrow> port_settings \<Rightarrow> bool \<Rightarrow> port_input list \<Rightarrow> bool \<Rightarrow> (bool \<times> port_settings) option res" where
  "port_showDialog q maxlen s allow_edit inputs ok =
     bindE (port_createLayout q maxlen s allow_edit new_port_dialog) (\<lambda>d.
     bindE (foldE (port_input q maxlen) inputs d) (\<lambda>d'.
       if ok \<and> allow_edit then mapE (\<lambda>out. Some (True, out)) (port_convertGuiValues q d') else Inr None))"

section \<open>The other dialogs\<close>

text \<open>A trace filter's: a line edit in the filter's colours and two buttons that show them.\<close>

record filter_dialog =
  fd_settings :: filter_settings
  fd_editable :: bool
  m_regexEdit :: string
  m_backgroundButton :: u32
  m_fontButton :: u32

definition filter_createLayout :: "qt \<Rightarrow> filter_settings \<Rightarrow> bool \<Rightarrow> filter_dialog" where
  "filter_createLayout q s allow_edit =
     \<lparr>fd_settings = s, fd_editable = allow_edit, m_regexEdit = edit_text q QT_MAX_LENGTH (c_str (regex s)),
      m_backgroundButton = solid_rgb q (background s), m_fontButton = solid_rgb q (font s)\<rparr>"

definition filter_convertGuiValues :: "filter_dialog \<Rightarrow> filter_settings" where
  "filter_convertGuiValues d =
     \<lparr>filter_id = filter_id (fd_settings d), regex = m_regexEdit d, background = m_backgroundButton d, font = m_fontButton d\<rparr>"

datatype filter_input = TypeRegex string | PickFilterBackground "u32 option" | PickFilterFont "u32 option"

definition filter_input :: "qt \<Rightarrow> filter_input \<Rightarrow> filter_dialog \<Rightarrow> filter_dialog" where
  "filter_input q i d =
     (if fd_editable d
      then case i of
             TypeRegex t \<Rightarrow> d\<lparr>m_regexEdit := edit_text q QT_MAX_LENGTH t\<rparr>
           | PickFilterBackground c \<Rightarrow> (case c of None \<Rightarrow> d | Some x \<Rightarrow> d\<lparr>m_backgroundButton := x\<rparr>)
           | PickFilterFont c \<Rightarrow> (case c of None \<Rightarrow> d | Some x \<Rightarrow> d\<lparr>m_fontButton := x\<rparr>)
      else d)"

definition filter_showDialog :: "qt \<Rightarrow> filter_settings \<Rightarrow> bool \<Rightarrow> filter_input list \<Rightarrow> bool \<Rightarrow> (bool \<times> filter_settings) option" where
  "filter_showDialog q s allow_edit inputs ok =
     (let d = fold (filter_input q) inputs (filter_createLayout q s allow_edit)
      in if ok then Some (True, filter_convertGuiValues d) else None)"

text \<open>The log file's path: only browsing for a directory changes it.\<close>

definition logging_createLayout :: "qt \<Rightarrow> string \<Rightarrow> string" where
  "logging_createLayout q path = edit_text q QT_MAX_LENGTH (c_str path)"

definition onPathSelectButtonClicked :: "qt \<Rightarrow> string \<Rightarrow> string \<Rightarrow> string" where
  "onPathSelectButtonClicked q dir edit = (if dir \<noteq> [] then edit_text q QT_MAX_LENGTH dir else edit)"

definition browse :: "qt \<Rightarrow> bool \<Rightarrow> string list \<Rightarrow> string \<Rightarrow> string" where
  "browse q allow_edit dirs edit = (if allow_edit then fold (onPathSelectButtonClicked q) dirs edit else edit)"

definition logging_showDialog :: "qt \<Rightarrow> string \<Rightarrow> bool \<Rightarrow> string list \<Rightarrow> bool \<Rightarrow> string option" where
  "logging_showDialog q path allow_edit dirs ok =
     (if ok \<and> allow_edit then Some (browse q allow_edit dirs (logging_createLayout q path)) else None)"

text \<open>A user button's: \<open>out\<close> are the settings the caller passed to be filled.\<close>

datatype button_input = TypeButtonName string | TypeCommands string

definition button_input :: "qt \<Rightarrow> bool \<Rightarrow> button_input \<Rightarrow> string \<times> string \<Rightarrow> string \<times> string" where
  "button_input q allow_edit i =
     (\<lambda>(name, commands).
        if allow_edit
        then case i of TypeButtonName t \<Rightarrow> (edit_text q QT_MAX_LENGTH t, commands) | TypeCommands t \<Rightarrow> (name, t)
        else (name, commands))"

definition button_convertGuiValues :: "string \<times> string \<Rightarrow> button_settings \<Rightarrow> button_settings" where
  "button_convertGuiValues w out = out\<lparr>button_name := fst w, raw_commands := snd w\<rparr>"

definition button_showDialog ::
  "qt \<Rightarrow> button_settings \<Rightarrow> button_settings \<Rightarrow> bool \<Rightarrow> button_input list \<Rightarrow> bool \<Rightarrow> (bool \<times> button_settings) option" where
  "button_showDialog q s out allow_edit inputs ok =
     (let w = fold (button_input q allow_edit) inputs
        (edit_text q QT_MAX_LENGTH (c_str (button_name s)), text_edit_text q (c_str (raw_commands s)))
      in if ok \<and> allow_edit then Some (True, button_convertGuiValues w out) else None)"

definition tab_showDialog :: "qt \<Rightarrow> string \<Rightarrow> string list \<Rightarrow> bool \<Rightarrow> string option" where
  "tab_showDialog q current_name typed ok =
     (let t = fold (\<lambda>t old. edit_text q QT_MAX_LENGTH t) typed (edit_text q QT_MAX_LENGTH (c_str current_name))
      in if ok then Some t else None)"

section \<open>What a port's dialog returns\<close>

definition settings_named :: "port_settings \<Rightarrow> bool" where
  "settings_named s \<longleftrightarrow>
     baudRate (serialSettings s) \<noteq> BAUDRATE_MAX \<and> dataBits (serialSettings s) \<noteq> DATA_BIT_MAX \<and>
     parityBits (serialSettings s) \<noteq> PARITY_BIT_MAX \<and> stopBits (serialSettings s) \<noteq> STOP_BIT_MAX"

text \<open>The box of an enumeration: it starts with the value's name, and always reads as a value that has a name.\<close>

lemma box_names:
  "b \<noteq> BAUDRATE_MAX \<Longrightarrow> \<exists>n \<in> set g_baudrates_names. baudrate_toName b = Inr n \<and> baudrate_fromName n = b"
  "d \<noteq> DATA_BIT_MAX \<Longrightarrow> \<exists>n \<in> set g_databits_names. databits_toName d = Inr n \<and> databits_fromName n = d"
  "p \<noteq> PARITY_BIT_MAX \<Longrightarrow> \<exists>n \<in> set g_paritybits_names. paritybits_toName p = Inr n \<and> paritybits_fromName n = p"
  "t \<noteq> STOP_BIT_MAX \<Longrightarrow> \<exists>n \<in> set g_stopbits_names. stopbits_toName t = Inr n \<and> stopbits_fromName n = t"
  unfolding baudrate_toName_def baudrate_fromName_def databits_toName_def databits_fromName_def
    paritybits_toName_def paritybits_fromName_def stopbits_toName_def stopbits_fromName_def
  using baud_names.name_roundtrip [of b] databit_names.name_roundtrip [of d] parity_names.name_roundtrip [of p]
    stopbit_names.name_roundtrip [of t] last_enums by simp_all

lemma names_read:
  "n \<in> set g_baudrates_names \<Longrightarrow> baudrate_fromName n \<noteq> BAUDRATE_MAX"
  "n \<in> set g_databits_names \<Longrightarrow> databits_fromName n \<noteq> DATA_BIT_MAX"
  "n \<in> set g_paritybits_names \<Longrightarrow> paritybits_fromName n \<noteq> PARITY_BIT_MAX"
  "n \<in> set g_stopbits_names \<Longrightarrow> stopbits_fromName n \<noteq> STOP_BIT_MAX"
  "n \<in> set port_names \<Longrightarrow> port_type_fromName n \<noteq> PORT_TYPE_MAX"
  by (auto simp: g_baudrates_names_def baudrate_fromName_def g_databits_names_def databits_fromName_def
      g_paritybits_names_def paritybits_fromName_def g_stopbits_names_def stopbits_fromName_def enum_of_def Let_def
      baudrates_def databits_def paritybits_def stopbits_def port_names_def port_type_fromName_def port_types_def)

lemma port_type_named: "t \<noteq> PORT_TYPE_MAX \<Longrightarrow> port_type_toName t \<in> set port_names"
  by (cases t) (simp_all add: port_type_toName_def port_names_def port_types_def)

definition in_box :: "string list \<Rightarrow> string option \<Rightarrow> bool" where
  "in_box items box \<longleftrightarrow> (\<exists>t \<in> set items. box = Some t)"

lemma in_box_simps [simp]: "in_box items None \<longleftrightarrow> False" "in_box items (Some t) \<longleftrightarrow> t \<in> set items"
  by (auto simp: in_box_def)

lemma pick_in_box: "in_box items box \<Longrightarrow> in_box items (pick_item items t box)"
  by (auto simp: pick_item_def in_box_def)

definition serial_shown :: "port_dialog \<Rightarrow> bool" where
  "serial_shown d \<longleftrightarrow>
     in_box g_baudrates_names (m_baudRateBox d) \<and> in_box g_databits_names (m_dataBitsBox d) \<and>
     in_box g_paritybits_names (m_parityBitsBox d) \<and> in_box g_stopbits_names (m_stopBitsBox d) \<and> m_deviceNameEdit d \<noteq> None"

definition port_dialog_ok :: "port_settings \<Rightarrow> port_dialog \<Rightarrow> bool" where
  "port_dialog_ok s d \<longleftrightarrow>
     (m_current_settings d)\<lparr>trace_color := trace_color s, font_color := font_color s\<rparr> = s \<and> settings_named s \<and>
     m_portTypeBox d \<in> set port_names \<and> m_portNameEdit d \<noteq> None \<and>
     (case port_type_fromName (m_portTypeBox d) of
        SERIAL \<Rightarrow> serial_shown d
      | ETHERNET \<Rightarrow> m_ipAddressEdit d \<noteq> None \<and> m_ipPortEdit d \<noteq> None
      | COMMAND \<Rightarrow> m_commandEdit d \<noteq> None
      | PORT_TYPE_MAX \<Rightarrow> False)"

lemma same_but_colours:
  assumes "c\<lparr>trace_color := x, font_color := y\<rparr> = s"
  shows "port_id c = port_id s" "port_type c = port_type s" "port_name c = port_name s" "serialSettings c = serialSettings s"
    "ip_address c = ip_address s" "ip_port c = ip_port s" "port_command c = port_command s"
  using assms by auto

lemma render_serial:
  assumes "qt_documented q" "settings_named s"
  obtains b e r t where
    "b \<in> set g_baudrates_names" "e \<in> set g_databits_names" "r \<in> set g_paritybits_names" "t \<in> set g_stopbits_names"
    "baudrate_fromName b = baudRate (serialSettings s)" "databits_fromName e = dataBits (serialSettings s)"
    "paritybits_fromName r = parityBits (serialSettings s)" "stopbits_fromName t = stopBits (serialSettings s)"
    "renderSerialView q maxlen s d = Inr ((render_common q maxlen s d)
       \<lparr>m_deviceNameEdit := Some (edit_text q QT_MAX_LENGTH (c_str (device (serialSettings s)))),
        m_baudRateBox := Some b, m_dataBitsBox := Some e, m_parityBitsBox := Some r, m_stopBitsBox := Some t\<rparr>)"
proof -
  obtain b e r t where
    n: "b \<in> set g_baudrates_names" "e \<in> set g_databits_names" "r \<in> set g_paritybits_names" "t \<in> set g_stopbits_names"
    "baudrate_toName (baudRate (serialSettings s)) = Inr b" "databits_toName (dataBits (serialSettings s)) = Inr e"
    "paritybits_toName (parityBits (serialSettings s)) = Inr r" "stopbits_toName (stopBits (serialSettings s)) = Inr t"
    "baudrate_fromName b = baudRate (serialSettings s)" "databits_fromName e = dataBits (serialSettings s)"
    "paritybits_fromName r = parityBits (serialSettings s)" "stopbits_fromName t = stopBits (serialSettings s)"
    using assms(2) box_names unfolding settings_named_def by metis
  moreover have "box_text q items x = x" if "x \<in> set items" for items x
    using assms(1) that by (simp add: qt_documented_def)
  ultimately show thesis using that [of b e r t] by (simp add: renderSerialView_def)
qed

lemma render_common_fields [simp]:
  "m_current_settings (render_common q maxlen s d) = m_current_settings d"
  "m_portTypeBox (render_common q maxlen s d) = m_portTypeBox d"
  "pd_editable (render_common q maxlen s d) = pd_editable d"
  "m_portNameEdit (render_common q maxlen s d) = Some (edit_text q (unat maxlen) (edit_text q QT_MAX_LENGTH (c_str (port_name s))))"
  by (simp_all add: render_common_def clearDialog_def)

lemma rendered_ok:
  assumes "qt_documented q" "settings_named s" "n \<in> set port_names" "m_portTypeBox d = n"
    "(m_current_settings d)\<lparr>trace_color := trace_color s, font_color := font_color s\<rparr> = s"
  shows "\<exists>d'. onPortTypeChanged q maxlen n d = Inr d' \<and> port_dialog_ok s d' \<and> pd_editable d' = pd_editable d"
proof -
  note same = same_but_colours [OF assms(5)]
  have named: "settings_named (m_current_settings d)" using assms(2) same by (simp add: settings_named_def)
  show ?thesis
  proof (cases "port_type_fromName n")
    case SERIAL
    obtain b e r t where
      n: "b \<in> set g_baudrates_names" "e \<in> set g_databits_names" "r \<in> set g_paritybits_names" "t \<in> set g_stopbits_names"
      "renderSerialView q maxlen (m_current_settings d) d = Inr ((render_common q maxlen (m_current_settings d) d)
         \<lparr>m_deviceNameEdit := Some (edit_text q QT_MAX_LENGTH (c_str (device (serialSettings (m_current_settings d))))),
          m_baudRateBox := Some b, m_dataBitsBox := Some e, m_parityBitsBox := Some r, m_stopBitsBox := Some t\<rparr>)"
      by (rule render_serial [OF assms(1) named, of maxlen d]) blast
    with SERIAL assms show ?thesis by (simp add: onPortTypeChanged_def port_dialog_ok_def serial_shown_def)
  next
    case PORT_TYPE_MAX
    then show ?thesis using names_read(5) [OF assms(3)] by simp
  qed (use assms in \<open>simp_all add: onPortTypeChanged_def renderEthernetView_def renderCommandView_def port_dialog_ok_def\<close>)
qed

lemma layout_is_type_change:
  assumes "port_type s \<noteq> PORT_TYPE_MAX"
  shows "port_createLayout q maxlen s e d =
    onPortTypeChanged q maxlen (port_type_toName (port_type s)) (addPortTypeComboBox q (port_type s) (d\<lparr>m_current_settings := s, pd_editable := e\<rparr>))"
  using assms by (cases "port_type s") (simp_all add: port_createLayout_def onPortTypeChanged_def Let_def addPortTypeComboBox_def)

lemma layout_ok:
  assumes "qt_documented q" "settings_named s" "port_type s \<noteq> PORT_TYPE_MAX"
  shows "\<exists>d. port_createLayout q maxlen s e d0 = Inr d \<and> port_dialog_ok s d \<and> pd_editable d = e"
proof -
  let ?n = "port_type_toName (port_type s)"
  let ?d = "addPortTypeComboBox q (port_type s) (d0\<lparr>m_current_settings := s, pd_editable := e\<rparr>)"
  have "?n \<in> set port_names" using port_type_named [OF assms(3)] .
  moreover from this have "m_portTypeBox ?d = ?n" using assms(1) by (simp add: addPortTypeComboBox_def qt_documented_def)
  ultimately show ?thesis
    using rendered_ok [OF assms(1,2), of ?n ?d maxlen] by (simp add: layout_is_type_change [OF assms(3)] addPortTypeComboBox_def)
qed

lemma input_ok:
  assumes "qt_documented q" "port_dialog_ok s d"
  shows "\<exists>d'. port_input q maxlen i d = Inr d' \<and> port_dialog_ok s d' \<and> pd_editable d' = pd_editable d"
proof (cases "pd_editable d")
  case True
  show ?thesis
  proof (cases i)
    case (ChoosePortType t)
    show ?thesis
    proof (cases "t \<in> set port_names \<and> t \<noteq> m_portTypeBox d")
      case True
      then show ?thesis
        using rendered_ok [OF assms(1), of s t "d\<lparr>m_portTypeBox := t\<rparr>" maxlen] assms(2) ChoosePortType \<open>pd_editable d\<close>
        by (simp add: port_input_def port_dialog_ok_def)
    next
      case False
      then show ?thesis using ChoosePortType assms(2) True by (auto simp: port_input_def)
    qed
  next
    case (PickBackground c)
    then show ?thesis
      using assms(2) True
      by (cases c) (auto simp: port_input_def onBackgroundColorButtonClicked_def port_dialog_ok_def serial_shown_def split: PortType.splits)
  next
    case (PickFont c)
    then show ?thesis
      using assms(2) True
      by (cases c) (auto simp: port_input_def onFontColorButtonClicked_def port_dialog_ok_def serial_shown_def split: PortType.splits)
  qed (use assms(2) True in
      \<open>auto simp: port_input_def port_dialog_ok_def serial_shown_def intro: pick_in_box split: PortType.splits\<close>)
qed (use assms(2) in \<open>simp add: port_input_def\<close>)

lemma inputs_ok:
  assumes "qt_documented q" "port_dialog_ok s d"
  shows "\<exists>d'. foldE (port_input q maxlen) is d = Inr d' \<and> port_dialog_ok s d' \<and> pd_editable d' = pd_editable d"
  using assms(2)
proof (induction "is" arbitrary: d)
  case (Cons i js)
  obtain d1 where "port_input q maxlen i d = Inr d1" "port_dialog_ok s d1" "pd_editable d1 = pd_editable d"
    using input_ok [OF assms(1) Cons.prems] by blast
  with Cons.IH [of d1] show ?case by simp
qed simp

text \<open>Reading the widgets back.\<close>

lemma converted:
  assumes "qt_documented q" "port_dialog_ok s d"
  shows "\<exists>out. port_convertGuiValues q d = Inr out \<and> port_id out = port_id s \<and> settings_named out \<and>
    port_type out = port_type_fromName (m_portTypeBox d) \<and> port_type out \<noteq> PORT_TYPE_MAX \<and>
    (port_type out \<noteq> SERIAL \<longrightarrow> serialSettings out = serialSettings s) \<and>
    (port_type out \<noteq> ETHERNET \<longrightarrow> ip_address out = ip_address s \<and> ip_port out = ip_port s) \<and>
    (port_type out \<noteq> COMMAND \<longrightarrow> port_command out = port_command s)"
proof -
  have c: "(m_current_settings d)\<lparr>trace_color := trace_color s, font_color := font_color s\<rparr> = s"
    using assms(2) by (simp add: port_dialog_ok_def)
  note same = same_but_colours [OF c]
  have named: "settings_named s" using assms(2) by (simp add: port_dialog_ok_def)
  have "m_portNameEdit d \<noteq> None" using assms(2) by (simp add: port_dialog_ok_def)
  then obtain n where n: "m_portNameEdit d = Some n" by blast
  show ?thesis
  proof (cases "port_type_fromName (m_portTypeBox d)")
    case SERIAL
    then have "serial_shown d" using assms(2) by (simp add: port_dialog_ok_def)
    then obtain b e r t dev where
      w: "b \<in> set g_baudrates_names" "e \<in> set g_databits_names" "r \<in> set g_paritybits_names" "t \<in> set g_stopbits_names"
      "m_baudRateBox d = Some b" "m_dataBitsBox d = Some e" "m_parityBitsBox d = Some r" "m_stopBitsBox d = Some t"
      "m_deviceNameEdit d = Some dev"
      unfolding serial_shown_def in_box_def by auto
    show ?thesis
      using SERIAL n w same names_read(1) [OF w(1)] names_read(2) [OF w(2)] names_read(3) [OF w(3)] names_read(4) [OF w(4)]
      by (simp add: port_convertGuiValues_def Let_def settings_named_def)
  next
    case ETHERNET
    then show ?thesis
      using assms(2) n same named by (auto simp: port_convertGuiValues_def port_dialog_ok_def Let_def settings_named_def)
  next
    case COMMAND
    then show ?thesis
      using assms(2) n same named by (auto simp: port_convertGuiValues_def port_dialog_ok_def Let_def settings_named_def)
  qed (use assms(2) in \<open>simp add: port_dialog_ok_def\<close>)
qed

text \<open>Settings whose texts the widgets can hold.\<close>

definition shown_whole :: "string \<Rightarrow> nat \<Rightarrow> bool" where
  "shown_whole t n \<longleftrightarrow> c_str t = t \<and> length t \<le> n"

definition settings_shown_whole :: "u32 \<Rightarrow> port_settings \<Rightarrow> bool" where
  "settings_shown_whole maxlen s \<longleftrightarrow>
     shown_whole (port_name s) (unat maxlen) \<and> shown_whole (port_name s) QT_MAX_LENGTH \<and>
     shown_whole (device (serialSettings s)) QT_MAX_LENGTH \<and> shown_whole (ip_address s) QT_MAX_LENGTH \<and>
     shown_whole (port_command s) QT_MAX_LENGTH"

lemma edit_whole: "qt_documented q \<Longrightarrow> shown_whole t n \<Longrightarrow> edit_text q n (c_str t) = t"
  by (simp add: qt_documented_def shown_whole_def)

lemma to_string_length: "n < 10 ^ k \<Longrightarrow> k > 0 \<Longrightarrow> length (to_string n) \<le> k"
proof (induction k arbitrary: n)
  case (Suc k)
  show ?case
  proof (cases "n < 10")
    case False
    then have "k > 0" using Suc.prems by (cases k) simp_all
    moreover have "n div 10 < 10 ^ k" using Suc.prems by (simp add: div_less_iff_less_mult mult.commute)
    ultimately show ?thesis using Suc.IH [of "n div 10"] False by (subst to_string.simps) simp
  qed (subst to_string.simps, simp)
qed simp

lemma u32_text_fits: "length (to_string (unat (w :: u32))) \<le> QT_MAX_LENGTH"
  using to_string_length [of "unat w" 10] unsigned_less [of w, where 'a = nat] by (simp add: QT_MAX_LENGTH_def)

lemma unchanged_converted:
  assumes q: "qt_documented q" and named: "settings_named s" "port_type s \<noteq> PORT_TYPE_MAX"
    and fit: "settings_shown_whole maxlen s"
    and d: "port_createLayout q maxlen s e d0 = Inr d"
  shows "port_convertGuiValues q d = Inr s"
proof -
  let ?n = "port_type_toName (port_type s)"
  have box: "box_text q port_names ?n = ?n"
    using port_type_named [OF named(2)] q by (simp add: qt_documented_def)
  note whole = fit [unfolded settings_shown_whole_def]
  have name: "edit_text q (unat maxlen) (edit_text q QT_MAX_LENGTH (c_str (port_name s))) = port_name s"
    using whole edit_whole [OF q, of "port_name s" QT_MAX_LENGTH] q by (simp add: qt_documented_def shown_whole_def)
  let ?d = "addPortTypeComboBox q (port_type s) (d0\<lparr>m_current_settings := s, pd_editable := e\<rparr>)"
  show ?thesis
  proof (cases "port_type s")
    case SERIAL
    obtain b m r t where
      w: "baudrate_fromName b = baudRate (serialSettings s)" "databits_fromName m = dataBits (serialSettings s)"
      "paritybits_fromName r = parityBits (serialSettings s)" "stopbits_fromName t = stopBits (serialSettings s)"
      "renderSerialView q maxlen s ?d = Inr ((render_common q maxlen s ?d)
         \<lparr>m_deviceNameEdit := Some (edit_text q QT_MAX_LENGTH (c_str (device (serialSettings s)))),
          m_baudRateBox := Some b, m_dataBitsBox := Some m, m_parityBitsBox := Some r, m_stopBitsBox := Some t\<rparr>)"
      by (rule render_serial [OF q named(1), of maxlen ?d]) blast
    have dev: "edit_text q QT_MAX_LENGTH (c_str (device (serialSettings s))) = device (serialSettings s)"
      using whole edit_whole [OF q] by simp
    show ?thesis
      using d w box name dev SERIAL
      by (auto simp: port_createLayout_def Let_def port_convertGuiValues_def addPortTypeComboBox_def)
  next
    case ETHERNET
    have "edit_text q QT_MAX_LENGTH (c_str (ip_address s)) = ip_address s" using whole edit_whole [OF q] by simp
    moreover have "toUInt q (edit_text q QT_MAX_LENGTH (to_string (unat (ip_port s)))) = Some (ip_port s)"
      using q u32_text_fits by (simp add: qt_documented_def)
    ultimately show ?thesis
      using d box name ETHERNET
      by (auto simp: port_createLayout_def Let_def port_convertGuiValues_def addPortTypeComboBox_def renderEthernetView_def)
  next
    case COMMAND
    have "edit_text q QT_MAX_LENGTH (c_str (port_command s)) = port_command s" using whole edit_whole [OF q] by simp
    then show ?thesis
      using d box name COMMAND
      by (auto simp: port_createLayout_def Let_def port_convertGuiValues_def addPortTypeComboBox_def renderCommandView_def)
  qed (use named(2) in simp)
qed

section \<open>Forms\<close>

text \<open>
  What the dialog of all settings needs of a form it embeds: one that was not touched reads as
  settings that do not differ from those it was given, for settings its widgets can show.
\<close>

locale settings_form =
  fixes layout :: "'s \<Rightarrow> bool \<Rightarrow> 'd res"
    and convert :: "'d \<Rightarrow> 's res"
    and differ :: "'s \<Rightarrow> 's \<Rightarrow> bool"
    and shown :: "'s \<Rightarrow> bool"
  assumes untouched: "shown s \<Longrightarrow> \<exists>d new. layout s e = Inr d \<and> convert d = Inr new \<and> \<not> differ new s"
begin

lemma untouched_convert: "shown s \<Longrightarrow> layout s e = Inr d \<Longrightarrow> \<exists>new. convert d = Inr new \<and> \<not> differ new s"
  using untouched [of s e] by auto

end

definition port_form_fits :: "qt \<Rightarrow> u32 \<Rightarrow> port_settings \<Rightarrow> bool" where
  "port_form_fits q maxlen s \<longleftrightarrow>
     qt_documented q \<and> settings_named s \<and> port_type s \<noteq> PORT_TYPE_MAX \<and> settings_shown_whole maxlen s"

interpretation port_form: settings_form "\<lambda>s e. port_createLayout q maxlen s e new_port_dialog" "port_convertGuiValues q"
  "\<lambda>a b. \<not> settings_eq a b" "port_form_fits q maxlen" for q maxlen
proof unfold_locales
  fix s e
  assume fits: "port_form_fits q maxlen s"
  then obtain d where d: "port_createLayout q maxlen s e new_port_dialog = Inr d"
    using layout_ok [of q s maxlen e new_port_dialog] by (auto simp: port_form_fits_def)
  then have "port_convertGuiValues q d = Inr s" using fits unchanged_converted [OF _ _ _ _ d] by (simp add: port_form_fits_def)
  with d show "\<exists>d new. port_createLayout q maxlen s e new_port_dialog = Inr d \<and> port_convertGuiValues q d = Inr new \<and>
      \<not> \<not> settings_eq new s"
    by (simp add: settings_eq_def)
qed

text \<open>A colour without its alpha bits never comes back from a filter's form as it was.\<close>

definition opaque :: "u32 \<Rightarrow> bool" where
  "opaque c \<longleftrightarrow> c OR 0xFF000000 = c"

definition filter_form_fits :: "qt \<Rightarrow> filter_settings \<Rightarrow> bool" where
  "filter_form_fits q s \<longleftrightarrow> qt_documented q \<and> shown_whole (regex s) QT_MAX_LENGTH \<and> opaque (background s) \<and> opaque (font s)"

interpretation filter_form: settings_form "\<lambda>s e. Inr (filter_createLayout q s e)" "\<lambda>d. Inr (filter_convertGuiValues d)"
  "\<lambda>a b. a \<noteq> b" "filter_form_fits q" for q
proof unfold_locales
  fix s :: filter_settings and e
  assume fits: "filter_form_fits q s"
  then have "filter_convertGuiValues (filter_createLayout q s e) = s"
    by (simp add: filter_form_fits_def filter_createLayout_def filter_convertGuiValues_def edit_whole opaque_def)
      (simp add: qt_documented_def)
  then show "\<exists>d new. Inr (filter_createLayout q s e) = Inr d \<and> Inr (filter_convertGuiValues d) = Inr new \<and> \<not> new \<noteq> s"
    by simp
qed

section \<open>Properties\<close>

text \<open>Shown proper settings, the dialog of a port gives proper settings, and faults on no input.\<close>

lemma port_dialog_result:
  assumes "qt_documented q" "settings_named s" "port_type s \<noteq> PORT_TYPE_MAX"
  shows "\<exists>r. port_showDialog q maxlen s allow_edit inputs ok = Inr r \<and>
    (r = None \<longleftrightarrow> \<not> (ok \<and> allow_edit)) \<and>
    (\<forall>out. r = Some out \<longrightarrow> fst out \<and> port_id (snd out) = port_id s \<and> settings_named (snd out) \<and> port_type (snd out) \<noteq> PORT_TYPE_MAX \<and>
       (port_type (snd out) \<noteq> SERIAL \<longrightarrow> serialSettings (snd out) = serialSettings s) \<and>
       (port_type (snd out) \<noteq> ETHERNET \<longrightarrow> ip_address (snd out) = ip_address s \<and> ip_port (snd out) = ip_port s) \<and>
       (port_type (snd out) \<noteq> COMMAND \<longrightarrow> port_command (snd out) = port_command s))"
proof -
  obtain d where d: "port_createLayout q maxlen s allow_edit new_port_dialog = Inr d" "port_dialog_ok s d"
    using layout_ok [OF assms] by blast
  obtain d' where d': "foldE (port_input q maxlen) inputs d = Inr d'" "port_dialog_ok s d'"
    using inputs_ok [OF assms(1) d(2)] by blast
  obtain out where "port_convertGuiValues q d' = Inr out" "port_id out = port_id s" "settings_named out" "port_type out \<noteq> PORT_TYPE_MAX"
    "port_type out \<noteq> SERIAL \<longrightarrow> serialSettings out = serialSettings s"
    "port_type out \<noteq> ETHERNET \<longrightarrow> ip_address out = ip_address s \<and> ip_port out = ip_port s"
    "port_type out \<noteq> COMMAND \<longrightarrow> port_command out = port_command s"
    using converted [OF assms(1) d'(2)] by blast
  then show ?thesis using d(1) d'(1) by (auto simp: port_showDialog_def)
qed

text \<open>A concrete Qt.\<close>

definition example_qt :: qt where
  "example_qt =
     \<lparr>edit_text = take, box_text = (\<lambda>items t. if t \<in> set items \<or> items = [] then t else hd items),
      solid_rgb = (\<lambda>c. c OR 0xFF000000), toUInt = (\<lambda>t. case stoll t of Inr n \<Rightarrow> Some (word_of_int n) | Inl f \<Rightarrow> None),
      text_edit_text = (\<lambda>t. t)\<rparr>"

lemma example_qt_documented: "qt_documented example_qt"
  by (auto simp: qt_documented_def example_qt_def)

text \<open>
  C15. The dialog of a port gives settings that can be used and saved. On a port with proper settings
  it never reads a widget that is gone, whatever the user chooses, types and switches between
  the types of ports. When its answer is applied, the port's settings have a type and enumerators
  with names, the port's number, and differ from the old ones only in the name, the colours
  and what belongs to the chosen type; and they can be written to the settings file.
\<close>

theorem edited_port_can_be_saved:
  assumes "qt_documented q" "settings_named (m_settings p)" "port_type (m_settings p) \<noteq> PORT_TYPE_MAX"
  shows "\<exists>r p' items. port_showDialog q maxlen (m_settings p) allow_edit inputs ok = Inr r \<and>
    onPortButtonContextMenuRequested r p = Inr p' \<and> port_onPersistenceWrite p' = Inr items \<and>
    settings_named (m_settings p') \<and> port_type (m_settings p') \<noteq> PORT_TYPE_MAX \<and> port_id (m_settings p') = port_id (m_settings p) \<and>
    (port_type (m_settings p') \<noteq> SERIAL \<longrightarrow> serialSettings (m_settings p') = serialSettings (m_settings p)) \<and>
    (port_type (m_settings p') \<noteq> ETHERNET \<longrightarrow> ip_address (m_settings p') = ip_address (m_settings p) \<and> ip_port (m_settings p') = ip_port (m_settings p)) \<and>
    (port_type (m_settings p') \<noteq> COMMAND \<longrightarrow> port_command (m_settings p') = port_command (m_settings p))"
proof -
  let ?kept = "\<lambda>new. settings_named new \<and> port_type new \<noteq> PORT_TYPE_MAX \<and> port_id new = port_id (m_settings p) \<and>
    (port_type new \<noteq> SERIAL \<longrightarrow> serialSettings new = serialSettings (m_settings p)) \<and>
    (port_type new \<noteq> ETHERNET \<longrightarrow> ip_address new = ip_address (m_settings p) \<and> ip_port new = ip_port (m_settings p)) \<and>
    (port_type new \<noteq> COMMAND \<longrightarrow> port_command new = port_command (m_settings p))"
  obtain r where r: "port_showDialog q maxlen (m_settings p) allow_edit inputs ok = Inr r" "\<forall>out. r = Some out \<longrightarrow> fst out \<and> ?kept (snd out)"
    using port_dialog_result [OF assms, of maxlen allow_edit inputs ok] by blast
  have named: "?kept s \<Longrightarrow> ?kept (default_name s)" for s by (simp add: settings_named_def default_name_def)
  have "\<exists>p'. onPortButtonContextMenuRequested r p = Inr p' \<and> ?kept (m_settings p')"
  proof (cases r)
    case (Some x)
    with r(2) have o: "fst x" "?kept (snd x)" by blast+
    then obtain p' where "handleNewSettings (snd x) p = Inr p'"
      using handleNewSettings_total [of "snd x" p] by (auto simp: settings_named_def named_baudrate_def)
    moreover from this have "m_settings p' = default_name (snd x)" by (rule handleNewSettings_fields)
    ultimately show ?thesis using o Some named [OF o(2)] by (cases x) (simp add: onPortButtonContextMenuRequested_def)
  qed (use assms in \<open>simp add: onPortButtonContextMenuRequested_def\<close>)
  then obtain p' where p': "onPortButtonContextMenuRequested r p = Inr p'" "?kept (m_settings p')" by blast
  then obtain b d t e where "named_as (m_settings p') b d t e"
    using all_named_names [of p'] by (auto simp: all_named_def settings_named_def)
  from port_writes_items [OF this] r(1) p' show ?thesis by blast
qed

lemma created_port_settings:
  assumes "port_create i b w ts bg fg = Inr p"
  shows "m_settings p = default_name (default_port_settings\<lparr>port_id := i, port_name := ''PORT'' @ u_to_string i\<rparr>)"
  using assms handleNewSettings_fields(1) by (auto simp: port_create_def Let_def case_prod_unfold mapE_Inr_iff)

theorem edited_port_can_be_saved_witness:
  "\<exists>p r p' items. port_create 1 7 1000 timers_init 0 0xFFFFFF = Inr p \<and>
     port_showDialog example_qt 30 (m_settings p) True [ChoosePortType ''ETHERNET'', TypePort ''80'', ChoosePortType ''COMMAND'', TypeCommand ''ls''] True = Inr r \<and>
     onPortButtonContextMenuRequested r p = Inr p' \<and> port_onPersistenceWrite p' = Inr items"
proof -
  obtain p where p: "port_create 1 7 1000 timers_init 0 0xFFFFFF = Inr p" using example_port by blast
  then have "settings_named (m_settings p)" "port_type (m_settings p) \<noteq> PORT_TYPE_MAX"
    by (simp_all add: created_port_settings settings_named_def default_name_def default_port_settings_def default_serial_settings_def)
  from edited_port_can_be_saved [OF example_qt_documented this, of 30 True
      "[ChoosePortType ''ETHERNET'', TypePort ''80'', ChoosePortType ''COMMAND'', TypeCommand ''ls'']" True] p
  show ?thesis by blast
qed

end
