(* ===== verification/SettingsDialog.thy ===== *)
theory SettingsDialog
  imports Dialogs MainApplication LoggerEngine
begin

text \<open>
  \<open>sw/Dialogs/source/ApplicationSettingsDialog.cpp\<close>: the dialog of all settings, which embeds
  the forms of the ports, the trace filters and the log file, shows the theme, the levels of the
  logger and every setting, and when the user accepts it hands what changed to the application,
  the logger and the settings handler.
\<close>

section \<open>State\<close>

record 'l program =
  pg_app :: main_app
  pg_settings :: "'l settings"
  pg_logger :: logger

record app_dialog =
  ad_ports :: "port_dialog list"
  ad_filters :: "filter_dialog list"
  ad_path :: string
  ad_path_editable :: bool
  m_theme_combobox :: string
  m_max_traces_edit :: string
  m_logger_comboboxes :: "string list"
  m_setting_lineedits :: "string list"

text \<open>A loop that makes one element of a list after the other.\<close>

fun traverseE :: "('a \<Rightarrow> 'b res) \<Rightarrow> 'a list \<Rightarrow> 'b list res" where
  "traverseE f [] = Inr []"
| "traverseE f (x # xs) = bindE (f x) (\<lambda>y. mapE ((#) y) (traverseE f xs))"

section \<open>Showing\<close>

definition number_edit :: "qt \<Rightarrow> nat \<Rightarrow> string" where
  "number_edit q n = edit_text q QT_MAX_LENGTH (to_string n)"

text \<open>\<open>createGeneralTab\<close>: the theme and the number of traces; reading a setting can add it.\<close>

definition createGeneralTab :: "qt \<Rightarrow> 'l program \<Rightarrow> ((string \<times> string) \<times> 'l program) res" where
  "createGeneralTab q g =
     bindE (themeToName (ui_theme (app_gui (pg_app g)))) (\<lambda>name.
       mapE (\<lambda>(n, st). ((box_text q theme_names name, number_edit q (unat n)), g\<lparr>pg_settings := st\<rparr>))
         (getU32 MainApplication_maxTerminalTraces (pg_settings g)))"

definition createPortsTab :: "qt \<Rightarrow> 'l program \<Rightarrow> (port_dialog list \<times> 'l program) res" where
  "createPortsTab q g =
     bindE (getU32 PortSettingDialog_maxLineEditLength (pg_settings g)) (\<lambda>(maxlen, st).
       mapE (\<lambda>ds. (ds, g\<lparr>pg_settings := st\<rparr>))
         (traverseE (\<lambda>p. port_createLayout q maxlen (m_settings p) (\<not> port_isOpened p) new_port_dialog) (app_ports (pg_app g))))"

definition createTraceFiltersTab :: "qt \<Rightarrow> main_app \<Rightarrow> filter_dialog list" where
  "createTraceFiltersTab q a = map (\<lambda>f. filter_createLayout q (filter_settings f) (\<not> filteringActive f)) (app_filters a)"

definition createFileLoggerTab :: "qt \<Rightarrow> main_app \<Rightarrow> string \<times> bool" where
  "createFileLoggerTab q a = (logging_createLayout q (m_file_logging_path a), \<not> logger_isActive (m_file_logger a))"

definition createLoggerTab :: "qt \<Rightarrow> logger \<Rightarrow> string list res" where
  "createLoggerTab q l =
     traverseE (\<lambda>i. bindE (getLevel i l) (\<lambda>level. mapE (box_text q m_level_names) (getLevelName level))) [0..<LOGGER_GROUP_MAX]"

definition writeSettingValue :: "qt \<Rightarrow> KeyID \<Rightarrow> 'l settings \<Rightarrow> (string \<times> 'l settings) res" where
  "writeSettingValue q k st =
     (case getType k st of
        ST_BOOL \<Rightarrow> mapE (\<lambda>(b, st'). (number_edit q (num_of_bool b), st')) (getBool k st)
      | ST_STRING \<Rightarrow> mapE (\<lambda>(t, st'). (edit_text q QT_MAX_LENGTH (c_str t), st')) (getString k st)
      | ST_U32 \<Rightarrow> mapE (\<lambda>(n, st'). (number_edit q (unat n), st')) (getU32 k st)
      | ST_UNKNOWN \<Rightarrow> Inr ([], st))"

definition createSystemSettingsTab :: "qt \<Rightarrow> 'l settings \<Rightarrow> (string list \<times> 'l settings) res" where
  "createSystemSettingsTab q st =
     foldE (\<lambda>k (edits, st). mapE (\<lambda>(t, st'). (edits @ [t], st')) (writeSettingValue q k st)) all_keys ([], st)"

text \<open>\<open>showDialog\<close> up to the point where the user sees it.\<close>

definition app_createTabs :: "qt \<Rightarrow> 'l program \<Rightarrow> (app_dialog \<times> 'l program) res" where
  "app_createTabs q g =
     bindE (createGeneralTab q g) (\<lambda>((theme, traces), g1).
     bindE (createPortsTab q g1) (\<lambda>(ports, g2).
     bindE (createLoggerTab q (pg_logger g2)) (\<lambda>levels.
     mapE (\<lambda>(edits, st).
         let (path, path_editable) = createFileLoggerTab q (pg_app g2)
         in (\<lparr>ad_ports = ports, ad_filters = createTraceFiltersTab q (pg_app g2), ad_path = path, ad_path_editable = path_editable,
              m_theme_combobox = theme, m_max_traces_edit = traces, m_logger_comboboxes = levels, m_setting_lineedits = edits\<rparr>,
             g2\<lparr>pg_settings := st\<rparr>))
       (createSystemSettingsTab q (pg_settings g2)))))"

section \<open>What the user does\<close>

datatype app_input =
    InPort nat port_input
  | InFilter nat filter_input
  | Browse string
  | ChooseTheme string
  | TypeMaxTraces string
  | ChooseLevel nat string
  | TypeSetting nat string

text \<open>Acting on one element of a list; there is no widget beyond its end.\<close>

definition at_index :: "nat \<Rightarrow> ('a \<Rightarrow> 'a res) \<Rightarrow> 'a list \<Rightarrow> 'a list res" where
  "at_index i f xs = (if i < length xs then mapE (\<lambda>x. xs[i := x]) (f (xs ! i)) else Inr xs)"

definition app_input :: "qt \<Rightarrow> u32 \<Rightarrow> app_input \<Rightarrow> app_dialog \<Rightarrow> app_dialog res" where
  "app_input q maxlen inp d =
     (case inp of
        InPort i x \<Rightarrow> mapE (\<lambda>ds. d\<lparr>ad_ports := ds\<rparr>) (at_index i (port_input q maxlen x) (ad_ports d))
      | InFilter i x \<Rightarrow> mapE (\<lambda>ds. d\<lparr>ad_filters := ds\<rparr>) (at_index i (\<lambda>f. Inr (filter_input q x f)) (ad_filters d))
      | Browse dir \<Rightarrow> Inr (d\<lparr>ad_path := browse q (ad_path_editable d) [dir] (ad_path d)\<rparr>)
      | ChooseTheme t \<Rightarrow> Inr (if t \<in> set theme_names then d\<lparr>m_theme_combobox := t\<rparr> else d)
      | TypeMaxTraces t \<Rightarrow> Inr (d\<lparr>m_max_traces_edit := edit_text q QT_MAX_LENGTH t\<rparr>)
      | ChooseLevel i t \<Rightarrow> Inr (if t \<in> set m_level_names then d\<lparr>m_logger_comboboxes := (m_logger_comboboxes d)[i := t]\<rparr> else d)
      | TypeSetting i t \<Rightarrow> Inr (d\<lparr>m_setting_lineedits := (m_setting_lineedits d)[i := edit_text q QT_MAX_LENGTH t]\<rparr>))"

section \<open>Accepting\<close>

text \<open>
  The loop of \<open>notifyPortsChanges\<close> and of \<open>notifyTraceFiltersChanges\<close>: a component is given the
  settings of its form when they differ from its own.
\<close>

fun notify_changes ::
  "('d \<Rightarrow> 's res) \<Rightarrow> ('x \<Rightarrow> 's) \<Rightarrow> ('s \<Rightarrow> 's \<Rightarrow> bool) \<Rightarrow> ('s \<Rightarrow> 'x \<Rightarrow> 'x res) \<Rightarrow> 'd list \<Rightarrow> 'x list \<Rightarrow> 'x list res" where
  "notify_changes convert current differ assign ds [] = Inr []"
| "notify_changes convert current differ assign [] (x # xs) = Inl OutOfBounds"
| "notify_changes convert current differ assign (d # ds) (x # xs) =
     bindE (convert d) (\<lambda>new.
     bindE (if differ new (current x) then assign new x else Inr x) (\<lambda>y.
       mapE ((#) y) (notify_changes convert current differ assign ds xs)))"

definition notifyPortsChanges :: "qt \<Rightarrow> port_dialog list \<Rightarrow> port list \<Rightarrow> port list res" where
  "notifyPortsChanges q =
     notify_changes (port_convertGuiValues q) m_settings (\<lambda>a b. \<not> settings_eq a b) (\<lambda>s p. mapE snd (port_setSettings s p))"

definition notifyTraceFiltersChanges :: "(string \<Rightarrow> bool) \<Rightarrow> filter_dialog list \<Rightarrow> trace_filter list \<Rightarrow> trace_filter list res" where
  "notifyTraceFiltersChanges valid =
     notify_changes (\<lambda>d. Inr (filter_convertGuiValues d)) filter_settings (\<noteq>) (\<lambda>s f. mapE snd (filter_setSettings valid s f))"

definition notifyFileLoggingChanges :: "string \<Rightarrow> main_app \<Rightarrow> main_app" where
  "notifyFileLoggingChanges path a = (if path \<noteq> m_file_logging_path a then a\<lparr>m_file_logging_path := path\<rparr> else a)"

definition saveLoggerGroups :: "string list \<Rightarrow> logger \<Rightarrow> logger res" where
  "saveLoggerGroups boxes l = foldE (\<lambda>i l. setLevel i (levelFromString (boxes ! i)) l) [0..<length boxes] l"

definition saveThemeChange :: "app_env \<Rightarrow> string \<Rightarrow> main_app \<Rightarrow> main_app res" where
  "saveThemeChange env text a =
     (let new_theme = nameToTheme text; current_theme = ui_theme (app_gui a)
      in if new_theme \<noteq> current_theme
         then bindE (themeToName current_theme) (\<lambda>log_text. on_gui env (gui_reloadTheme (word_of_int new_theme)) a)
         else Inr a)"

definition saveSystemU32Setting :: "qt \<Rightarrow> KeyID \<Rightarrow> string \<Rightarrow> 'l settings \<Rightarrow> 'l settings res" where
  "saveSystemU32Setting q k text st = (case toUInt q text of Some v \<Rightarrow> mapE snd (setU32 k v st) | None \<Rightarrow> Inr st)"

definition saveSystemBoolSetting :: "qt \<Rightarrow> KeyID \<Rightarrow> string \<Rightarrow> 'l settings \<Rightarrow> 'l settings res" where
  "saveSystemBoolSetting q k text st = (case toUInt q text of Some v \<Rightarrow> mapE snd (setBool k (v \<noteq> 0) st) | None \<Rightarrow> Inr st)"

definition saveSystemStringSetting :: "KeyID \<Rightarrow> string \<Rightarrow> 'l settings \<Rightarrow> 'l settings res" where
  "saveSystemStringSetting k text st = mapE snd (setString k text st)"

definition save_setting :: "qt \<Rightarrow> KeyID \<times> string \<Rightarrow> 'l settings \<Rightarrow> 'l settings res" where
  "save_setting q = (\<lambda>(k, text) st.
     (case getType k st of
        ST_BOOL \<Rightarrow> saveSystemBoolSetting q k text st
      | ST_STRING \<Rightarrow> saveSystemStringSetting k text st
      | ST_U32 \<Rightarrow> saveSystemU32Setting q k text st
      | ST_UNKNOWN \<Rightarrow> Inr st))"

definition saveSystemSettingsGroup :: "qt \<Rightarrow> string list \<Rightarrow> 'l settings \<Rightarrow> 'l settings res" where
  "saveSystemSettingsGroup q edits st = foldE (save_setting q) (zip all_keys edits) st"

definition notifyGeneralChanges :: "qt \<Rightarrow> app_env \<Rightarrow> app_dialog \<Rightarrow> 'l program \<Rightarrow> 'l program res" where
  "notifyGeneralChanges q env d g =
     bindE (saveThemeChange env (m_theme_combobox d) (pg_app g)) (\<lambda>a.
       (case toUInt q (m_max_traces_edit d) of
          Some n \<Rightarrow>
            if n \<noteq> 0
            then mapE (\<lambda>(changed, st). g\<lparr>pg_app := a, pg_settings := st\<rparr>) (setU32 MainApplication_maxTerminalTraces n (pg_settings g))
            else Inr (g\<lparr>pg_app := a\<rparr>)
        | None \<Rightarrow> Inr (g\<lparr>pg_app := a\<rparr>)))"

definition app_accept :: "qt \<Rightarrow> app_env \<Rightarrow> (string \<Rightarrow> bool) \<Rightarrow> app_dialog \<Rightarrow> 'l program \<Rightarrow> 'l program res" where
  "app_accept q env valid d g =
     bindE (notifyPortsChanges q (ad_ports d) (app_ports (pg_app g))) (\<lambda>ports.
     bindE (notifyTraceFiltersChanges valid (ad_filters d) (app_filters (pg_app g))) (\<lambda>filters.
     bindE (saveLoggerGroups (m_logger_comboboxes d) (pg_logger g)) (\<lambda>l.
     bindE (saveSystemSettingsGroup q (m_setting_lineedits d) (pg_settings g)) (\<lambda>st.
       notifyGeneralChanges q env d
         \<lparr>pg_app = notifyFileLoggingChanges (ad_path d) ((pg_app g)\<lparr>app_ports := ports, app_filters := filters\<rparr>),
          pg_settings = st, pg_logger = l\<rparr>))))"

definition app_showDialog ::
  "qt \<Rightarrow> app_env \<Rightarrow> (string \<Rightarrow> bool) \<Rightarrow> app_input list \<Rightarrow> bool \<Rightarrow> 'l program \<Rightarrow> (bool option \<times> 'l program) res" where
  "app_showDialog q env valid inputs ok g =
     bindE (app_createTabs q g) (\<lambda>(d, g1).
     bindE (getU32 PortSettingDialog_maxLineEditLength (pg_settings g1)) (\<lambda>(maxlen, st).
     bindE (foldE (app_input q maxlen) inputs d) (\<lambda>d'.
       if ok then mapE (\<lambda>g2. (Some True, g2)) (app_accept q env valid d' (g1\<lparr>pg_settings := st\<rparr>)) else Inr (None, g1))))"

section \<open>A dialog nobody touched\<close>

context settings_form
begin

lemma untouched_notify:
  "list_all2 (\<lambda>d x. shown (current x) \<and> (\<exists>e. layout (current x) e = Inr d)) ds xs \<Longrightarrow>
   notify_changes convert current differ assign ds xs = Inr xs"
proof (induction rule: list_all2_induct)
  case (Cons d ds x xs)
  then obtain new where "convert d = Inr new" "\<not> differ new (current x)" using untouched_convert by blast
  with Cons.IH show ?case by simp
qed simp

lemma layouts_made:
  "\<forall>x \<in> set xs. shown (current x) \<Longrightarrow>
   \<exists>ds. traverseE (\<lambda>x. layout (current x) (e x)) xs = Inr ds \<and>
     list_all2 (\<lambda>d x. shown (current x) \<and> (\<exists>e. layout (current x) e = Inr d)) ds xs"
proof (induction xs)
  case (Cons x xs)
  then obtain ds where "traverseE (\<lambda>x. layout (current x) (e x)) xs = Inr ds"
    "list_all2 (\<lambda>d x. shown (current x) \<and> (\<exists>e. layout (current x) e = Inr d)) ds xs" by auto
  moreover obtain d where "layout (current x) (e x) = Inr d" using untouched [of "current x" "e x"] Cons.prems by auto
  ultimately show ?case using Cons.prems by auto
qed simp

end

lemma traverse_map: "(\<forall>x \<in> set xs. f x = Inr (g x)) \<Longrightarrow> traverseE f xs = Inr (map g xs)"
  by (induction xs) simp_all

text \<open>The levels.\<close>

lemma levels_shown:
  assumes "qt_documented q" "levels_ok l"
  shows "createLoggerTab q l = Inr (map (\<lambda>i. m_level_names ! level_num (m_group_levels l ! i)) [0..<LOGGER_GROUP_MAX])"
  unfolding createLoggerTab_def
proof (rule traverse_map, rule ballI)
  fix i
  assume "i \<in> set [0..<LOGGER_GROUP_MAX]"
  then have i: "i < LOGGER_GROUP_MAX" by simp
  then have "m_group_levels l ! i \<noteq> LOGGER_LEVEL_MAX" using level_at [OF assms(2)] by simp
  moreover from this have "m_level_names ! level_num (m_group_levels l ! i) \<in> set m_level_names"
    by (cases "m_group_levels l ! i") (simp_all add: m_level_names_def level_num_def all_levels_def)
  ultimately show "bindE (getLevel i l) (\<lambda>level. mapE (box_text q m_level_names) (getLevelName level)) =
      Inr (m_level_names ! level_num (m_group_levels l ! i))"
    using assms i by (simp add: getLevel_def getLevelName_def levels_ok_def qt_documented_def)
qed

lemma levels_saved:
  assumes "levels_ok l"
  shows "saveLoggerGroups (map (\<lambda>i. m_level_names ! level_num (m_group_levels l ! i)) [0..<LOGGER_GROUP_MAX]) l = Inr l"
proof -
  have "foldE (\<lambda>i m. setLevel i (levelFromString (map (\<lambda>i. m_level_names ! level_num (m_group_levels l ! i)) [0..<LOGGER_GROUP_MAX] ! i)) m) is l = Inr l"
    if "\<forall>i \<in> set is. i < LOGGER_GROUP_MAX" for "is"
    using that
  proof (induction "is")
    case (Cons i js)
    then have "levelFromString (m_level_names ! level_num (m_group_levels l ! i)) = m_group_levels l ! i"
      using level_name_roundtrip [OF level_at [OF assms]] by (simp add: levelFromString_def getLevelName_def)
    with Cons assms show ?case by (simp add: setLevel_def levels_ok_def)
  qed simp
  then show ?thesis by (simp add: saveLoggerGroups_def)
qed

section \<open>The settings\<close>

lemma key_types: "k \<in> set all_keys \<Longrightarrow> key_type k \<in> {ST_U32, ST_BOOL}" "k \<in> set all_keys \<longleftrightarrow> k \<noteq> SETTING_GROUP_MAX" "distinct all_keys"
proof -
  show "k \<in> set all_keys \<Longrightarrow> key_type k \<in> {ST_U32, ST_BOOL}"
    by (auto simp: all_keys_def key_type_def default_u32s_def default_bools_def)
  show "k \<in> set all_keys \<longleftrightarrow> k \<noteq> SETTING_GROUP_MAX" by (cases k) (simp_all add: all_keys_def)
qed (simp add: all_keys_def)

text \<open>The value a setting has after its text was saved.\<close>

definition typed_u32 :: "qt \<Rightarrow> string \<Rightarrow> u32 option \<Rightarrow> u32 option" where
  "typed_u32 q text old = (case toUInt q text of Some v \<Rightarrow> Some v | None \<Rightarrow> old)"

definition typed_bool :: "qt \<Rightarrow> string \<Rightarrow> bool option \<Rightarrow> bool option" where
  "typed_bool q text old = (case toUInt q text of Some v \<Rightarrow> Some (v \<noteq> 0) | None \<Rightarrow> old)"

lemma saved_setting:
  assumes "settings_typed st" "k \<in> set all_keys"
  shows "\<exists>st'. save_setting q (k, t) st = Inr st' \<and> settings_typed st' \<and>
    m_u32_items st' = (if key_type k = ST_U32 then (m_u32_items st)(k := typed_u32 q t (m_u32_items st k)) else m_u32_items st) \<and>
    m_bool_items st' = (if key_type k = ST_BOOL then (m_bool_items st)(k := typed_bool q t (m_bool_items st k)) else m_bool_items st)"
proof -
  have k: "k \<noteq> SETTING_GROUP_MAX" "key_type k \<in> {ST_U32, ST_BOOL}" using assms(2) key_types by blast+
  show ?thesis
  proof (cases "key_type k = ST_U32")
    case True
    then obtain n where n: "m_u32_items st k = Some n" using typed_values [OF assms(1)] by blast
    show ?thesis
    proof (cases "toUInt q t")
      case None
      then show ?thesis
        using True assms(1) n
        by (simp add: save_setting_def saveSystemU32Setting_def typed_getType typed_u32_def fun_upd_idem)
    next
      case (Some v)
      have "{x. key_type x = ST_U32} = insert k {x. key_type x = ST_U32}" using True by auto
      then show ?thesis
        using True assms(1) n k(1) Some
        by (auto simp: save_setting_def saveSystemU32Setting_def typed_getType typed_u32_def setU32_def at_key_def settings_notify_def
            settings_typed_def)
    qed
  next
    case False
    then have b: "key_type k = ST_BOOL" using k(2) by simp
    then obtain x where n: "m_bool_items st k = Some x" using typed_values [OF assms(1)] by blast
    show ?thesis
    proof (cases "toUInt q t")
      case None
      then show ?thesis
        using b assms(1) n
        by (simp add: save_setting_def saveSystemBoolSetting_def typed_getType typed_bool_def fun_upd_idem)
    next
      case (Some v)
      have "{x. key_type x = ST_BOOL} = insert k {x. key_type x = ST_BOOL}" using b by auto
      then show ?thesis
        using b assms(1) n k(1) Some
        by (auto simp: save_setting_def saveSystemBoolSetting_def typed_getType typed_bool_def setBool_def at_key_def settings_notify_def
            settings_typed_def)
    qed
  qed
qed

lemma saved_settings:
  assumes "settings_typed st" "distinct ks" "set ks \<subseteq> set all_keys" "length es = length ks"
  shows "\<exists>st'. foldE (save_setting q) (zip ks es) st = Inr st' \<and> settings_typed st' \<and>
    (\<forall>k. m_u32_items st' k = (case map_of (zip ks es) k of
        Some t \<Rightarrow> if key_type k = ST_U32 then typed_u32 q t (m_u32_items st k) else m_u32_items st k | None \<Rightarrow> m_u32_items st k)) \<and>
    (\<forall>k. m_bool_items st' k = (case map_of (zip ks es) k of
        Some t \<Rightarrow> if key_type k = ST_BOOL then typed_bool q t (m_bool_items st k) else m_bool_items st k | None \<Rightarrow> m_bool_items st k))"
  using assms
proof (induction ks arbitrary: st es)
  case (Cons k ks)
  then obtain t es' where es: "es = t # es'" "length es' = length ks" by (cases es) auto
  obtain st1 where s1: "save_setting q (k, t) st = Inr st1" "settings_typed st1"
    "m_u32_items st1 = (if key_type k = ST_U32 then (m_u32_items st)(k := typed_u32 q t (m_u32_items st k)) else m_u32_items st)"
    "m_bool_items st1 = (if key_type k = ST_BOOL then (m_bool_items st)(k := typed_bool q t (m_bool_items st k)) else m_bool_items st)"
    using saved_setting [of st k q t] Cons.prems by auto
  have none: "map_of (zip ks es') k = None" using Cons.prems(2) by (auto simp: map_of_eq_None_iff dest: set_zip_leftD)
  obtain st2 where s2: "foldE (save_setting q) (zip ks es') st1 = Inr st2" "settings_typed st2"
    "\<forall>k. m_u32_items st2 k = (case map_of (zip ks es') k of
        Some t \<Rightarrow> if key_type k = ST_U32 then typed_u32 q t (m_u32_items st1 k) else m_u32_items st1 k | None \<Rightarrow> m_u32_items st1 k)"
    "\<forall>k. m_bool_items st2 k = (case map_of (zip ks es') k of
        Some t \<Rightarrow> if key_type k = ST_BOOL then typed_bool q t (m_bool_items st1 k) else m_bool_items st1 k | None \<Rightarrow> m_bool_items st1 k)"
    using Cons.IH [OF s1(2), of es'] Cons.prems es(2) by auto
  show ?case
    using s1(1) s2(1,2) none by (auto simp: es(1) s1(3,4) s2(3,4) split: option.split)
qed simp

text \<open>The texts a dialog shows: reading a typed setting changes nothing.\<close>

definition setting_text :: "qt \<Rightarrow> 'l settings \<Rightarrow> KeyID \<Rightarrow> string" where
  "setting_text q st k =
     number_edit q (if key_type k = ST_U32 then unat (the (m_u32_items st k)) else num_of_bool (the (m_bool_items st k)))"

lemma written_setting:
  assumes "settings_typed st" "k \<in> set all_keys"
  shows "writeSettingValue q k st = Inr (setting_text q st k, st)"
proof -
  have k: "k \<noteq> SETTING_GROUP_MAX" "key_type k \<in> {ST_U32, ST_BOOL}" using assms(2) key_types by blast+
  then consider n where "key_type k = ST_U32" "m_u32_items st k = Some n" | b where "key_type k = ST_BOOL" "m_bool_items st k = Some b"
    using typed_values [OF assms(1)] by blast
  then show ?thesis
    using k(1) by cases (simp_all add: writeSettingValue_def typed_getType [OF assms(1)] setting_text_def getU32_def getBool_def at_key_def)
qed

lemma settings_tab_shown:
  assumes "settings_typed st"
  shows "createSystemSettingsTab q st = Inr (map (setting_text q st) all_keys, st)"
proof -
  have "foldE (\<lambda>k (edits, st). mapE (\<lambda>(t, st'). (edits @ [t], st')) (writeSettingValue q k st)) ks (es, st) =
      Inr (es @ map (setting_text q st) ks, st)" if "set ks \<subseteq> set all_keys" for ks es
    using that by (induction ks arbitrary: es) (simp_all add: written_setting [OF assms])
  from this [of all_keys "[]"] show ?thesis by (simp add: createSystemSettingsTab_def)
qed

lemma number_read: "qt_documented q \<Longrightarrow> toUInt q (number_edit q (unat (n :: u32))) = Some n"
  using u32_text_fits [of n] by (simp add: number_edit_def qt_documented_def)




section \<open>The program\<close>

text \<open>What a dialog can show without changing it.\<close>

definition program_shown :: "qt \<Rightarrow> 'l program \<Rightarrow> bool" where
  "program_shown q g \<longleftrightarrow>
     qt_documented q \<and> settings_typed (pg_settings g) \<and> levels_ok (pg_logger g) \<and> ui_theme (app_gui (pg_app g)) \<in> {0, 1} \<and>
     shown_whole (m_file_logging_path (pg_app g)) QT_MAX_LENGTH \<and>
     (\<forall>p \<in> set (app_ports (pg_app g)). port_form_fits q (the (m_u32_items (pg_settings g) PortSettingDialog_maxLineEditLength)) (m_settings p)) \<and>
     (\<forall>f \<in> set (app_filters (pg_app g)). filter_form_fits q (filter_settings f))"

text \<open>The tabs of such a program, and what a reader of the settings sees.\<close>

lemma u32_keys: "key_type MainApplication_maxTerminalTraces = ST_U32" "key_type PortSettingDialog_maxLineEditLength = ST_U32"
  by (simp_all add: key_type_def default_u32s_def)

lemma theme_name: "i \<in> {0, 1} \<Longrightarrow> \<exists>n \<in> set theme_names. themeToName i = Inr n \<and> nameToTheme n = i"
  by (auto simp: themeToName_def nameToTheme_def theme_names_def THEMES_MAX_def)

lemma tabs_shown:
  assumes "program_shown q g"
  shows "\<exists>d. app_createTabs q g = Inr (d, g) \<and>
    notifyPortsChanges q (ad_ports d) (app_ports (pg_app g)) = Inr (app_ports (pg_app g)) \<and>
    notifyTraceFiltersChanges valid (ad_filters d) (app_filters (pg_app g)) = Inr (app_filters (pg_app g)) \<and>
    ad_path d = m_file_logging_path (pg_app g) \<and> nameToTheme (m_theme_combobox d) = ui_theme (app_gui (pg_app g)) \<and>
    toUInt q (m_max_traces_edit d) = m_u32_items (pg_settings g) MainApplication_maxTerminalTraces \<and>
    saveLoggerGroups (m_logger_comboboxes d) (pg_logger g) = Inr (pg_logger g) \<and>
    m_setting_lineedits d = map (setting_text q (pg_settings g)) all_keys"
proof -
  note ok = assms [unfolded program_shown_def]
  then have q: "qt_documented q" and st: "settings_typed (pg_settings g)" and lv: "levels_ok (pg_logger g)" by simp_all
  let ?maxlen = "the (m_u32_items (pg_settings g) PortSettingDialog_maxLineEditLength)"
  have same: "g\<lparr>pg_settings := pg_settings g\<rparr> = g" by simp
  obtain n where n: "n \<in> set theme_names" "themeToName (ui_theme (app_gui (pg_app g))) = Inr n" "nameToTheme n = ui_theme (app_gui (pg_app g))"
    using theme_name ok by metis
  have "box_text q theme_names n = n" using q n(1) by (simp add: qt_documented_def)
  then have general: "createGeneralTab q g = Inr ((n, number_edit q (unat (the (m_u32_items (pg_settings g) MainApplication_maxTerminalTraces)))), g)"
    using n(2) typed_getU32 [OF st u32_keys(1)] by (simp add: createGeneralTab_def)
  obtain ds where ds: "traverseE (\<lambda>p. port_createLayout q ?maxlen (m_settings p) (\<not> port_isOpened p) new_port_dialog) (app_ports (pg_app g)) = Inr ds"
    "notifyPortsChanges q ds (app_ports (pg_app g)) = Inr (app_ports (pg_app g))"
    using port_form.layouts_made [of "app_ports (pg_app g)" q ?maxlen m_settings "\<lambda>p. \<not> port_isOpened p"] ok port_form.untouched_notify
    unfolding notifyPortsChanges_def by blast
  then have ports: "createPortsTab q g = Inr (ds, g)" using typed_getU32 [OF st u32_keys(2)] by (simp add: createPortsTab_def)
  obtain fs where fs: "traverseE (\<lambda>f. Inr (filter_createLayout q (filter_settings f) (\<not> filteringActive f))) (app_filters (pg_app g)) = Inr fs"
    "notifyTraceFiltersChanges valid fs (app_filters (pg_app g)) = Inr (app_filters (pg_app g))"
    using filter_form.layouts_made [of "app_filters (pg_app g)" q filter_settings "\<lambda>f. \<not> filteringActive f"] ok filter_form.untouched_notify
    unfolding notifyTraceFiltersChanges_def by blast
  have "fs = createTraceFiltersTab q (pg_app g)"
    using fs(1) traverse_map [of "app_filters (pg_app g)" "\<lambda>f. Inr (filter_createLayout q (filter_settings f) (\<not> filteringActive f))"
        "\<lambda>f. filter_createLayout q (filter_settings f) (\<not> filteringActive f)"] by (simp add: createTraceFiltersTab_def)
  with fs(2) have filters: "notifyTraceFiltersChanges valid (createTraceFiltersTab q (pg_app g)) (app_filters (pg_app g)) = Inr (app_filters (pg_app g))"
    by simp
  have path: "logging_createLayout q (m_file_logging_path (pg_app g)) = m_file_logging_path (pg_app g)"
    using ok q by (simp add: logging_createLayout_def edit_whole)
  have traces: "toUInt q (number_edit q (unat (the (m_u32_items (pg_settings g) MainApplication_maxTerminalTraces)))) =
      m_u32_items (pg_settings g) MainApplication_maxTerminalTraces"
    using typed_values(1) [OF st] u32_keys(1) number_read [OF q] by auto
  show ?thesis
    using general ports levels_shown [OF q lv] settings_tab_shown [OF st, of q] ds(2) filters path traces n(3) levels_saved [OF lv] same
    by (simp add: app_createTabs_def createFileLoggerTab_def)
qed

text \<open>The theme and the number of traces are handled last.\<close>

lemma general_changes:
  assumes "notifyGeneralChanges q env d g = Inr g'"
  shows "pg_logger g' = pg_logger g" "m_bool_items (pg_settings g') = m_bool_items (pg_settings g)"
    "m_u32_items (pg_settings g') = (case toUInt q (m_max_traces_edit d) of
       Some n \<Rightarrow> if n \<noteq> 0 then (m_u32_items (pg_settings g))(MainApplication_maxTerminalTraces \<mapsto> n) else m_u32_items (pg_settings g)
     | None \<Rightarrow> m_u32_items (pg_settings g))"
proof -
  obtain a where a: "(case toUInt q (m_max_traces_edit d) of
        Some n \<Rightarrow>
          if n \<noteq> 0
          then mapE (\<lambda>(changed, st). g\<lparr>pg_app := a, pg_settings := st\<rparr>) (setU32 MainApplication_maxTerminalTraces n (pg_settings g))
          else Inr (g\<lparr>pg_app := a\<rparr>)
      | None \<Rightarrow> Inr (g\<lparr>pg_app := a\<rparr>)) = Inr g'"
    using assms unfolding notifyGeneralChanges_def bindE_Inr_iff by blast
  have "pg_logger g' = pg_logger g \<and> m_bool_items (pg_settings g') = m_bool_items (pg_settings g) \<and>
    m_u32_items (pg_settings g') = (case toUInt q (m_max_traces_edit d) of
       Some n \<Rightarrow> if n \<noteq> 0 then (m_u32_items (pg_settings g))(MainApplication_maxTerminalTraces \<mapsto> n) else m_u32_items (pg_settings g)
     | None \<Rightarrow> m_u32_items (pg_settings g))"
  proof (cases "toUInt q (m_max_traces_edit d)")
    case None
    then show ?thesis using a by auto
  next
    case (Some n)
    show ?thesis
    proof (cases "n = 0")
      case True
      then show ?thesis using a Some by auto
    next
      case False
      then have "g' = g\<lparr>pg_app := a, pg_settings := snd (projr (setU32 MainApplication_maxTerminalTraces n (pg_settings g)))\<rparr>"
        using a Some by (simp add: setU32_def Let_def case_prod_unfold)
      then show ?thesis
        using Some False
        by (cases "m_u32_items (pg_settings g) MainApplication_maxTerminalTraces")
          (simp_all add: setU32_def at_key_def settings_notify_def)
    qed
  qed
  then show "pg_logger g' = pg_logger g" "m_bool_items (pg_settings g') = m_bool_items (pg_settings g)"
    "m_u32_items (pg_settings g') = (case toUInt q (m_max_traces_edit d) of
       Some n \<Rightarrow> if n \<noteq> 0 then (m_u32_items (pg_settings g))(MainApplication_maxTerminalTraces \<mapsto> n) else m_u32_items (pg_settings g)
     | None \<Rightarrow> m_u32_items (pg_settings g))"
    by blast+
qed

lemma accepted:
  assumes "app_accept q env valid d g = Inr g'"
  obtains ports filters l st where
    "notifyPortsChanges q (ad_ports d) (app_ports (pg_app g)) = Inr ports"
    "notifyTraceFiltersChanges valid (ad_filters d) (app_filters (pg_app g)) = Inr filters"
    "saveLoggerGroups (m_logger_comboboxes d) (pg_logger g) = Inr l"
    "saveSystemSettingsGroup q (m_setting_lineedits d) (pg_settings g) = Inr st"
    "notifyGeneralChanges q env d
       \<lparr>pg_app = notifyFileLoggingChanges (ad_path d) ((pg_app g)\<lparr>app_ports := ports, app_filters := filters\<rparr>),
        pg_settings = st, pg_logger = l\<rparr> = Inr g'"
  using assms unfolding app_accept_def bindE_Inr_iff by blast

text \<open>Inputs leave the edit of the number of traces, and the number of the other edits, as they are.\<close>

definition same_general :: "app_dialog \<Rightarrow> app_dialog \<Rightarrow> bool" where
  "same_general d e \<longleftrightarrow>
     m_max_traces_edit e = m_max_traces_edit d \<and> length (m_setting_lineedits e) = length (m_setting_lineedits d)"

lemma inputs_same_general:
  assumes "foldE (app_input q maxlen) inputs d = Inr e" "\<forall>i \<in> set inputs. \<forall>t. i \<noteq> TypeMaxTraces t"
  shows "same_general d e"
  using assms
proof (induction inputs arbitrary: d)
  case (Cons i js)
  then obtain d1 where d1: "app_input q maxlen i d = Inr d1" "foldE (app_input q maxlen) js d1 = Inr e"
    by (auto simp: bindE_Inr_iff)
  have "same_general d d1" using d1(1) Cons.prems(2) by (cases i) (auto simp: app_input_def mapE_Inr_iff same_general_def)
  with Cons.IH [OF d1(2)] Cons.prems(2) show ?case by (simp add: same_general_def)
qed (simp add: same_general_def)

definition shown_example :: "nat program" where
  "shown_example = \<lparr>pg_app = example_app, pg_settings = settings_create, pg_logger = new_logger True Map.empty\<rparr>"

lemma shown_example_shown:
  "program_shown example_qt shown_example"
  "m_u32_items (pg_settings shown_example) MainApplication_maxTerminalTraces = Some 10000"
proof -
  have "the (m_u32_items (settings_create :: nat settings) PortSettingDialog_maxLineEditLength) = 30"
    by (simp add: settings_create_def default_u32s_def)
  moreover have "port_form_fits example_qt 30 (default_port_settings\<lparr>port_name := ''A''\<rparr>)"
    using example_qt_documented
    by (simp add: port_form_fits_def settings_named_def default_port_settings_def default_serial_settings_def settings_shown_whole_def
        shown_whole_def c_str_def QT_MAX_LENGTH_def)
  moreover have "shown_whole [] QT_MAX_LENGTH" by (simp add: shown_whole_def c_str_def)
  moreover have "levels_ok (new_logger True Map.empty)" by (simp add: levels_ok_def new_logger_def)
  ultimately show "program_shown example_qt shown_example"
    using created_typed example_qt_documented by (simp add: program_shown_def shown_example_def example_app_def)
  show "m_u32_items (pg_settings shown_example) MainApplication_maxTerminalTraces = Some 10000"
    by (simp add: shown_example_def settings_create_def default_u32s_def)
qed

section \<open>Properties\<close>



text \<open>
  C14. What the user types is what is stored: when the dialog is accepted, every number and every
  switch is what its line of text reads as, and as before where the text is not a number.
  One setting is shown twice: the maximum number of traces is what the general tab says,
  unless that is zero or not a number.
\<close>

theorem settings_dialog_stores_texts:
  assumes "settings_typed (pg_settings g)" "length (m_setting_lineedits d) = length all_keys" "app_accept q env valid d g = Inr g'"
    "i < length all_keys"
  shows "(key_type (all_keys ! i) = ST_U32 \<longrightarrow>
      m_u32_items (pg_settings g') (all_keys ! i) =
        (if all_keys ! i = MainApplication_maxTerminalTraces \<and> toUInt q (m_max_traces_edit d) \<notin> {None, Some 0}
         then toUInt q (m_max_traces_edit d)
         else typed_u32 q (m_setting_lineedits d ! i) (m_u32_items (pg_settings g) (all_keys ! i)))) \<and>
    (key_type (all_keys ! i) = ST_BOOL \<longrightarrow>
      m_bool_items (pg_settings g') (all_keys ! i) =
        typed_bool q (m_setting_lineedits d ! i) (m_bool_items (pg_settings g) (all_keys ! i)))"
proof -
  obtain st h where st: "saveSystemSettingsGroup q (m_setting_lineedits d) (pg_settings g) = Inr st"
    and h: "notifyGeneralChanges q env d h = Inr g'" "pg_settings h = st"
    by (rule accepted [OF assms(3)]) simp
  have z: "map_of (zip all_keys (m_setting_lineedits d)) (all_keys ! i) = Some (m_setting_lineedits d ! i)"
    using assms(2,4) key_types(3) by (metis map_of_zip_nth)
  have "m_u32_items st (all_keys ! i) = (if key_type (all_keys ! i) = ST_U32
        then typed_u32 q (m_setting_lineedits d ! i) (m_u32_items (pg_settings g) (all_keys ! i)) else m_u32_items (pg_settings g) (all_keys ! i))"
    "m_bool_items st (all_keys ! i) = (if key_type (all_keys ! i) = ST_BOOL
        then typed_bool q (m_setting_lineedits d ! i) (m_bool_items (pg_settings g) (all_keys ! i)) else m_bool_items (pg_settings g) (all_keys ! i))"
    using saved_settings [OF assms(1) key_types(3) subset_refl assms(2), of q] st z by (auto simp: saveSystemSettingsGroup_def)
  then show ?thesis using general_changes(2,3) [OF h(1)] h(2) by (auto split: option.splits)
qed

text \<open>A dialog in which the port of the logger was typed, accepted by an example.\<close>

definition typed_example :: app_dialog where
  "typed_example =
     \<lparr>ad_ports = [], ad_filters = [], ad_path = [], ad_path_editable = True, m_theme_combobox = ''DEFAULT'', m_max_traces_edit = ''500'',
      m_logger_comboboxes = [], m_setting_lineedits = (replicate (length all_keys) ''x'')[3 := ''80'']\<rparr>"

theorem settings_dialog_stores_texts_witness:
  "\<exists>g'. app_accept example_qt example_env (\<lambda>t. True) typed_example (shown_example\<lparr>pg_app := example_app\<lparr>app_ports := []\<rparr>\<rparr>) = Inr g' \<and>
     m_u32_items (pg_settings g') Logger_socketPort = Some 80"
proof -
  let ?g = "shown_example\<lparr>pg_app := example_app\<lparr>app_ports := []\<rparr>\<rparr>"
  have st: "settings_typed (pg_settings ?g)" "length (m_setting_lineedits typed_example) = length all_keys"
    using created_typed by (simp_all add: shown_example_def typed_example_def)
  obtain s where s: "saveSystemSettingsGroup example_qt (m_setting_lineedits typed_example) (pg_settings ?g) = Inr s"
    using saved_settings [OF st(1) key_types(3) subset_refl st(2), of example_qt] by (auto simp: saveSystemSettingsGroup_def)
  have "nameToTheme ''DEFAULT'' = 0" by code_simp
  then have "\<exists>g'. app_accept example_qt example_env (\<lambda>t. True) typed_example ?g = Inr g'"
    using s
    by (auto simp: app_accept_def typed_example_def shown_example_def example_app_def notifyPortsChanges_def notifyTraceFiltersChanges_def
        saveLoggerGroups_def notifyGeneralChanges_def saveThemeChange_def notifyFileLoggingChanges_def setU32_def Let_def case_prod_unfold
        split: option.split)
  then obtain g' where g': "app_accept example_qt example_env (\<lambda>t. True) typed_example ?g = Inr g'" by blast
  have "all_keys ! 3 = Logger_socketPort" "key_type Logger_socketPort = ST_U32" "3 < length all_keys" "m_setting_lineedits typed_example ! 3 = ''80''"
    by (simp_all add: all_keys_def key_type_def default_u32s_def typed_example_def)
  moreover have "toUInt example_qt ''80'' = Some 80" by code_simp
  ultimately have "m_u32_items (pg_settings g') Logger_socketPort = Some 80"
    using settings_dialog_stores_texts [OF st g', of 3] by (simp add: typed_u32_def)
  with g' show ?thesis by blast
qed

text \<open>
  So the maximum number of traces cannot be changed in the list of all settings: whatever the
  user types there and does elsewhere in the dialog, as long as the general tab's number is not
  touched the setting is as before.
\<close>

theorem general_tab_wins:
  assumes "program_shown q g" "m_u32_items (pg_settings g) MainApplication_maxTerminalTraces = Some n" "n \<noteq> 0"
    "\<forall>i \<in> set inputs. \<forall>t. i \<noteq> TypeMaxTraces t" "app_showDialog q env valid inputs True g = Inr (r, g')"
  shows "m_u32_items (pg_settings g') MainApplication_maxTerminalTraces = Some n"
proof -
  obtain d where d: "app_createTabs q g = Inr (d, g)" "toUInt q (m_max_traces_edit d) = m_u32_items (pg_settings g) MainApplication_maxTerminalTraces"
    using tabs_shown [OF assms(1), of valid] by blast
  have st: "settings_typed (pg_settings g)" using assms(1) by (simp add: program_shown_def)
  obtain e where e: "foldE (app_input q (the (m_u32_items (pg_settings g) PortSettingDialog_maxLineEditLength))) inputs d = Inr e"
    "app_accept q env valid e g = Inr g'"
    using assms(5) d(1) typed_getU32 [OF st u32_keys(2)] by (auto simp: app_showDialog_def bindE_Inr_iff mapE_Inr_iff)
  have "toUInt q (m_max_traces_edit e) = Some n"
    using inputs_same_general [OF e(1) assms(4)] d(2) assms(2) by (simp add: same_general_def)
  moreover obtain h where "notifyGeneralChanges q env e h = Inr g'" by (rule accepted [OF e(2)])
  ultimately show ?thesis using general_changes(3) [of q env e h g'] assms(3) by simp
qed

theorem general_tab_wins_witness:
  "\<exists>r g'. app_showDialog example_qt example_env (\<lambda>t. True) [TypeSetting 5 ''500''] True shown_example = Inr (r, g') \<and>
     m_u32_items (pg_settings g') MainApplication_maxTerminalTraces = Some 10000"
proof -
  obtain d where d: "app_createTabs example_qt shown_example = Inr (d, shown_example)"
    "notifyPortsChanges example_qt (ad_ports d) (app_ports (pg_app shown_example)) = Inr (app_ports (pg_app shown_example))"
    "notifyTraceFiltersChanges (\<lambda>t. True) (ad_filters d) (app_filters (pg_app shown_example)) = Inr (app_filters (pg_app shown_example))"
    "nameToTheme (m_theme_combobox d) = ui_theme (app_gui (pg_app shown_example))"
    "saveLoggerGroups (m_logger_comboboxes d) (pg_logger shown_example) = Inr (pg_logger shown_example)"
    "m_setting_lineedits d = map (setting_text example_qt (pg_settings shown_example)) all_keys"
    using tabs_shown [OF shown_example_shown(1), of "\<lambda>t. True"] by blast
  have st: "settings_typed (pg_settings shown_example)" using created_typed by (simp add: shown_example_def)
  let ?e = "d\<lparr>m_setting_lineedits := (m_setting_lineedits d)[5 := edit_text example_qt QT_MAX_LENGTH ''500'']\<rparr>"
  have "length (m_setting_lineedits ?e) = length all_keys" using d(6) by simp
  then obtain s where s: "saveSystemSettingsGroup example_qt (m_setting_lineedits ?e) (pg_settings shown_example) = Inr s"
    using saved_settings [OF st key_types(3) subset_refl, of "m_setting_lineedits ?e" example_qt] by (auto simp: saveSystemSettingsGroup_def)
  let ?a = "notifyFileLoggingChanges (ad_path ?e)
     ((pg_app shown_example)\<lparr>app_ports := app_ports (pg_app shown_example), app_filters := app_filters (pg_app shown_example)\<rparr>)"
  have "ui_theme (app_gui ?a) = ui_theme (app_gui (pg_app shown_example))" by (simp add: notifyFileLoggingChanges_def)
  then have "\<exists>g'. notifyGeneralChanges example_qt example_env ?e \<lparr>pg_app = ?a, pg_settings = s, pg_logger = pg_logger shown_example\<rparr> = Inr g'"
    using d(4) by (auto simp: notifyGeneralChanges_def saveThemeChange_def setU32_def Let_def case_prod_unfold split: option.split)
  then obtain g' where "app_accept example_qt example_env (\<lambda>t. True) ?e shown_example = Inr g'"
    using d(2,3,5) s by (auto simp: app_accept_def)
  then have g': "app_showDialog example_qt example_env (\<lambda>t. True) [TypeSetting 5 ''500''] True shown_example = Inr (Some True, g')"
    using d(1) typed_getU32 [OF st u32_keys(2)] by (simp add: app_showDialog_def app_input_def)
  have "\<forall>i \<in> set [TypeSetting 5 ''500'']. \<forall>t. i \<noteq> TypeMaxTraces t" by simp
  from general_tab_wins [OF shown_example_shown _ this g'] g' show ?thesis by simp
qed

text \<open>
  The form of a filter shows the pattern the filter was last used with, not the one in its line:
  a pattern that was typed but not yet used is lost when only the colour is changed here.
\<close>

theorem colour_change_loses_typed_pattern:
  assumes "qt_documented q" "\<not> filteringActive f" "valid (regex (filter_settings f))" "shown_whole (regex (filter_settings f)) QT_MAX_LENGTH"
    "c \<noteq> background (filter_settings f)"
  shows "\<exists>f'. notifyTraceFiltersChanges valid
      [filter_input q (PickFilterBackground (Some c)) (filter_createLayout q (filter_settings f) (\<not> filteringActive f))] [f] = Inr [f'] \<and>
    getTraceFilter (filter_id (filter_settings f)) f' = regex (filter_settings f) \<and> background (filter_settings f') = c"
proof -
  let ?s = "filter_settings f"
  define d where "d = filter_input q (PickFilterBackground (Some c)) (filter_createLayout q ?s (\<not> filteringActive f))"
  define s where "s = filter_convertGuiValues d"
  have s: "regex s = regex ?s" "filter_id s = filter_id ?s" "background s = c"
    using assms(2,4) edit_whole [OF assms(1)]
    by (simp_all add: s_def d_def filter_input_def filter_createLayout_def filter_convertGuiValues_def)
  have "s \<noteq> ?s" using s(3) assms(5) by metis
  have "c_str (regex s) = regex s" using s(1) assms(4) by (simp add: shown_whole_def)
  then have "\<exists>f'. filter_setSettings valid s f = Inr (True, f') \<and> getTraceFilter (filter_id ?s) f' = regex ?s \<and> background (filter_settings f') = c"
    using assms(2,3) s by (simp add: filter_setSettings_def filter_ops)
  then obtain f' where f': "filter_setSettings valid s f = Inr (True, f')" "getTraceFilter (filter_id ?s) f' = regex ?s"
    "background (filter_settings f') = c" by blast
  have "notifyTraceFiltersChanges valid [d] [f] = Inr [f']"
    using \<open>s \<noteq> ?s\<close> f'(1) by (simp add: notifyTraceFiltersChanges_def s_def [symmetric])
  with f'(2,3) show ?thesis unfolding d_def by blast
qed

theorem colour_change_loses_typed_pattern_witness:
  "\<exists>f f'. filter_create example_colours 1 5 (\<lambda>i. ''typed'') (\<lambda>i. True) = Inr f \<and> getTraceFilter 1 f = ''typed'' \<and>
     notifyTraceFiltersChanges (\<lambda>t. True)
       [filter_input example_qt (PickFilterBackground (Some 7)) (filter_createLayout example_qt (filter_settings f) (\<not> filteringActive f))] [f] =
     Inr [f'] \<and> getTraceFilter 1 f' = []"
proof -
  have "\<exists>f. filter_create example_colours 1 5 (\<lambda>i. ''typed'') (\<lambda>i. True) = Inr f \<and> \<not> filteringActive f \<and> regex (filter_settings f) = [] \<and>
      filter_id (filter_settings f) = 1 \<and> getTraceFilter 1 f = ''typed'' \<and> background (filter_settings f) \<noteq> 7"
    by (simp add: filter_create_def filter_ops example_colours_def)
  then obtain f where f: "filter_create example_colours 1 5 (\<lambda>i. ''typed'') (\<lambda>i. True) = Inr f" "\<not> filteringActive f"
    "regex (filter_settings f) = []" "filter_id (filter_settings f) = 1" "getTraceFilter 1 f = ''typed''" "7 \<noteq> background (filter_settings f)"
    by metis
  have "shown_whole (regex (filter_settings f)) QT_MAX_LENGTH" using f(3) by (simp add: shown_whole_def c_str_def)
  from colour_change_loses_typed_pattern [OF example_qt_documented f(2) _ this f(6), of "\<lambda>t. True"] f(1,3,4,5) show ?thesis by auto
qed

end
