(* ===== verification/Interleaving.thy ===== *)
theory Interleaving
  imports Prelude
begin

text \<open>
  Threads as an interleaving of labelled atomic steps: runs of a step relation, invariants over
  all runs, and systems whose runs are bounded by a rank, which is how a wait is shown to end.
\<close>

inductive run :: "('s \<Rightarrow> 'm \<Rightarrow> 's \<Rightarrow> bool) \<Rightarrow> 's \<Rightarrow> 'm list \<Rightarrow> 's \<Rightarrow> bool" for step where
  run_nil: "run step s [] s"
| run_cons: "\<lbrakk>step s m t; run step t ms u\<rbrakk> \<Longrightarrow> run step s (m # ms) u"

inductive_simps run_Nil [simp]: "run step s [] t"
inductive_simps run_Cons: "run step s (m # ms) u"

lemma run_append: "run step s (xs @ ys) u \<longleftrightarrow> (\<exists>t. run step s xs t \<and> run step t ys u)"
  by (induction xs arbitrary: s) (auto simp: run_Cons)

lemma run_single [simp]: "run step s [m] t \<longleftrightarrow> step s m t"
  by (simp add: run_Cons)

lemma run_mono: "run step s ms t \<Longrightarrow> (\<And>s m t. step s m t \<Longrightarrow> step' s m t) \<Longrightarrow> run step' s ms t"
  by (induction rule: run.induct) (auto intro: run.intros)

section \<open>Invariants\<close>

locale invariant_system =
  fixes init :: 's
    and step :: "'s \<Rightarrow> 'm \<Rightarrow> 's \<Rightarrow> bool"
    and inv :: "'s \<Rightarrow> bool"
  assumes inv_init: "inv init"
    and inv_step: "step s m t \<Longrightarrow> inv s \<Longrightarrow> inv t"
begin

lemma inv_from: "run step s ms t \<Longrightarrow> inv s \<Longrightarrow> inv t"
  by (induction rule: run.induct) (auto intro: inv_step)

lemma inv_reached: "run step init ms s \<Longrightarrow> inv s"
  using inv_from inv_init by blast

end

text \<open>Invariants that relate the state to the moves that led to it.\<close>

locale traced_system =
  fixes init :: 's
    and step :: "'s \<Rightarrow> 'm \<Rightarrow> 's \<Rightarrow> bool"
    and inv :: "'m list \<Rightarrow> 's \<Rightarrow> bool"
  assumes trace_init: "inv [] init"
    and trace_step: "step s m t \<Longrightarrow> inv ms s \<Longrightarrow> inv (ms @ [m]) t"
begin

lemma trace_reached: "run step init ms s \<Longrightarrow> inv ms s"
proof (induction ms arbitrary: s rule: rev_induct)
  case (snoc m ms)
  then show ?case using trace_step by (auto simp: run_append)
qed (simp add: trace_init)

end

section \<open>Runs that must end\<close>

text \<open>
  While the wait is on, every step brings the system closer to its end, and there is a step:
  so no run of the wait is longer than the rank of the state it starts in, and one that has not
  ended can go on.
\<close>

locale bounded_wait =
  fixes step :: "'s \<Rightarrow> 'm \<Rightarrow> 's \<Rightarrow> bool"
    and inv :: "'s \<Rightarrow> bool"
    and waiting :: "'s \<Rightarrow> bool"
    and rank :: "'s \<Rightarrow> nat"
  assumes wait_inv: "step s m t \<Longrightarrow> inv s \<Longrightarrow> waiting s \<Longrightarrow> inv t"
    and wait_rank: "step s m t \<Longrightarrow> inv s \<Longrightarrow> waiting s \<Longrightarrow> rank t < rank s"
    and wait_progress: "inv s \<Longrightarrow> waiting s \<Longrightarrow> \<exists>m t. step s m t"
begin

lemma wait_ends:
  assumes "run (\<lambda>s m t. waiting s \<and> step s m t) s ms t" "inv s"
  shows "inv t \<and> length ms + rank t \<le> rank s \<and> (waiting t \<longrightarrow> (\<exists>m u. step t m u))"
  using assms
proof (induction rule: run.induct)
  case (run_nil s)
  then show ?case using wait_progress by simp
next
  case (run_cons s m t ms u)
  then have "inv t" "rank t < rank s" using wait_inv wait_rank by blast+
  with run_cons.IH show ?case by simp
qed

text \<open>So every maximal run of the wait ends it.\<close>

lemma wait_over_exists:
  "inv s \<Longrightarrow> \<exists>ms t. run (\<lambda>s m t. waiting s \<and> step s m t) s ms t \<and> \<not> waiting t"
proof (induction "rank s" arbitrary: s rule: less_induct)
  case less
  show ?case
  proof (cases "waiting s")
    case True
    then obtain m t where t: "step s m t" using wait_progress less.prems by blast
    then obtain ms u where "run (\<lambda>s m t. waiting s \<and> step s m t) t ms u" "\<not> waiting u"
      using less.hyps [of t] wait_rank wait_inv less.prems True by blast
    then show ?thesis using t True run_cons [of "\<lambda>s m t. waiting s \<and> step s m t" s m t ms u] by blast
  qed (auto intro!: exI [of _ "[]"])
qed

end

end
