(* ===== verification/ThreadWorker.thy ===== *)
theory ThreadWorker
  imports Interleaving
begin

text \<open>
  \<open>sw/Utilities/source/ThreadWorker.cpp\<close>: a thread with a state that \<open>start\<close>, \<open>stop\<close>
  and the thread itself set under one mutex. One owner calls \<open>start\<close> and \<open>stop\<close>; the
  worker function is the loop all its users write, \<open>while (isRunning()) round\<close>, which may
  also be left from within a round.
\<close>

section \<open>State\<close>

datatype ThreadState = TS_INIT | TS_STARTING | TS_RUNNING | TS_STOPPING | TS_STOPPED | TS_ERROR

text \<open>
  The thread: not there (never started, or joined), before \<open>execute\<close> sets the state, at the
  condition of the loop, in a round of it, after the worker function, or finished and not joined.
\<close>

datatype thread_pc = T_None | T_Begin | T_Check | T_Round | T_Leave | T_Done

text \<open>
  The owner: outside, in the wait of \<open>start\<close>, in the join of \<open>stop\<close>, or stopped by
  \<open>std::terminate\<close>, which assigning to a joinable thread calls.
\<close>

datatype owner_pc = O_Out | O_Starting | O_Joining | O_Terminated

record thread_worker =
  tw_state :: ThreadState
  tw_thread :: thread_pc
  tw_owner :: owner_pc
  tw_result :: bool

definition worker_init :: thread_worker where
  "worker_init = \<lparr>tw_state = TS_STOPPED, tw_thread = T_None, tw_owner = O_Out, tw_result = False\<rparr>"

definition tw_isRunning :: "thread_worker \<Rightarrow> bool" where
  "tw_isRunning w \<longleftrightarrow> tw_state w = TS_RUNNING"

section \<open>The operations\<close>

definition worker_start :: "thread_worker \<Rightarrow> thread_worker" where
  "worker_start w =
     (if tw_thread w = T_None
      then w\<lparr>tw_state := TS_STOPPED, tw_thread := T_Begin, tw_owner := O_Starting\<rparr>
      else w\<lparr>tw_state := TS_STOPPED, tw_owner := O_Terminated\<rparr>)"

text \<open>The wait of \<open>start\<close> ends with its condition or, with a timeout, at any time.\<close>

definition start_over :: "thread_worker \<Rightarrow> thread_worker" where
  "start_over w = w\<lparr>tw_owner := O_Out, tw_result := tw_isRunning w\<rparr>"

definition worker_stop :: "thread_worker \<Rightarrow> thread_worker" where
  "worker_stop w =
     (let join = (tw_state w \<noteq> TS_STOPPING)
      in w\<lparr>tw_state := TS_STOPPING, tw_owner := if join \<and> tw_thread w \<noteq> T_None then O_Joining else O_Out\<rparr>)"

definition joined :: "thread_worker \<Rightarrow> thread_worker" where
  "joined w = w\<lparr>tw_thread := T_None, tw_owner := O_Out\<rparr>"

text \<open>The thread's next statement; \<open>leave\<close> says that a round leaves the loop by itself.\<close>

definition execute_step :: "bool \<Rightarrow> thread_worker \<Rightarrow> thread_worker" where
  "execute_step leave w =
     (case tw_thread w of
        T_Begin \<Rightarrow> w\<lparr>tw_state := TS_RUNNING, tw_thread := T_Check\<rparr>
      | T_Check \<Rightarrow> w\<lparr>tw_thread := if tw_isRunning w then T_Round else T_Leave\<rparr>
      | T_Round \<Rightarrow> w\<lparr>tw_thread := if leave then T_Leave else T_Check\<rparr>
      | T_Leave \<Rightarrow> w\<lparr>tw_state := TS_STOPPED, tw_thread := T_Done\<rparr>
      | _ \<Rightarrow> w)"

datatype worker_move = Start | StartOver | Stop | Joined | Execute bool

inductive worker_step :: "thread_worker \<Rightarrow> worker_move \<Rightarrow> thread_worker \<Rightarrow> bool" where
  step_start: "tw_owner w = O_Out \<Longrightarrow> worker_step w Start (worker_start w)"
| step_start_over: "tw_owner w = O_Starting \<Longrightarrow> worker_step w StartOver (start_over w)"
| step_stop: "tw_owner w = O_Out \<Longrightarrow> worker_step w Stop (worker_stop w)"
| step_joined: "tw_owner w = O_Joining \<Longrightarrow> tw_thread w = T_Done \<Longrightarrow> worker_step w Joined (joined w)"
| step_execute: "tw_thread w \<notin> {T_None, T_Done} \<Longrightarrow> worker_step w (Execute leave) (execute_step leave w)"

inductive_simps worker_step_simps [simp]:
  "worker_step w Start v" "worker_step w StartOver v" "worker_step w Stop v" "worker_step w Joined v" "worker_step w (Execute leave) v"

inductive_cases worker_stepE: "worker_step w m v"

lemmas worker_ops = worker_start_def start_over_def worker_stop_def joined_def execute_step_def tw_isRunning_def

section \<open>What always holds\<close>

definition worker_ok :: "thread_worker \<Rightarrow> bool" where
  "worker_ok w \<longleftrightarrow>
     (tw_state w = TS_RUNNING \<longrightarrow> tw_thread w \<in> {T_Check, T_Round, T_Leave}) \<and>
     (tw_state w = TS_STOPPED \<longrightarrow> tw_owner w \<noteq> O_Terminated \<longrightarrow> tw_thread w \<in> {T_None, T_Begin, T_Done}) \<and>
     (tw_owner w = O_Joining \<longrightarrow> tw_thread w \<noteq> T_None) \<and> (tw_owner w = O_Starting \<longrightarrow> tw_thread w \<noteq> T_None) \<and>
     (tw_owner w \<in> {O_Out, O_Starting} \<and> tw_thread w \<noteq> T_None \<longrightarrow> tw_state w \<noteq> TS_STOPPING) \<and>
     tw_state w \<in> {TS_RUNNING, TS_STOPPING, TS_STOPPED}"

interpretation worker: invariant_system worker_init worker_step "\<lambda>w. tw_owner w = O_Terminated \<or> worker_ok w"
proof unfold_locales
  show "tw_owner worker_init = O_Terminated \<or> worker_ok worker_init" by (simp add: worker_init_def worker_ok_def)
  fix w m v
  assume "worker_step w m v" "tw_owner w = O_Terminated \<or> worker_ok w"
  then show "tw_owner v = O_Terminated \<or> worker_ok v"
    by (cases rule: worker_stepE)
      (cases "tw_thread w"; cases "tw_state w"; force simp: worker_ops worker_ok_def Let_def split: if_splits)+
qed

section \<open>The join of \<open>stop\<close>\<close>

definition join_rank :: "thread_worker \<Rightarrow> nat" where
  "join_rank w =
     (if tw_owner w = O_Joining
      then (case tw_thread w of T_Round \<Rightarrow> 4 | T_Check \<Rightarrow> 3 | T_Leave \<Rightarrow> 2 | T_Done \<Rightarrow> 1 | _ \<Rightarrow> 0)
      else 0)"

definition join_ok :: "thread_worker \<Rightarrow> bool" where
  "join_ok w \<longleftrightarrow> (tw_owner w = O_Joining \<longrightarrow> tw_state w \<noteq> TS_RUNNING \<and> tw_thread w \<notin> {T_None, T_Begin})"

interpretation join: bounded_wait worker_step join_ok "\<lambda>w. tw_owner w = O_Joining" join_rank
proof unfold_locales
  fix w m v
  assume a: "worker_step w m v" "join_ok w" "tw_owner w = O_Joining"
  then have "join_ok v \<and> join_rank v < join_rank w"
    by (cases rule: worker_stepE) (cases "tw_thread w"; force simp: worker_ops join_ok_def join_rank_def split: if_splits)+
  then show "join_ok v" "join_rank v < join_rank w" by simp_all
next
  fix w
  assume "join_ok w" "tw_owner w = O_Joining"
  then have "tw_thread w = T_Done \<or> tw_thread w \<notin> {T_None, T_Done}" "tw_owner w = O_Joining" by (auto simp: join_ok_def)
  then show "\<exists>m v. worker_step w m v" using step_joined [of w] step_execute [of w True] by blast
qed

lemma stop_waits:
  assumes "worker_ok w" "tw_owner w = O_Out" "tw_thread w \<notin> {T_None, T_Begin}"
  shows "join_ok (worker_stop w) \<and> tw_owner (worker_stop w) = O_Joining \<and> join_rank (worker_stop w) \<le> 4"
  using assms by (cases "tw_thread w") (auto simp: worker_ok_def worker_stop_def join_ok_def join_rank_def Let_def)

section \<open>Properties\<close>

text \<open>
  \<open>stop\<close> returns: whatever was done before, once the thread has begun, the join after
  \<open>stop\<close> is over after at most four further steps of thread and owner, in whatever order they
  come; until then there always is a next step, and at the end the thread is gone.
\<close>

theorem stop_returns:
  "\<lbrakk>run worker_step worker_init ms w; tw_owner w = O_Out; tw_thread w \<notin> {T_None, T_Begin}\<rbrakk> \<Longrightarrow>
   worker_step w Stop (worker_stop w) \<and>
   (\<forall>ns v. run (\<lambda>s m t. tw_owner s = O_Joining \<and> worker_step s m t) (worker_stop w) ns v \<longrightarrow>
      length ns \<le> 4 \<and> (tw_owner v = O_Joining \<longrightarrow> (\<exists>m u. worker_step v m u))) \<and>
   (\<exists>ns v. run (\<lambda>s m t. tw_owner s = O_Joining \<and> worker_step s m t) (worker_stop w) ns v \<and> tw_owner v \<noteq> O_Joining)"
proof -
  assume a: "run worker_step worker_init ms w" "tw_owner w = O_Out" "tw_thread w \<notin> {T_None, T_Begin}"
  have "worker_ok w" using worker.inv_reached [OF a(1)] a(2) by simp
  note s = stop_waits [OF this a(2,3)]
  have "length ns \<le> 4 \<and> (tw_owner v = O_Joining \<longrightarrow> (\<exists>m u. worker_step v m u))"
    if "run (\<lambda>s m t. tw_owner s = O_Joining \<and> worker_step s m t) (worker_stop w) ns v" for ns v
    using join.wait_ends [OF that] s by auto
  then show ?thesis using join.wait_over_exists [of "worker_stop w"] s step_stop [OF a(2)] by blast
qed

theorem stop_returns_witness:
  "\<exists>ns v. run (\<lambda>s m t. tw_owner s = O_Joining \<and> worker_step s m t)
     (worker_stop \<lparr>tw_state = TS_RUNNING, tw_thread = T_Round, tw_owner = O_Out, tw_result = True\<rparr>) ns v \<and> tw_owner v \<noteq> O_Joining"
proof -
  let ?w = "\<lparr>tw_state = TS_RUNNING, tw_thread = T_Round, tw_owner = O_Out, tw_result = True\<rparr>"
  have "run worker_step worker_init [Start, Execute False, StartOver, Execute False] ?w"
    by (simp add: run_Cons worker_init_def worker_ops)
  from stop_returns [OF this] show ?thesis by simp
qed

text \<open>
  When \<open>start\<close> gives up waiting before the thread has begun, a \<open>stop\<close> that follows is
  overtaken: the thread sets the state to running after \<open>stop\<close> set it to stopping, its loop
  goes on, and the join never ends unless a round leaves the loop by itself.
\<close>

theorem late_thread_ignores_stop:
  "\<lbrakk>run worker_step worker_init ms w; tw_owner w = O_Out; tw_thread w = T_Begin\<rbrakk> \<Longrightarrow>
   \<exists>v. run worker_step w [Stop, Execute False] v \<and>
     (\<forall>ns u. run worker_step v ns u \<and> Execute True \<notin> set ns \<longrightarrow> tw_owner u = O_Joining \<and> tw_isRunning u)"
proof -
  assume a: "run worker_step worker_init ms w" "tw_owner w = O_Out" "tw_thread w = T_Begin"
  have ok: "worker_ok w" using worker.inv_reached [OF a(1)] a(2) by simp
  let ?v = "execute_step False (worker_stop w)"
  have v: "run worker_step w [Stop, Execute False] ?v" "tw_owner ?v = O_Joining" "tw_state ?v = TS_RUNNING" "tw_thread ?v = T_Check"
    using a(2,3) ok by (simp_all add: run_Cons worker_ops worker_ok_def Let_def)
  have "tw_owner u = O_Joining \<and> tw_state u = TS_RUNNING \<and> tw_thread u \<in> {T_Check, T_Round}"
    if "run worker_step x ns u" "Execute True \<notin> set ns" "tw_owner x = O_Joining \<and> tw_state x = TS_RUNNING \<and> tw_thread x \<in> {T_Check, T_Round}"
    for x ns u
    using that
  proof (induction rule: run.induct)
    case (run_cons s m t ns u)
    have "m \<noteq> Execute True" using run_cons.prems(1) by auto
    with run_cons.hyps(1) have "tw_owner t = O_Joining \<and> tw_state t = TS_RUNNING \<and> tw_thread t \<in> {T_Check, T_Round}"
      using run_cons.prems(2) by (cases rule: worker_stepE) (auto simp: worker_ops split: if_splits)
    then show ?case using run_cons.IH run_cons.prems(1) by simp
  qed simp
  then show ?thesis using v unfolding tw_isRunning_def by blast
qed

theorem late_thread_ignores_stop_witness:
  "\<exists>v. run worker_step (worker_init\<lparr>tw_thread := T_Begin\<rparr>) [Stop, Execute False] v \<and> tw_owner v = O_Joining \<and> tw_isRunning v"
proof -
  have "run worker_step worker_init [Start, StartOver] (worker_init\<lparr>tw_thread := T_Begin\<rparr>)"
    by (simp add: run_Cons worker_init_def worker_ops)
  from late_thread_ignores_stop [OF this]
  obtain v where v: "run worker_step (worker_init\<lparr>tw_thread := T_Begin\<rparr>) [Stop, Execute False] v"
    "\<forall>ns u. run worker_step v ns u \<and> Execute True \<notin> set ns \<longrightarrow> tw_owner u = O_Joining \<and> tw_isRunning u"
    by (auto simp: worker_init_def)
  from v(2) have "tw_owner v = O_Joining \<and> tw_isRunning v" using run_nil [of worker_step v] by fastforce
  with v(1) show ?thesis by blast
qed

text \<open>A loop that was left from within a round leaves a thread nobody joined; the next \<open>start\<close> ends the program.\<close>

lemma restart_after_leaving:
  "\<exists>w. run worker_step worker_init [Start, Execute False, StartOver, Execute False, Execute True, Execute False, Start] w \<and>
     tw_owner w = O_Terminated"
  by (simp add: run_Cons worker_init_def worker_ops)

end
