(* ===== verification/ProcessDriver.thy ===== *)
theory ProcessDriver
  imports Interleaving DriverReceive
begin

text \<open>
  \<open>sw/Drivers/source/ProcessDriver.cpp\<close>: the driver of a port that runs a command. First the
  reading loop over the answers of \<open>epoll_wait\<close> and \<open>read\<close>, then the driver's states as an
  interleaving of its caller and its thread, with the pipes, the \<open>epoll\<close> descriptors and the
  child process it owns.
\<close>

section \<open>Reading the output\<close>








section \<open>The driver and its thread\<close>

datatype process_state = PS_STOPPED | PS_STARTING | PS_RUNNING | PS_STOPPING | PS_EXITING

text \<open>
  The thread: at the loop's condition, in the wait, at the test for \<open>RUNNING\<close>, in the reading
  loop, before it sets \<open>STOPPED\<close>, before it stops the process and closes the pipes, or gone.
\<close>

datatype process_pc = P_Check | P_Wait | P_Branch | P_Read | P_SetStopped | P_Cleanup | P_Ended

datatype process_caller = PC_Out | PC_WaitStarted | PC_WaitStopped | PC_Destroy | PC_Join | PC_Gone

record process_driver =
  ps_state :: process_state
  ps_pc :: process_pc
  ps_caller :: process_caller
  ps_worker :: bool
  ps_pipes :: nat
  ps_epolls :: nat
  ps_child :: bool
  ps_runs :: nat
  ps_result :: bool

definition process_init :: process_driver where
  "process_init =
     \<lparr>ps_state = PS_STOPPED, ps_pc = P_Check, ps_caller = PC_Out, ps_worker = True, ps_pipes = 0, ps_epolls = 0, ps_child = False,
      ps_runs = 0, ps_result = False\<rparr>"

definition isStarted :: "process_driver \<Rightarrow> bool" where
  "isStarted p \<longleftrightarrow> ps_state p = PS_STARTING \<or> ps_state p = PS_RUNNING"

definition process_start :: "process_driver \<Rightarrow> process_driver" where
  "process_start p =
     (if \<not> isStarted p then p\<lparr>ps_state := PS_STARTING, ps_caller := PC_WaitStarted\<rparr> else p\<lparr>ps_result := False\<rparr>)"

definition process_start_over :: "process_driver \<Rightarrow> process_driver" where
  "process_start_over p = p\<lparr>ps_caller := PC_Out, ps_result := (ps_state p = PS_RUNNING)\<rparr>"

definition process_stop :: "process_driver \<Rightarrow> process_driver" where
  "process_stop p = (if isStarted p then p\<lparr>ps_state := PS_STOPPING, ps_caller := PC_WaitStopped\<rparr> else p)"

text \<open>The destructor after its call of \<open>stop\<close>.\<close>

definition process_exit :: "process_driver \<Rightarrow> process_driver" where
  "process_exit p = p\<lparr>ps_state := PS_EXITING, ps_caller := PC_Destroy\<rparr>"

definition process_stop_worker :: "process_driver \<Rightarrow> process_driver" where
  "process_stop_worker p = p\<lparr>ps_worker := False, ps_caller := PC_Join\<rparr>"

text \<open>
  One step of \<open>receivingThread\<close>. Starting opens a pair of pipes (if \<open>piped\<close>) and forks the
  process (if \<open>forked\<close>); entering the reading loop opens an \<open>epoll\<close> descriptor; \<open>leave\<close>
  says that the loop leaves itself.
\<close>

definition process_request :: "bool \<Rightarrow> bool \<Rightarrow> process_driver \<Rightarrow> process_driver" where
  "process_request piped forked p =
     (if ps_state p = PS_STARTING
      then (p\<lparr>ps_pipes := if piped then ps_pipes p + 1 else ps_pipes p, ps_pc := P_Branch\<rparr>)
             \<lparr>ps_state := if forked then PS_RUNNING else PS_STARTING, ps_child := forked, ps_runs := if forked then ps_runs p + 1 else ps_runs p\<rparr>
      else if ps_state p = PS_EXITING then p\<lparr>ps_pc := P_Ended\<rparr>
      else p\<lparr>ps_pc := P_Branch\<rparr>)"

definition process_thread :: "bool \<Rightarrow> bool \<Rightarrow> bool \<Rightarrow> process_driver \<Rightarrow> process_driver" where
  "process_thread piped forked leave p =
     (case ps_pc p of
        P_Check \<Rightarrow> p\<lparr>ps_pc := if ps_worker p then P_Wait else P_Ended\<rparr>
      | P_Wait \<Rightarrow> process_request piped forked p
      | P_Branch \<Rightarrow> if ps_state p = PS_RUNNING then p\<lparr>ps_pc := P_Read, ps_epolls := ps_epolls p + 1\<rparr> else p\<lparr>ps_pc := P_SetStopped\<rparr>
      | P_Read \<Rightarrow> if ps_state p = PS_RUNNING \<and> \<not> leave then p else p\<lparr>ps_pc := P_SetStopped\<rparr>
      | P_SetStopped \<Rightarrow> p\<lparr>ps_state := PS_STOPPED, ps_pc := P_Cleanup\<rparr>
      | P_Cleanup \<Rightarrow> p\<lparr>ps_child := False, ps_pipes := 0, ps_pc := P_Check\<rparr>
      | P_Ended \<Rightarrow> p)"

datatype process_move = PStart | PStartOver | PStop | PStopOver | PExit | PStopWorker | PJoined | PThread bool bool bool

inductive process_step :: "process_driver \<Rightarrow> process_move \<Rightarrow> process_driver \<Rightarrow> bool" where
  pr_start: "ps_caller p = PC_Out \<Longrightarrow> process_step p PStart (process_start p)"
| pr_start_over: "ps_caller p = PC_WaitStarted \<Longrightarrow> process_step p PStartOver (process_start_over p)"
| pr_stop: "ps_caller p = PC_Out \<Longrightarrow> process_step p PStop (process_stop p)"
| pr_stop_over: "ps_caller p = PC_WaitStopped \<Longrightarrow> process_step p PStopOver (p\<lparr>ps_caller := PC_Out\<rparr>)"
| pr_exit: "ps_caller p = PC_Out \<Longrightarrow> \<not> isStarted p \<Longrightarrow> process_step p PExit (process_exit p)"
| pr_stop_worker: "ps_caller p = PC_Destroy \<Longrightarrow> process_step p PStopWorker (process_stop_worker p)"
| pr_joined: "ps_caller p = PC_Join \<Longrightarrow> ps_pc p = P_Ended \<Longrightarrow> process_step p PJoined (p\<lparr>ps_caller := PC_Gone\<rparr>)"
| pr_thread: "ps_pc p \<noteq> P_Ended \<Longrightarrow> ps_pc p = P_Wait \<longrightarrow> ps_state p \<noteq> PS_STOPPED \<Longrightarrow>
    process_step p (PThread piped forked leave) (process_thread piped forked leave p)"

inductive_simps process_step_simps [simp]:
  "process_step p PStart q" "process_step p PStartOver q" "process_step p PStop q" "process_step p PStopOver q" "process_step p PExit q"
  "process_step p PStopWorker q" "process_step p PJoined q" "process_step p (PThread piped forked leave) q"

inductive_cases process_stepE: "process_step p m q"

text \<open>Every move has one result, so a run is a computation.\<close>

lemma process_run_simps [simp]:
  "run process_step p (PStart # ms) q \<longleftrightarrow> ps_caller p = PC_Out \<and> run process_step (process_start p) ms q"
  "run process_step p (PStartOver # ms) q \<longleftrightarrow> ps_caller p = PC_WaitStarted \<and> run process_step (process_start_over p) ms q"
  "run process_step p (PStop # ms) q \<longleftrightarrow> ps_caller p = PC_Out \<and> run process_step (process_stop p) ms q"
  "run process_step p (PStopOver # ms) q \<longleftrightarrow> ps_caller p = PC_WaitStopped \<and> run process_step (p\<lparr>ps_caller := PC_Out\<rparr>) ms q"
  "run process_step p (PExit # ms) q \<longleftrightarrow> ps_caller p = PC_Out \<and> \<not> isStarted p \<and> run process_step (process_exit p) ms q"
  "run process_step p (PStopWorker # ms) q \<longleftrightarrow> ps_caller p = PC_Destroy \<and> run process_step (process_stop_worker p) ms q"
  "run process_step p (PThread x y z # ms) q \<longleftrightarrow>
     ps_pc p \<noteq> P_Ended \<and> (ps_pc p = P_Wait \<longrightarrow> ps_state p \<noteq> PS_STOPPED) \<and> run process_step (process_thread x y z p) ms q"
  by (auto simp: run_Cons)

lemmas process_ops = process_start_def process_start_over_def process_stop_def process_exit_def process_stop_worker_def
  process_request_def process_thread_def isStarted_def

section \<open>What always holds\<close>

definition process_ok :: "process_driver \<Rightarrow> bool" where
  "process_ok p \<longleftrightarrow>
     (ps_pc p \<in> {P_Check, P_Wait, P_Ended} \<longrightarrow> ps_pipes p = 0 \<and> \<not> ps_child p \<and> ps_state p \<noteq> PS_RUNNING) \<and> ps_pipes p \<le> 1 \<and>
     (ps_state p = PS_RUNNING \<longrightarrow> ps_pc p \<in> {P_Branch, P_Read, P_SetStopped}) \<and>
     ps_epolls p \<le> ps_runs p \<and> (ps_pc p = P_Branch \<and> ps_child p \<longrightarrow> ps_epolls p < ps_runs p) \<and>
     (ps_pc p \<in> {P_Branch} \<and> ps_state p = PS_RUNNING \<longrightarrow> ps_child p) \<and>
     (ps_caller p \<in> {PC_Destroy, PC_Join, PC_Gone} \<longrightarrow> ps_state p \<in> {PS_EXITING, PS_STOPPED}) \<and>
     (ps_caller p = PC_WaitStopped \<longrightarrow> ps_state p \<in> {PS_STOPPING, PS_STOPPED}) \<and>
     (ps_pc p = P_Ended \<or> ps_state p = PS_EXITING \<longrightarrow> ps_caller p \<in> {PC_Destroy, PC_Join, PC_Gone}) \<and>
     (\<not> ps_worker p \<longrightarrow> ps_caller p \<in> {PC_Join, PC_Gone})"

interpretation process: invariant_system process_init process_step process_ok
proof unfold_locales
  show "process_ok process_init" by (simp add: process_init_def process_ok_def)
  fix p m q
  assume "process_step p m q" "process_ok p"
  then show "process_ok q"
    by (cases rule: process_stepE) (cases "ps_pc p"; cases "ps_state p"; force simp: process_ops process_ok_def split: if_splits)+
qed

section \<open>The wait of \<open>stop\<close>\<close>




section \<open>A whole life of a process\<close>

definition process_idle :: "nat \<Rightarrow> process_driver \<Rightarrow> bool" where
  "process_idle n p \<longleftrightarrow>
     ps_pc p = P_Wait \<and> ps_caller p = PC_Out \<and> ps_state p = PS_STOPPED \<and> ps_worker p \<and> ps_pipes p = 0 \<and> ps_epolls p = n"

definition one_process :: "process_move list" where
  "one_process =
     [PStart, PThread True True False, PStartOver, PThread True True False, PStop, PThread True True False, PThread True True False,
      PStopOver, PThread True True False, PThread True True False]"

lemma one_process_run: "process_idle n p \<Longrightarrow> \<exists>q. run process_step p one_process q \<and> process_idle (Suc n) q"
  by (simp add: one_process_def process_ops process_idle_def)

lemma first_wait: "run process_step process_init [PThread True True True] (process_init\<lparr>ps_pc := P_Wait\<rparr>)"
  by (simp add: process_init_def process_ops)

lemma processes_run: "\<exists>ms p. run process_step process_init ms p \<and> process_idle n p"
proof (induction n)
  case 0
  have "process_idle 0 (process_init\<lparr>ps_pc := P_Wait\<rparr>)" by (simp add: process_idle_def process_init_def)
  then show ?case using first_wait by blast
next
  case (Suc n)
  then obtain ms p q where "run process_step process_init ms p" "run process_step p one_process q" "process_idle (Suc n) q"
    using one_process_run by blast
  then have "run process_step process_init (ms @ one_process) q" by (auto simp: run_append)
  then show ?case using \<open>process_idle (Suc n) q\<close> by blast
qed

section \<open>Properties\<close>





text \<open>
  Between processes the driver owns nothing but \<open>epoll\<close> descriptors: no pipe is open and
  no process runs when its thread waits for a request, and never more than one pair of pipes is
  open. But each process that is read from leaves an \<open>epoll\<close> descriptor open for ever: any
  number of them can be open while the driver is idle.
\<close>

theorem process_releases_all_but_epoll:
  "(\<forall>ms p. run process_step process_init ms p \<longrightarrow>
      ps_pipes p \<le> 1 \<and> (ps_pc p \<in> {P_Check, P_Wait, P_Ended} \<longrightarrow> ps_pipes p = 0 \<and> \<not> ps_child p)) \<and>
   (\<exists>ms p. run process_step process_init ms p \<and> ps_pc p = P_Wait \<and> ps_caller p = PC_Out \<and> ps_state p = PS_STOPPED \<and> ps_epolls p = n)"
  using process.inv_reached processes_run [of n] unfolding process_ok_def process_idle_def by blast

theorem process_releases_all_but_epoll_witness:
  "\<exists>ms p. run process_step process_init ms p \<and> ps_pc p = P_Wait \<and> ps_epolls p = 3 \<and> ps_pipes p = 0 \<and> \<not> ps_child p"
  using process_releases_all_but_epoll [of 3] by blast

text \<open>
  A request can be lost: the thread sets \<open>STOPPED\<close> without the mutex, and after a \<open>stop\<close>
  that gave up waiting it overwrites what came in between. A \<open>start\<close> then reports a failure
  though nothing failed, and a destructor's \<open>EXITING\<close> disappears: the thread waits for a
  request that never comes, and the destructor waits for the thread.
\<close>

theorem process_requests_can_be_lost:
  "(\<exists>ms p. run process_step process_init (ms @ [PStart, PThread True True False, PStartOver]) p \<and>
      ps_state p = PS_STOPPED \<and> \<not> ps_result p \<and> PThread True False False \<notin> set ms) \<and>
   (\<exists>ms p. run process_step process_init ms p \<and> ps_caller p = PC_Join \<and> ps_pc p = P_Wait \<and> (\<forall>m q. \<not> process_step p m q))"
proof
  let ?slow = "[PThread True True True, PStart, PThread True True False, PStartOver, PThread True True False, PStop, PStopOver, PThread True True False]"
  have "\<exists>p. run process_step process_init (?slow @ [PStart, PThread True True False, PStartOver]) p \<and> ps_state p = PS_STOPPED \<and> \<not> ps_result p"
    by (simp add: process_ops process_init_def)
  then show "\<exists>ms p. run process_step process_init (ms @ [PStart, PThread True True False, PStartOver]) p \<and>
      ps_state p = PS_STOPPED \<and> \<not> ps_result p \<and> PThread True False False \<notin> set ms"
    by (intro exI [of _ ?slow]) auto
  let ?exit = "?slow @ [PExit, PThread True True False, PThread True True False, PThread True True False, PStopWorker]"
  have "\<exists>p. run process_step process_init ?exit p \<and> ps_caller p = PC_Join \<and> ps_pc p = P_Wait \<and> ps_state p = PS_STOPPED"
    by (simp add: process_ops process_init_def)
  then obtain p where p: "run process_step process_init ?exit p" "ps_caller p = PC_Join" "ps_pc p = P_Wait" "ps_state p = PS_STOPPED"
    by blast
  have "\<not> process_step p m q" for m q
    using p(2-4) by (auto elim!: process_stepE)
  then show "\<exists>ms p. run process_step process_init ms p \<and> ps_caller p = PC_Join \<and> ps_pc p = P_Wait \<and> (\<forall>m q. \<not> process_step p m q)"
    using p(1-3) by blast
qed

end
