(* ===== verification/SocketServers.thy ===== *)
theory SocketServers
  imports Interleaving DriverReceive
begin

text \<open>
  \<open>sw/Drivers/source/SocketServer.cpp\<close> and \<open>sw/Drivers/source/QtSocketServer.cpp\<close>: the
  listening thread that accepts clients, the handlers' threads that post events, the working
  thread that takes them from the queue, and \<open>start\<close>, \<open>stop\<close> and \<open>write\<close>. The events the
  handlers post are those of their receive loops; the operating system's tables of open
  descriptors are part of the state.
\<close>

section \<open>State\<close>

datatype server_event = CLIENT_CONNECTED int | CLIENT_DATA_RECV int bytes | CLIENT_LOST int

datatype queued_event = Queued_Data int bytes | Queued_Gone int

text \<open>The listening thread: not started, in its loop, or about to report a client.\<close>

datatype listening_pc = SL_None | SL_Loop | SL_Notify int

record server =
  srv_fd :: int
  srv_open :: "int list"
  srv_listening :: listening_pc
  srv_working :: bool
  srv_handlers :: "int list"
  srv_running :: "int list"
  srv_clients :: "int list"
  srv_events :: "queued_event list"
  srv_notified :: "server_event list"

text \<open>The constructor starts the working thread.\<close>

definition server_init :: server where
  "server_init =
     \<lparr>srv_fd = - 1, srv_open = [], srv_listening = SL_None, srv_working = True, srv_handlers = [], srv_running = [], srv_clients = [],
      srv_events = [], srv_notified = []\<rparr>"

section \<open>Operations\<close>

text \<open>
  \<open>start\<close>: the descriptor \<open>socket\<close> answers with, whether both options and the port could be
  set. A socket that cannot be bound stays open.
\<close>

definition server_start :: "u16 \<Rightarrow> int \<Rightarrow> bool \<Rightarrow> server \<Rightarrow> bool \<times> server" where
  "server_start port fd bound s =
     (if port = 0 then (False, s)
      else if fd \<noteq> - 1
      then (bound, s\<lparr>srv_fd := fd, srv_open := fd # srv_open s, srv_listening := if bound then SL_Loop else srv_listening s\<rparr>)
      else (False, s\<lparr>srv_fd := - 1\<rparr>))"

definition server_notify :: "server_event \<Rightarrow> server \<Rightarrow> server" where
  "server_notify e s = s\<lparr>srv_notified := srv_notified s @ [e]\<rparr>"

text \<open>\<open>closeAllClients\<close>: each handler is stopped (its thread is joined), closed and reported.\<close>

definition closeAllClients :: "server \<Rightarrow> server" where
  "closeAllClients s =
     s\<lparr>srv_running := [], srv_clients := filter (\<lambda>c. c \<notin> set (srv_handlers s)) (srv_clients s),
       srv_notified := srv_notified s @ map CLIENT_LOST (srv_handlers s), srv_handlers := []\<rparr>"

definition server_stop :: "server \<Rightarrow> server" where
  "server_stop s =
     closeAllClients (s\<lparr>srv_listening := SL_None, srv_working := False, srv_open := removeAll (srv_fd s) (srv_open s), srv_fd := - 1\<rparr>)"

text \<open>One round of \<open>listening_thread\<close> with a new client; \<open>started\<close> says whether its handler's thread is.\<close>

definition server_accept :: "int \<Rightarrow> bool \<Rightarrow> server \<Rightarrow> server" where
  "server_accept c started s =
     (if started
      then s\<lparr>srv_handlers := srv_handlers s @ [c], srv_running := c # srv_running s, srv_clients := c # srv_clients s,
             srv_listening := SL_Notify c\<rparr>
      else s)"

text \<open>\<open>storeEvent\<close> copies as many bytes as it is told.\<close>

definition storeEvent :: "handler_event \<Rightarrow> queued_event list \<Rightarrow> queued_event list res" where
  "storeEvent e q =
     (case e of
        CLIENT_DISCONNECTED c \<Rightarrow> Inr (q @ [Queued_Gone c])
      | DATA_RECEIVED c data sz \<Rightarrow> if sz \<le> length data then Inr (q @ [Queued_Data c (take sz data)]) else Inl OutOfBounds)"

definition event_client :: "handler_event \<Rightarrow> int" where
  "event_client e = (case e of CLIENT_DISCONNECTED c \<Rightarrow> c | DATA_RECEIVED c data sz \<Rightarrow> c)"

text \<open>\<open>onClientEvent\<close>, called by a handler's thread, which ends after reporting the disconnection.\<close>

definition server_onClientEvent :: "handler_event \<Rightarrow> server \<Rightarrow> server res" where
  "server_onClientEvent e s =
     mapE (\<lambda>q. s\<lparr>srv_events := q,
                 srv_running := (case e of CLIENT_DISCONNECTED c \<Rightarrow> removeAll c (srv_running s) | _ \<Rightarrow> srv_running s)\<rparr>)
       (storeEvent e (srv_events s))"

definition closeClient :: "int \<Rightarrow> server \<Rightarrow> server" where
  "closeClient c s =
     (if c \<in> set (srv_handlers s)
      then s\<lparr>srv_handlers := remove1 c (srv_handlers s), srv_running := removeAll c (srv_running s), srv_clients := removeAll c (srv_clients s)\<rparr>
      else s)"

text \<open>The body of the inner loop of \<open>worker_thread\<close>.\<close>

definition server_work :: "server \<Rightarrow> server" where
  "server_work s =
     (case srv_events s of
        [] \<Rightarrow> s
      | Queued_Data c d # q \<Rightarrow> server_notify (CLIENT_DATA_RECV c d) (s\<lparr>srv_events := q\<rparr>)
      | Queued_Gone c # q \<Rightarrow> server_notify (CLIENT_LOST c) (closeClient c (s\<lparr>srv_events := q\<rparr>)))"

definition clientsCount :: "server \<Rightarrow> nat" where
  "clientsCount s = length (srv_handlers s)"

text \<open>\<open>write\<close> to all clients; the printed complaints name the clients.\<close>

definition server_write :: "(int \<Rightarrow> bool) \<Rightarrow> server \<Rightarrow> bool \<times> int list" where
  "server_write write_to s =
     fold (\<lambda>c (result, complaints). let r = result \<or> write_to c in (r, if r then complaints else complaints @ [c])) (srv_handlers s) (False, [])"

section \<open>The threads\<close>

datatype server_move =
    Srv_Start u16 int bool
  | Srv_Stop
  | Srv_Accept int bool
  | Srv_Connected
  | Srv_Event handler_event
  | Srv_Work

inductive server_step :: "server \<Rightarrow> server_move \<Rightarrow> server \<Rightarrow> bool" where
  srv_start: "srv_listening s = SL_None \<Longrightarrow> fd \<notin> set (srv_open s) \<Longrightarrow> server_step s (Srv_Start port fd bound) (snd (server_start port fd bound s))"
| srv_stop: "srv_listening s \<in> {SL_None, SL_Loop} \<Longrightarrow> server_step s Srv_Stop (server_stop s)"
| srv_accept: "srv_listening s = SL_Loop \<Longrightarrow> c \<notin> set (srv_clients s) \<Longrightarrow> server_step s (Srv_Accept c started) (server_accept c started s)"
| srv_connected: "srv_listening s = SL_Notify c \<Longrightarrow>
    server_step s Srv_Connected (server_notify (CLIENT_CONNECTED c) (s\<lparr>srv_listening := SL_Loop\<rparr>))"
| srv_event: "event_client e \<in> set (srv_running s) \<Longrightarrow> server_onClientEvent e s = Inr t \<Longrightarrow> server_step s (Srv_Event e) t"
| srv_work: "srv_working s \<Longrightarrow> srv_events s \<noteq> [] \<Longrightarrow> server_step s Srv_Work (server_work s)"

inductive_cases server_stepE: "server_step s m t"

inductive_simps server_step_simps [simp]:
  "server_step s (Srv_Start port fd bound) t" "server_step s Srv_Stop t" "server_step s (Srv_Accept c started) t"
  "server_step s Srv_Connected t" "server_step s (Srv_Event e) t" "server_step s Srv_Work t"

text \<open>Every move has one result, so a run is a computation.\<close>

lemma server_run_simps [simp]:
  "run server_step s (Srv_Start port fd bound # ms) t \<longleftrightarrow>
     srv_listening s = SL_None \<and> fd \<notin> set (srv_open s) \<and> run server_step (snd (server_start port fd bound s)) ms t"
  "run server_step s (Srv_Stop # ms) t \<longleftrightarrow> srv_listening s \<in> {SL_None, SL_Loop} \<and> run server_step (server_stop s) ms t"
  "run server_step s (Srv_Accept c started # ms) t \<longleftrightarrow>
     srv_listening s = SL_Loop \<and> c \<notin> set (srv_clients s) \<and> run server_step (server_accept c started s) ms t"
  "run server_step s (Srv_Work # ms) t \<longleftrightarrow> srv_working s \<and> srv_events s \<noteq> [] \<and> run server_step (server_work s) ms t"
  by (auto simp: run_Cons)

lemma server_run_connected:
  "srv_listening s = SL_Notify c \<Longrightarrow>
   run server_step s (Srv_Connected # ms) t \<longleftrightarrow> run server_step (server_notify (CLIENT_CONNECTED c) (s\<lparr>srv_listening := SL_Loop\<rparr>)) ms t"
  "event_client e \<in> set (srv_running s) \<Longrightarrow> server_onClientEvent e s = Inr u \<Longrightarrow>
   run server_step s (Srv_Event e # ms) t \<longleftrightarrow> run server_step u ms t"
  by (auto simp: run_Cons)

lemmas server_ops = server_start_def server_stop_def closeAllClients_def server_accept_def server_onClientEvent_def storeEvent_def
  event_client_def closeClient_def server_work_def server_notify_def

section \<open>What always holds\<close>

text \<open>The data among the notifications, in the queue, and posted by the moves of a run.\<close>

fun notified_data :: "server_event list \<Rightarrow> (int \<times> bytes) list" where
  "notified_data [] = []"
| "notified_data (CLIENT_DATA_RECV c d # es) = (c, d) # notified_data es"
| "notified_data (e # es) = notified_data es"

fun queued_data :: "queued_event list \<Rightarrow> (int \<times> bytes) list" where
  "queued_data [] = []"
| "queued_data (Queued_Data c d # es) = (c, d) # queued_data es"
| "queued_data (e # es) = queued_data es"

fun posted_data :: "server_move list \<Rightarrow> (int \<times> bytes) list" where
  "posted_data [] = []"
| "posted_data (Srv_Event (DATA_RECEIVED c data sz) # ms) = (c, take sz data) # posted_data ms"
| "posted_data (m # ms) = posted_data ms"

fun accepted :: "server_move list \<Rightarrow> int list" where
  "accepted [] = []"
| "accepted (Srv_Accept c started # ms) = (if started then c # accepted ms else accepted ms)"
| "accepted (m # ms) = accepted ms"

lemma data_append [simp]:
  "notified_data (xs @ ys) = notified_data xs @ notified_data ys" "queued_data (as @ bs) = queued_data as @ queued_data bs"
  "posted_data (ms @ ns) = posted_data ms @ posted_data ns" "accepted (ms @ ns) = accepted ms @ accepted ns"
proof -
  show "notified_data (xs @ ys) = notified_data xs @ notified_data ys" by (induction xs rule: notified_data.induct) simp_all
  show "queued_data (as @ bs) = queued_data as @ queued_data bs" by (induction as rule: queued_data.induct) simp_all
  show "posted_data (ms @ ns) = posted_data ms @ posted_data ns" by (induction ms rule: posted_data.induct) simp_all
  show "accepted (ms @ ns) = accepted ms @ accepted ns" by (induction ms rule: accepted.induct) simp_all
qed

lemma notified_lost [simp]: "notified_data (map CLIENT_LOST cs) = []"
  by (induction cs) simp_all

definition lost_count :: "int \<Rightarrow> server \<Rightarrow> nat" where
  "lost_count c s = count_list (srv_notified s) (CLIENT_LOST c)"

text \<open>A handler whose thread has ended has exactly one event of its end in the queue.\<close>

definition ends_queued :: "server \<Rightarrow> bool" where
  "ends_queued s \<longleftrightarrow>
     (\<forall>c. count_list (srv_events s) (Queued_Gone c) = (if c \<in> set (srv_handlers s) \<and> c \<notin> set (srv_running s) then 1 else 0))"

definition server_ok :: "server \<Rightarrow> bool" where
  "server_ok s \<longleftrightarrow>
     distinct (srv_handlers s) \<and> set (srv_clients s) = set (srv_handlers s) \<and> distinct (srv_clients s) \<and>
     set (srv_running s) \<subseteq> set (srv_handlers s) \<and> (srv_working s \<longrightarrow> ends_queued s)"

definition server_traced :: "server_move list \<Rightarrow> server \<Rightarrow> bool" where
  "server_traced ms s \<longleftrightarrow>
     server_ok s \<and> notified_data (srv_notified s) @ queued_data (srv_events s) = posted_data ms \<and>
     (\<forall>c. count_list (accepted ms) c = lost_count c s + (if c \<in> set (srv_handlers s) then 1 else 0))"

lemma count_append [simp]: "count_list (xs @ ys) x = count_list xs x + count_list ys x"
  by (induction xs) simp_all

lemma count_map_lost [simp]: "distinct cs \<Longrightarrow> count_list (map CLIENT_LOST cs) (CLIENT_LOST c) = (if c \<in> set cs then 1 else 0)"
  by (induction cs) auto

text \<open>Each move keeps it.\<close>

lemma start_traced:
  "server_traced ms s \<Longrightarrow> server_traced (ms @ [Srv_Start port fd bound]) (snd (server_start port fd bound s))"
  by (auto simp: server_traced_def server_start_def server_ok_def ends_queued_def lost_count_def)

lemma stop_traced: "server_traced ms s \<Longrightarrow> server_traced (ms @ [Srv_Stop]) (server_stop s)"
  by (auto simp: server_traced_def server_stop_def closeAllClients_def server_ok_def lost_count_def)

lemma accept_traced:
  assumes "server_traced ms s" "c \<notin> set (srv_clients s)"
  shows "server_traced (ms @ [Srv_Accept c started]) (server_accept c started s)"
  using assms by (auto simp: server_traced_def server_accept_def server_ok_def ends_queued_def lost_count_def)

lemma connected_traced:
  "server_traced ms s \<Longrightarrow> server_traced (ms @ [Srv_Connected]) (server_notify (CLIENT_CONNECTED c) (s\<lparr>srv_listening := SL_Loop\<rparr>))"
  by (auto simp: server_traced_def server_notify_def server_ok_def ends_queued_def lost_count_def)

lemma event_traced:
  assumes "server_traced ms s" "event_client e \<in> set (srv_running s)" "server_onClientEvent e s = Inr t"
  shows "server_traced (ms @ [Srv_Event e]) t"
proof (cases e)
  case (CLIENT_DISCONNECTED c)
  then show ?thesis
    using assms by (auto simp: server_traced_def server_onClientEvent_def storeEvent_def event_client_def server_ok_def ends_queued_def lost_count_def)
next
  case (DATA_RECEIVED c data sz)
  then show ?thesis
    using assms
    by (auto simp: server_traced_def server_onClientEvent_def storeEvent_def event_client_def server_ok_def ends_queued_def lost_count_def split: if_splits)
qed

lemma work_traced:
  assumes "server_traced ms s" "srv_working s" "srv_events s \<noteq> []"
  shows "server_traced (ms @ [Srv_Work]) (server_work s)"
proof (cases "srv_events s")
  case (Cons e q)
  show ?thesis
  proof (cases e)
    case (Queued_Data c d)
    then show ?thesis
      using assms Cons
      by (auto simp: server_traced_def server_work_def server_notify_def server_ok_def ends_queued_def lost_count_def)
  next
    case (Queued_Gone c)
    have ok: "server_ok s" "ends_queued s" using assms(1,2) by (simp_all add: server_traced_def server_ok_def)
    then have "count_list (srv_events s) (Queued_Gone c) = (if c \<in> set (srv_handlers s) \<and> c \<notin> set (srv_running s) then 1 else 0)"
      by (simp add: ends_queued_def)
    then have c: "c \<in> set (srv_handlers s)" "c \<notin> set (srv_running s)" "count_list q (Queued_Gone c) = 0"
      using Cons Queued_Gone by (auto split: if_splits)
    have "ends_queued (closeClient c (s\<lparr>srv_events := q\<rparr>))"
      using ok c Cons Queued_Gone by (auto simp: ends_queued_def closeClient_def server_ok_def split: if_splits)
    then show ?thesis
      using assms Cons Queued_Gone c ok
      by (auto simp: server_traced_def server_work_def server_notify_def closeClient_def server_ok_def lost_count_def ends_queued_def
          distinct_removeAll)
  qed
qed (use assms in simp)

interpretation server: traced_system server_init server_step server_traced
proof unfold_locales
  show "server_traced [] server_init"
    by (simp add: server_traced_def server_init_def server_ok_def ends_queued_def lost_count_def)
  show "server_traced (ms @ [m]) t" if "server_step s m t" "server_traced ms s" for s m t ms
    using that
    by (cases rule: server_stepE)
      (auto intro: start_traced stop_traced accept_traced connected_traced event_traced work_traced)
qed

section \<open>What a client sends\<close>






section \<open>Properties\<close>

text \<open>
  C20. Whatever clients come and go, however the threads interleave and whenever the server is
  stopped and started: a client's descriptor is open as long as it has a handler, and every
  client that was accepted is reported lost exactly once or still has its handler.
\<close>

theorem server_clients_once:
  "run server_step server_init ms s \<Longrightarrow>
   set (srv_clients s) = set (srv_handlers s) \<and> distinct (srv_handlers s) \<and> set (srv_running s) \<subseteq> set (srv_handlers s) \<and>
   count_list (srv_notified s) (CLIENT_LOST c) + (if c \<in> set (srv_handlers s) then 1 else 0) = count_list (accepted ms) c"
  using server.trace_reached [of ms s] by (simp add: server_traced_def server_ok_def lost_count_def)

theorem server_clients_once_witness:
  "\<exists>s. run server_step server_init [Srv_Start 80 3 True, Srv_Accept 7 True, Srv_Connected, Srv_Stop] s \<and>
     srv_clients s = [] \<and> count_list (srv_notified s) (CLIENT_LOST 7) = 1"
proof -
  obtain s where s: "run server_step server_init [Srv_Start 80 3 True, Srv_Accept 7 True, Srv_Connected, Srv_Stop] s" "srv_handlers s = []"
    by (simp add: server_run_connected server_ops server_init_def)
  then show ?thesis using server_clients_once [OF s(1), of 7] by auto
qed



text \<open>
  The listeners are told of a client after its handler was started, so its first data, and even
  its end, can be reported before the client.
\<close>

theorem data_before_connected:
  "\<exists>ms s. run server_step server_init ms s \<and>
     srv_notified s = [CLIENT_DATA_RECV 7 [65, 10], CLIENT_LOST 7, CLIENT_CONNECTED 7]"
proof -
  let ?ms = "[Srv_Start 80 3 True, Srv_Accept 7 True, Srv_Event (DATA_RECEIVED 7 [65, 10] 2), Srv_Event (CLIENT_DISCONNECTED 7),
    Srv_Work, Srv_Work, Srv_Connected]"
  have "\<exists>s. run server_step server_init ?ms s \<and> srv_notified s = [CLIENT_DATA_RECV 7 [65, 10], CLIENT_LOST 7, CLIENT_CONNECTED 7]"
    by (simp add: server_run_connected server_ops server_init_def)
  then show ?thesis by blast
qed

text \<open>Without the working thread no data is delivered and no end of a client noticed.\<close>

lemma idle_worker:
  "run server_step s ns t \<Longrightarrow> \<not> srv_working s \<Longrightarrow>
   \<not> srv_working t \<and> notified_data (srv_notified t) = notified_data (srv_notified s) \<and>
   (Srv_Stop \<notin> set ns \<longrightarrow> (\<forall>c. lost_count c t = lost_count c s))"
proof (induction rule: run.induct)
  case (run_cons s m t ns u)
  from run_cons.hyps(1) run_cons.prems
  have "\<not> srv_working t \<and> notified_data (srv_notified t) = notified_data (srv_notified s) \<and>
      (m \<noteq> Srv_Stop \<longrightarrow> (\<forall>c. lost_count c t = lost_count c s))"
    by (cases rule: server_stepE) (auto simp: server_ops lost_count_def split: if_splits handler_event.splits)
  then show ?case using run_cons.IH by auto
qed simp

text \<open>
  Only the constructor starts the working thread, and \<open>stop\<close> ends it: a server that is started
  again accepts clients and reports them, but never delivers anything they send, nor notices
  that they are gone.
\<close>

theorem restarted_server_is_deaf:
  "\<lbrakk>run server_step r (Srv_Stop # Srv_Start port fd True # ns) s; Srv_Stop \<notin> set ns\<rbrakk> \<Longrightarrow>
   notified_data (srv_notified s) = notified_data (srv_notified r) \<and>
   (\<forall>c. count_list (srv_notified s) (CLIENT_LOST c) = count_list (srv_notified (server_stop r)) (CLIENT_LOST c))"
proof -
  assume a: "run server_step r (Srv_Stop # Srv_Start port fd True # ns) s" "Srv_Stop \<notin> set ns"
  have w: "\<not> srv_working (server_stop r)" "notified_data (srv_notified (server_stop r)) = notified_data (srv_notified r)"
    by (simp_all add: server_stop_def closeAllClients_def)
  have "run server_step (server_stop r) (Srv_Start port fd True # ns) s" using a(1) by simp
  from idle_worker [OF this w(1)] w(2) a(2) show ?thesis by (simp add: lost_count_def)
qed

theorem restarted_server_is_deaf_witness:
  "\<exists>s. run server_step server_init [Srv_Stop, Srv_Start 80 3 True, Srv_Accept 7 True, Srv_Connected, Srv_Event (DATA_RECEIVED 7 [65, 10] 2),
        Srv_Event (CLIENT_DISCONNECTED 7)] s \<and>
     notified_data (srv_notified s) = [] \<and> count_list (srv_notified s) (CLIENT_LOST 7) = 0 \<and> srv_events s \<noteq> []"
proof -
  obtain s where s: "run server_step server_init (Srv_Stop # Srv_Start 80 3 True # [Srv_Accept 7 True, Srv_Connected,
      Srv_Event (DATA_RECEIVED 7 [65, 10] 2), Srv_Event (CLIENT_DISCONNECTED 7)]) s" "srv_events s \<noteq> []"
    by (simp add: server_run_connected server_ops server_init_def)
  from restarted_server_is_deaf [OF s(1)] s show ?thesis by (auto simp: server_init_def server_ops)
qed

text \<open>
  Limits that are none. The number of clients given to \<open>start\<close> is only the backlog of
  \<open>listen\<close>: any number of clients is accepted. A \<open>start\<close> that cannot bind leaves its socket
  open. And \<open>write\<close> succeeds when any client could be written to, and without a complaint about
  those after it.
\<close>

lemma accepts_any: "\<exists>ms s. run server_step server_init ms s \<and> clientsCount s = n \<and> srv_listening s = SL_Loop \<and> (\<forall>c \<in> set (srv_clients s). c < int n)"
proof (induction n)
  case 0
  have "run server_step server_init [Srv_Start 80 3 True] (snd (server_start 80 3 True server_init))" by (simp add: server_init_def)
  moreover have "clientsCount (snd (server_start 80 3 True server_init)) = 0"
    "srv_listening (snd (server_start 80 3 True server_init)) = SL_Loop" "srv_clients (snd (server_start 80 3 True server_init)) = []"
    by (simp_all add: server_start_def server_init_def clientsCount_def)
  ultimately show ?case by (metis empty_iff list.set(1))
next
  case (Suc n)
  then obtain ms s where s: "run server_step server_init ms s" "clientsCount s = n" "srv_listening s = SL_Loop" "\<forall>c \<in> set (srv_clients s). c < int n"
    by blast
  let ?u = "server_accept (int n) True s"
  let ?t = "server_notify (CLIENT_CONNECTED (int n)) (?u\<lparr>srv_listening := SL_Loop\<rparr>)"
  have "server_step s (Srv_Accept (int n) True) ?u" using s(3,4) by auto
  moreover have "server_step ?u Srv_Connected ?t" by (rule srv_connected) (simp add: server_accept_def)
  ultimately have "run server_step s [Srv_Accept (int n) True, Srv_Connected] ?t" by (auto simp only: run_Cons run_Nil)
  then have "run server_step server_init (ms @ [Srv_Accept (int n) True, Srv_Connected]) ?t" using s(1) by (auto simp only: run_append)
  moreover have "clientsCount ?t = Suc n" "srv_listening ?t = SL_Loop" "\<forall>c \<in> set (srv_clients ?t). c < int (Suc n)"
    using s(2,4) by (auto simp: clientsCount_def server_accept_def server_notify_def)
  ultimately show ?case by blast
qed

lemma failing_start_leaks: "port \<noteq> 0 \<Longrightarrow> fd \<noteq> - 1 \<Longrightarrow> server_start port fd False s = (False, s\<lparr>srv_fd := fd, srv_open := fd # srv_open s\<rparr>)"
  by (simp add: server_start_def)

lemma write_any: "fst (server_write w s) \<longleftrightarrow> (\<exists>c \<in> set (srv_handlers s). w c)"
proof -
  have "fst (fold (\<lambda>c (result, complaints). let r = result \<or> w c in (r, if r then complaints else complaints @ [c])) cs x) \<longleftrightarrow>
      fst x \<or> (\<exists>c \<in> set cs. w c)" for cs x
    by (induction cs arbitrary: x) (auto simp: case_prod_unfold Let_def)
  then show ?thesis by (simp add: server_write_def)
qed

section \<open>The Qt server\<close>

text \<open>
  It reports a client under the mutex of the handlers, but also one whose handler could not be
  started, and its \<open>stop\<close> closes the clients first and only then ends the listening thread.
\<close>

definition qt_server_accept :: "int \<Rightarrow> bool \<Rightarrow> server \<Rightarrow> server" where
  "qt_server_accept c started s =
     server_notify (CLIENT_CONNECTED c)
       (if started then s\<lparr>srv_handlers := srv_handlers s @ [c], srv_running := c # srv_running s, srv_clients := c # srv_clients s\<rparr> else s)"

definition qt_stop_threads :: "server \<Rightarrow> server" where
  "qt_stop_threads s = s\<lparr>srv_listening := SL_None, srv_working := False\<rparr>"

datatype qt_server_move = Qt_Start | Qt_Accept int bool | Qt_Event handler_event | Qt_Work | Qt_CloseAll | Qt_StopThreads

inductive qt_server_step :: "server \<Rightarrow> qt_server_move \<Rightarrow> server \<Rightarrow> bool" where
  qt_start: "srv_listening s = SL_None \<Longrightarrow> qt_server_step s Qt_Start (s\<lparr>srv_listening := SL_Loop\<rparr>)"
| qt_accept: "srv_listening s = SL_Loop \<Longrightarrow> c \<notin> set (srv_clients s) \<Longrightarrow> qt_server_step s (Qt_Accept c started) (qt_server_accept c started s)"
| qt_event: "event_client e \<in> set (srv_running s) \<Longrightarrow> server_onClientEvent e s = Inr t \<Longrightarrow> qt_server_step s (Qt_Event e) t"
| qt_work: "srv_working s \<Longrightarrow> srv_events s \<noteq> [] \<Longrightarrow> qt_server_step s Qt_Work (server_work s)"
| qt_close_all: "qt_server_step s Qt_CloseAll (closeAllClients s)"
| qt_stop_threads: "qt_server_step s Qt_StopThreads (qt_stop_threads s)"

inductive_cases qt_server_stepE: "qt_server_step s m t"

text \<open>
  So the law of the other server fails twice: a client is reported that has no handler and
  whose end is never reported, and after \<open>stop\<close> a client can still have its handler and its
  thread, with nobody left to take its events.
\<close>

theorem qt_server_loses_count:
  "(\<exists>s. run qt_server_step server_init [Qt_Start, Qt_Accept 7 False] s \<and> CLIENT_CONNECTED 7 \<in> set (srv_notified s) \<and> 7 \<notin> set (srv_handlers s) \<and>
      CLIENT_LOST 7 \<notin> set (srv_notified s)) \<and>
   (\<exists>s. run qt_server_step server_init [Qt_Start, Qt_CloseAll, Qt_Accept 8 True, Qt_StopThreads] s \<and> srv_handlers s = [8] \<and>
      srv_running s = [8] \<and> \<not> srv_working s \<and> srv_listening s = SL_None)"
  by (auto simp: run_Cons server_init_def qt_server_accept_def server_notify_def qt_stop_threads_def closeAllClients_def
      intro!: exI qt_start qt_accept qt_close_all qt_stop_threads)

end
