(* ===== verification/ServerShutdown.thy ===== *)
theory ServerShutdown
  imports SocketServers
begin

text \<open>
  The end of a server at the level of its mutexes. \<open>SocketServer::stop\<close> joins the working
  thread and then closes the clients; \<open>QtSocketServer::stop\<close> closes the clients first. The
  working thread keeps \<open>m_client_mtx\<close> while it handles the queue and takes
  \<open>m_handlers_mutex\<close> to close a client; closing all clients keeps \<open>m_handlers_mutex\<close> while it
  joins each handler's thread; and a handler's thread takes \<open>m_client_mtx\<close> to post an event.
  Before either, the listening thread is stopped; it takes no mutex for longer than it takes to start
  a handler, and is left out.
\<close>

section \<open>State\<close>

datatype handler_pc = HP_Run | HP_Post | HP_Ended

datatype working_pc = WK_Wait | WK_Busy | WK_Want int | WK_Close int | WK_Ended

datatype stopper_pc = SP_Out | SP_JoinWorker | SP_Lock | SP_Close "int list" | SP_Done

record shutdown =
  sd_ids :: "int list"
  sd_pc :: "int \<Rightarrow> handler_pc"
  sd_stopping :: "int \<Rightarrow> bool"
  sd_queue :: "queued_event list"
  sd_worker :: working_pc
  sd_working :: bool
  sd_stopper :: stopper_pc

definition shutdown_init :: "int list \<Rightarrow> shutdown" where
  "shutdown_init ids =
     \<lparr>sd_ids = ids, sd_pc = (\<lambda>c. if c \<in> set ids then HP_Run else HP_Ended), sd_stopping = (\<lambda>c. False), sd_queue = [],
      sd_worker = WK_Wait, sd_working = True, sd_stopper = SP_Out\<rparr>"

text \<open>Who holds the mutexes follows from where the threads are.\<close>

definition client_mtx_free :: "shutdown \<Rightarrow> bool" where
  "client_mtx_free s \<longleftrightarrow> sd_worker s \<in> {WK_Wait, WK_Ended}"

definition handlers_mutex_free :: "shutdown \<Rightarrow> bool" where
  "handlers_mutex_free s \<longleftrightarrow> (\<forall>c. sd_worker s \<noteq> WK_Close c) \<and> (\<forall>cs. sd_stopper s \<noteq> SP_Close cs)"

section \<open>Steps\<close>

text \<open>A handler's thread has something to report, reports it, or sees that it is stopped.\<close>

definition handler_post :: "int \<Rightarrow> bytes option \<Rightarrow> shutdown \<Rightarrow> shutdown" where
  "handler_post c d s =
     (case d of
        Some x \<Rightarrow> s\<lparr>sd_queue := sd_queue s @ [Queued_Data c x], sd_pc := (sd_pc s)(c := HP_Run)\<rparr>
      | None \<Rightarrow> s\<lparr>sd_queue := sd_queue s @ [Queued_Gone c], sd_pc := (sd_pc s)(c := HP_Ended)\<rparr>)"

text \<open>The working thread's next statement, where it is not blocked.\<close>

definition worker_thread :: "shutdown \<Rightarrow> shutdown option" where
  "worker_thread s =
     (case sd_worker s of
        WK_Wait \<Rightarrow>
          if sd_queue s \<noteq> [] then Some (s\<lparr>sd_worker := WK_Busy\<rparr>)
          else if sd_working s then None
          else Some (s\<lparr>sd_worker := WK_Ended\<rparr>)
      | WK_Busy \<Rightarrow>
          (case sd_queue s of
             [] \<Rightarrow> Some (s\<lparr>sd_worker := if sd_working s then WK_Wait else WK_Ended\<rparr>)
           | Queued_Data c d # q \<Rightarrow> Some (s\<lparr>sd_queue := q\<rparr>)
           | Queued_Gone c # q \<Rightarrow> Some (s\<lparr>sd_worker := WK_Want c\<rparr>))
      | WK_Want c \<Rightarrow> if handlers_mutex_free s then Some (s\<lparr>sd_worker := WK_Close c\<rparr>) else None
      | WK_Close c \<Rightarrow>
          if sd_pc s c = HP_Ended
          then Some (s\<lparr>sd_ids := remove1 c (sd_ids s), sd_queue := tl (sd_queue s), sd_worker := WK_Busy\<rparr>)
          else None
      | WK_Ended \<Rightarrow> None)"

text \<open>\<open>stop\<close>: the two servers differ in the order of closing the clients and joining the worker.\<close>

definition stop_thread :: "bool \<Rightarrow> shutdown \<Rightarrow> shutdown option" where
  "stop_thread clients_first s =
     (case sd_stopper s of
        SP_Out \<Rightarrow> Some (if clients_first then s\<lparr>sd_stopper := SP_Lock\<rparr> else s\<lparr>sd_working := False, sd_stopper := SP_JoinWorker\<rparr>)
      | SP_JoinWorker \<Rightarrow>
          if sd_worker s = WK_Ended then Some (s\<lparr>sd_stopper := if clients_first then SP_Done else SP_Lock\<rparr>) else None
      | SP_Lock \<Rightarrow> if handlers_mutex_free s then Some (s\<lparr>sd_stopper := SP_Close (sd_ids s)\<rparr>) else None
      | SP_Close (c # cs) \<Rightarrow>
          if \<not> sd_stopping s c then Some (s\<lparr>sd_stopping := (sd_stopping s)(c := True)\<rparr>)
          else if sd_pc s c = HP_Ended then Some (s\<lparr>sd_stopper := SP_Close cs\<rparr>)
          else None
      | SP_Close [] \<Rightarrow>
          Some (if clients_first then s\<lparr>sd_ids := [], sd_working := False, sd_stopper := SP_JoinWorker\<rparr> else s\<lparr>sd_ids := [], sd_stopper := SP_Done\<rparr>)
      | SP_Done \<Rightarrow> None)"

datatype shutdown_move = Has_Event int | Post int "bytes option" | Leave int | Work | Stopping

inductive shutdown_step :: "bool \<Rightarrow> shutdown \<Rightarrow> shutdown_move \<Rightarrow> shutdown \<Rightarrow> bool" for clients_first where
  sd_has_event: "sd_pc s c = HP_Run \<Longrightarrow> shutdown_step clients_first s (Has_Event c) (s\<lparr>sd_pc := (sd_pc s)(c := HP_Post)\<rparr>)"
| sd_post: "sd_pc s c = HP_Post \<Longrightarrow> client_mtx_free s \<Longrightarrow> shutdown_step clients_first s (Post c d) (handler_post c d s)"
| sd_leave: "sd_pc s c = HP_Run \<Longrightarrow> sd_stopping s c \<Longrightarrow> shutdown_step clients_first s (Leave c) (s\<lparr>sd_pc := (sd_pc s)(c := HP_Ended)\<rparr>)"
| sd_work: "worker_thread s = Some t \<Longrightarrow> shutdown_step clients_first s Work t"
| sd_stop: "stop_thread clients_first s = Some t \<Longrightarrow> shutdown_step clients_first s Stopping t"

inductive_cases shutdown_stepE: "shutdown_step b s m t"
inductive_simps work_step [simp]: "shutdown_step b s Work t"
inductive_simps stopping_step [simp]: "shutdown_step b s Stopping t"

lemma shutdown_run_simps [simp]:
  "run (shutdown_step b) s (Has_Event c # ms) t \<longleftrightarrow> sd_pc s c = HP_Run \<and> run (shutdown_step b) (s\<lparr>sd_pc := (sd_pc s)(c := HP_Post)\<rparr>) ms t"
  "run (shutdown_step b) s (Post c d # ms) t \<longleftrightarrow> sd_pc s c = HP_Post \<and> client_mtx_free s \<and> run (shutdown_step b) (handler_post c d s) ms t"
  by (auto simp: run_Cons elim!: shutdown_stepE intro: shutdown_step.intros)

lemma shutdown_run_threads:
  "worker_thread s = Some u \<Longrightarrow> run (shutdown_step b) s (Work # ms) t \<longleftrightarrow> run (shutdown_step b) u ms t"
  "stop_thread b s = Some u \<Longrightarrow> run (shutdown_step b) s (Stopping # ms) t \<longleftrightarrow> run (shutdown_step b) u ms t"
  by (auto simp: run_Cons elim!: shutdown_stepE intro: shutdown_step.intros)

lemmas shutdown_ops = worker_thread_def stop_thread_def handler_post_def handlers_mutex_free_def client_mtx_free_def

section \<open>What always holds\<close>

text \<open>The end of a handler is reported by its thread's last statement.\<close>

definition shutdown_ok :: "bool \<Rightarrow> shutdown \<Rightarrow> bool" where
  "shutdown_ok clients_first s \<longleftrightarrow>
     (\<forall>c. Queued_Gone c \<in> set (sd_queue s) \<longrightarrow> sd_pc s c = HP_Ended) \<and>
     (\<forall>c. sd_worker s \<in> {WK_Want c, WK_Close c} \<longrightarrow> sd_queue s \<noteq> [] \<and> hd (sd_queue s) = Queued_Gone c) \<and>
     (\<not> clients_first \<longrightarrow> (sd_working s \<longleftrightarrow> sd_stopper s = SP_Out) \<and>
       (sd_stopper s \<in> {SP_Lock, SP_Done} \<or> (\<exists>cs. sd_stopper s = SP_Close cs) \<longrightarrow> sd_worker s = WK_Ended))"

lemma handler_steps_ok:
  assumes "shutdown_ok b s"
  shows "sd_pc s c = HP_Run \<Longrightarrow> x \<in> {HP_Post, HP_Ended} \<Longrightarrow> shutdown_ok b (s\<lparr>sd_pc := (sd_pc s)(c := x)\<rparr>)"
    "sd_pc s c = HP_Post \<Longrightarrow> client_mtx_free s \<Longrightarrow> shutdown_ok b (handler_post c d s)"
  using assms by (force simp: shutdown_ok_def handler_post_def client_mtx_free_def split: option.split)+

lemma worker_step_ok: "shutdown_ok b s \<Longrightarrow> worker_thread s = Some t \<Longrightarrow> shutdown_ok b t"
  by (cases "sd_worker s")
    (auto simp: shutdown_ok_def worker_thread_def split: if_splits list.splits queued_event.splits dest: list.set_sel(2))

lemma stop_step_ok: "shutdown_ok b s \<Longrightarrow> stop_thread b s = Some t \<Longrightarrow> shutdown_ok b t"
  by (cases "sd_stopper s") (auto simp: shutdown_ok_def stop_thread_def split: if_splits list.splits)

interpretation shutdown: invariant_system "shutdown_init ids" "shutdown_step b" "shutdown_ok b" for ids b
proof unfold_locales
  show "shutdown_ok b (shutdown_init ids)" by (simp add: shutdown_ok_def shutdown_init_def)
  show "shutdown_ok b t" if "shutdown_step b s m t" "shutdown_ok b s" for s m t
    using that by (cases rule: shutdown_stepE) (auto intro: handler_steps_ok worker_step_ok stop_step_ok)
qed

section \<open>Progress\<close>

lemma worker_can_work:
  assumes "shutdown_ok False s" "sd_stopper s = SP_JoinWorker" "sd_worker s \<noteq> WK_Ended"
  shows "\<exists>t. worker_thread s = Some t"
proof -
  have w: "\<not> sd_working s" using assms(1,2) by (simp add: shutdown_ok_def)
  show ?thesis
  proof (cases "sd_worker s")
    case WK_Wait
    then show ?thesis using w by (simp add: worker_thread_def)
  next
    case WK_Busy
    then show ?thesis by (auto simp: worker_thread_def split: list.split queued_event.split)
  next
    case (WK_Want c)
    then show ?thesis using assms(2) by (simp add: worker_thread_def handlers_mutex_free_def)
  next
    case (WK_Close c)
    then have "sd_queue s \<noteq> [] \<and> hd (sd_queue s) = Queued_Gone c" using assms(1) by (simp add: shutdown_ok_def)
    then have "Queued_Gone c \<in> set (sd_queue s)" by (metis hd_in_set)
    then have "sd_pc s c = HP_Ended" using assms(1) by (simp add: shutdown_ok_def)
    then show ?thesis using WK_Close by (simp add: worker_thread_def)
  qed (use assms(3) in simp)
qed

lemma closing_can_go_on:
  assumes "shutdown_ok False s" "sd_stopper s = SP_Close cs"
  shows "\<exists>m t. (\<forall>c. m \<noteq> Has_Event c) \<and> shutdown_step False s m t"
proof -
  have w: "sd_worker s = WK_Ended" using assms by (simp add: shutdown_ok_def)
  show ?thesis
  proof (cases "\<exists>t. stop_thread False s = Some t")
    case True
    then show ?thesis using sd_stop by blast
  next
    case False
    then obtain c cs' where c: "cs = c # cs'" "sd_stopping s c" "sd_pc s c \<noteq> HP_Ended"
      using assms(2) by (cases cs) (auto simp: stop_thread_def split: if_splits)
    show ?thesis
    proof (cases "sd_pc s c")
      case HP_Run
      then show ?thesis using sd_leave [OF _ c(2)] by blast
    next
      case HP_Post
      then have "shutdown_step False s (Post c None) (handler_post c None s)" using w by (intro sd_post) (simp_all add: client_mtx_free_def)
      then show ?thesis by blast
    qed (use c(3) in simp)
  qed
qed

text \<open>
  Once the clients have nothing more to report, every step brings \<open>stop\<close> closer to its end: a
  queued event, an event about to be posted, a handler that runs and a client still to be closed
  each cost a bounded number of steps.
\<close>

fun handler_rank :: "handler_pc \<Rightarrow> nat" where
  "handler_rank HP_Run = 1" | "handler_rank HP_Post = 7" | "handler_rank HP_Ended = 0"

definition worker_rank :: "shutdown \<Rightarrow> nat" where
  "worker_rank s =
     (case sd_worker s of
        WK_Wait \<Rightarrow> if sd_queue s = [] then 1 else 3
      | WK_Busy \<Rightarrow> 2 | WK_Want c \<Rightarrow> 1 | WK_Close c \<Rightarrow> 0 | WK_Ended \<Rightarrow> 0)"

definition stopper_rank :: "shutdown \<Rightarrow> nat" where
  "stopper_rank s =
     (case sd_stopper s of
        SP_Out \<Rightarrow> 2 * length (sd_ids s) + 4
      | SP_JoinWorker \<Rightarrow> 2 * length (sd_ids s) + 3
      | SP_Lock \<Rightarrow> 2 * length (sd_ids s) + 2
      | SP_Close cs \<Rightarrow> 1 + (\<Sum>c\<leftarrow>cs. if sd_stopping s c then 1 else 2)
      | SP_Done \<Rightarrow> 0)"

definition shutdown_rank :: "int list \<Rightarrow> shutdown \<Rightarrow> nat" where
  "shutdown_rank ids s =
     (\<Sum>c\<in>set ids. handler_rank (sd_pc s c)) + 3 * length (sd_queue s) + worker_rank s + stopper_rank s"

definition only_clients :: "int list \<Rightarrow> shutdown \<Rightarrow> bool" where
  "only_clients ids s \<longleftrightarrow> (\<forall>c. c \<notin> set ids \<longrightarrow> sd_pc s c = HP_Ended)"

lemma handlers_rank_update:
  assumes "c \<in> set ids"
  shows "(\<Sum>x\<in>set ids. handler_rank ((f(c := p)) x)) + handler_rank (f c) = (\<Sum>x\<in>set ids. handler_rank (f x)) + handler_rank p"
proof -
  have "(\<Sum>x\<in>set ids - {c}. handler_rank ((f(c := p)) x)) = (\<Sum>x\<in>set ids - {c}. handler_rank (f x))"
    by (intro sum.cong) auto
  then show ?thesis
    using sum.remove [OF finite_set assms, of "\<lambda>x. handler_rank ((f(c := p)) x)"]
      sum.remove [OF finite_set assms, of "\<lambda>x. handler_rank (f x)"] by simp
qed

lemma stopper_rank_simps [simp]:
  "stopper_rank (s\<lparr>sd_pc := p\<rparr>) = stopper_rank s"
  "stopper_rank (s\<lparr>sd_queue := q\<rparr>) = stopper_rank s"
  "stopper_rank (s\<lparr>sd_worker := w\<rparr>) = stopper_rank s"
  "worker_rank (s\<lparr>sd_pc := p\<rparr>) = worker_rank s"
  by (cases "sd_stopper s"; simp add: stopper_rank_def worker_rank_def)+

lemma stopper_rank_fewer: "length ids \<le> length (sd_ids s) \<Longrightarrow> stopper_rank (s\<lparr>sd_ids := ids\<rparr>) \<le> stopper_rank s"
  by (cases "sd_stopper s") (simp_all add: stopper_rank_def)

lemma worker_rank_queue: "worker_rank (s\<lparr>sd_queue := q\<rparr>) \<le> worker_rank s + 2"
  by (simp add: worker_rank_def split: working_pc.split)

lemma stopping_sum_le:
  "(\<Sum>c\<leftarrow>cs. if (f(x := True)) c then 1 else (2::nat)) \<le> (\<Sum>c\<leftarrow>cs. if f c then 1 else 2)"
  "(\<Sum>c\<leftarrow>cs. if f c then 1 else (2::nat)) \<le> 2 * length cs"
  by (induction cs) auto

lemma running_is_client: "only_clients ids s \<Longrightarrow> sd_pc s c \<noteq> HP_Ended \<Longrightarrow> c \<in> set ids"
  by (auto simp: only_clients_def)

lemma leave_decreases:
  assumes "only_clients ids s" "sd_pc s c = HP_Run"
  shows "shutdown_rank ids (s\<lparr>sd_pc := (sd_pc s)(c := HP_Ended)\<rparr>) < shutdown_rank ids s"
  using handlers_rank_update [OF running_is_client [OF assms(1)], of c "sd_pc s" HP_Ended] assms(2)
  by (simp add: shutdown_rank_def)

lemma post_decreases:
  assumes "only_clients ids s" "sd_pc s c = HP_Post"
  shows "shutdown_rank ids (handler_post c d s) < shutdown_rank ids s"
proof -
  show ?thesis
  proof (cases d)
    case None
    then show ?thesis
      using handlers_rank_update [OF running_is_client [OF assms(1)], of c "sd_pc s" HP_Ended] assms(2)
        worker_rank_queue [where s = s and q = "sd_queue s @ [Queued_Gone c]"]
      by (simp add: shutdown_rank_def handler_post_def)
  next
    case (Some x)
    then show ?thesis
      using handlers_rank_update [OF running_is_client [OF assms(1)], of c "sd_pc s" HP_Run] assms(2)
        worker_rank_queue [where s = s and q = "sd_queue s @ [Queued_Data c x]"]
      by (simp add: shutdown_rank_def handler_post_def)
  qed
qed

lemma work_decreases:
  assumes "shutdown_ok b s" "worker_thread s = Some t"
  shows "shutdown_rank ids t < shutdown_rank ids s"
proof (cases "sd_worker s")
  case (WK_Close c)
  then have q: "sd_queue s \<noteq> []" using assms(1) by (simp add: shutdown_ok_def)
  have "stopper_rank t \<le> stopper_rank s"
    using assms(2) WK_Close stopper_rank_fewer [of "remove1 c (sd_ids s)" s]
    by (auto simp: worker_thread_def length_remove1 split: if_splits)
  then show ?thesis
    using q assms(2) WK_Close by (cases "sd_queue s") (auto simp: shutdown_rank_def worker_rank_def worker_thread_def split: if_splits)
qed (use assms(2) in \<open>auto simp: shutdown_rank_def worker_rank_def worker_thread_def split: if_splits list.splits queued_event.splits\<close>)

lemma stopping_decreases:
  assumes "stop_thread False s = Some t"
  shows "shutdown_rank ids t < shutdown_rank ids s"
proof -
  have "worker_rank t = worker_rank s \<and> sd_pc t = sd_pc s \<and> sd_queue t = sd_queue s"
    using assms by (auto simp: stop_thread_def worker_rank_def split: stopper_pc.splits list.splits if_splits)
  moreover have "stopper_rank t < stopper_rank s"
    using assms stopping_sum_le(2) [of "sd_stopping s" "sd_ids s"]
      stopping_sum_le(1) [of "sd_stopping s"]
    by (auto simp: stop_thread_def stopper_rank_def less_Suc_eq_le split: stopper_pc.splits list.splits if_splits)
  ultimately show ?thesis by (simp add: shutdown_rank_def)
qed

text \<open>A step in which no client has anything new to report.\<close>

definition quiet_step :: "bool \<Rightarrow> shutdown \<Rightarrow> shutdown_move \<Rightarrow> shutdown \<Rightarrow> bool" where
  "quiet_step b s m t \<longleftrightarrow> (\<forall>c. m \<noteq> Has_Event c) \<and> shutdown_step b s m t"

lemma only_clients_step: "shutdown_step b s m t \<Longrightarrow> only_clients ids s \<Longrightarrow> only_clients ids t"
  by (induction rule: shutdown_step.induct)
    (auto simp: only_clients_def handler_post_def worker_thread_def stop_thread_def
      split: option.splits working_pc.splits list.splits queued_event.splits if_splits stopper_pc.splits)

lemma quiet_decreases:
  assumes "shutdown_ok False s" "only_clients ids s" "quiet_step False s m t"
  shows "shutdown_rank ids t < shutdown_rank ids s"
  using assms(3) unfolding quiet_step_def
  by (elim conjE shutdown_stepE)
    (use assms(1,2) in \<open>auto intro: post_decreases leave_decreases work_decreases stopping_decreases\<close>)

lemma shutdown_can_go_on:
  assumes "shutdown_ok False s" "sd_stopper s \<noteq> SP_Done"
  shows "\<exists>m t. quiet_step False s m t"
proof -
  have st: "stop_thread False s \<noteq> None \<Longrightarrow> \<exists>m t. quiet_step False s m t"
    using sd_stop [of False s] by (force simp: quiet_step_def)
  show ?thesis
  proof (cases "sd_stopper s")
    case SP_JoinWorker
    then show ?thesis
      using st worker_can_work [OF assms(1) SP_JoinWorker] sd_work [of s _ False]
      by (cases "sd_worker s = WK_Ended") (force simp: stop_thread_def quiet_step_def)+
  next
    case SP_Lock
    then have "handlers_mutex_free s" using assms(1) by (auto simp: shutdown_ok_def handlers_mutex_free_def)
    then show ?thesis using SP_Lock st by (simp add: stop_thread_def)
  next
    case (SP_Close cs)
    then show ?thesis using closing_can_go_on [OF assms(1)] by (simp add: quiet_step_def)
  qed (use assms(2) st in \<open>simp_all add: stop_thread_def\<close>)
qed

interpretation server_stopping: bounded_wait "quiet_step False" "\<lambda>s. shutdown_ok False s \<and> only_clients ids s"
  "\<lambda>s. sd_stopper s \<noteq> SP_Done" "shutdown_rank ids" for ids
  using shutdown.inv_step only_clients_step quiet_decreases shutdown_can_go_on
  by unfold_locales (auto simp: quiet_step_def)

lemma reached_ok:
  assumes "run (shutdown_step b) (shutdown_init ids) ms s"
  shows "shutdown_ok b s \<and> only_clients ids s"
  using assms
proof (induction ms arbitrary: s rule: rev_induct)
  case Nil
  then show ?case using shutdown.inv_init by (simp add: only_clients_def shutdown_init_def)
next
  case (snoc m ms)
  then show ?case using shutdown.inv_step only_clients_step by (auto simp: run_append)
qed

text \<open>The clients still running are those in the map, and while they are closed those still to be closed.\<close>

definition clients_tracked :: "shutdown \<Rightarrow> bool" where
  "clients_tracked s \<longleftrightarrow>
     (\<forall>c. sd_pc s c \<noteq> HP_Ended \<longrightarrow> c \<in> set (sd_ids s)) \<and>
     (\<forall>cs. sd_stopper s = SP_Close cs \<longrightarrow> (\<forall>c. sd_pc s c \<noteq> HP_Ended \<longrightarrow> c \<in> set cs)) \<and>
     (sd_stopper s = SP_Done \<longrightarrow> sd_ids s = [])"

lemma work_tracked:
  assumes "shutdown_ok False s" "clients_tracked s" "worker_thread s = Some t"
  shows "clients_tracked t"
proof (cases "sd_worker s")
  case (WK_Close c)
  then have "sd_stopper t = SP_Out \<or> sd_stopper t = SP_JoinWorker" "sd_pc s c = HP_Ended" "sd_pc t = sd_pc s"
    "sd_ids t = remove1 c (sd_ids s)"
    using assms(1,3) by (cases "sd_stopper s"; auto simp: shutdown_ok_def worker_thread_def split: if_splits)+
  moreover have "x \<in> set (remove1 c (sd_ids s))" if "x \<noteq> c" "x \<in> set (sd_ids s)" for x
    using that by simp
  ultimately show ?thesis using assms(2) unfolding clients_tracked_def by (metis stopper_pc.distinct(5,7,11,13))
qed (use assms(2,3) in \<open>auto simp: clients_tracked_def worker_thread_def split: if_splits list.splits queued_event.splits\<close>)

lemma tracked_step:
  assumes "shutdown_step False s m t" "shutdown_ok False s" "clients_tracked s"
  shows "clients_tracked t"
  using assms
proof (induction rule: shutdown_step.induct)
  case (sd_work s t)
  then show ?case using work_tracked by blast
next
  case (sd_stop s t)
  then show ?case
    by (cases "sd_stopper s") (auto simp: clients_tracked_def stop_thread_def split: if_splits list.splits)
next
  case (sd_post s c d)
  then show ?case by (auto simp: clients_tracked_def handler_post_def split: option.splits)
qed (auto simp: clients_tracked_def)

lemma reached_tracked: "run (shutdown_step False) (shutdown_init ids) ms s \<Longrightarrow> clients_tracked s"
proof (induction ms arbitrary: s rule: rev_induct)
  case Nil
  then show ?case by (auto simp: clients_tracked_def shutdown_init_def split: if_splits)
next
  case (snoc m ms)
  then show ?case using tracked_step reached_ok by (auto simp: run_append)
qed

section \<open>Properties\<close>

text \<open>
  C6. \<open>SocketServer::stop\<close> always comes to its end. It joins the working thread before it closes the
  clients. From every state a server with any clients can reach, whatever they reported: once
  nothing new is reported, the threads can take no more steps than \<open>shutdown_rank\<close> counts, in
  any order, and as long as \<open>stop\<close> has not returned one of them can go on. When it has returned,
  no client is left, every handler's thread and the working thread have ended.
\<close>

theorem stop_completes:
  assumes "run (shutdown_step False) (shutdown_init ids) ms s"
    and "run (\<lambda>u m v. sd_stopper u \<noteq> SP_Done \<and> quiet_step False u m v) s ms' t"
  shows "length ms' \<le> shutdown_rank ids s \<and>
    (if sd_stopper t = SP_Done then sd_ids t = [] \<and> (\<forall>c. sd_pc t c = HP_Ended) \<and> sd_worker t = WK_Ended
     else \<exists>m u. quiet_step False t m u)"
proof -
  have "run (shutdown_step False) (shutdown_init ids) (ms @ ms') t"
    using assms(1) run_mono [OF assms(2), of "shutdown_step False"] by (auto simp: run_append quiet_step_def)
  then have t: "clients_tracked t" "shutdown_ok False t" using reached_tracked reached_ok by blast+
  have "length ms' \<le> shutdown_rank ids s \<and> (sd_stopper t \<noteq> SP_Done \<longrightarrow> (\<exists>m u. quiet_step False t m u))"
    using server_stopping.wait_ends [OF assms(2) reached_ok [OF assms(1)]] by simp
  moreover have "sd_ids t = [] \<and> (\<forall>c. sd_pc t c = HP_Ended) \<and> sd_worker t = WK_Ended" if "sd_stopper t = SP_Done"
    using that t by (auto simp: clients_tracked_def shutdown_ok_def)
  ultimately show ?thesis by simp
qed

theorem stop_completes_witness:
  "\<exists>s t. run (shutdown_step False) (shutdown_init [1]) [Has_Event 1, Post 1 None] s \<and>
     run (shutdown_step False) s [Stopping, Work, Work, Work, Work, Work, Stopping, Stopping, Stopping] t \<and>
     sd_stopper t = SP_Done \<and> 9 \<le> shutdown_rank [1] s \<and> sd_ids t = [] \<and> sd_worker t = WK_Ended"
proof -
  obtain s where s: "run (shutdown_step False) (shutdown_init [1]) [Has_Event 1, Post 1 None] s"
    "s = handler_post 1 None ((shutdown_init [1])\<lparr>sd_pc := (sd_pc (shutdown_init [1]))(1 := HP_Post)\<rparr>)"
    by (simp add: shutdown_ops shutdown_init_def del: run_single)
  let ?ms = "[Stopping, Work, Work, Work, Work, Work, Stopping, Stopping, Stopping]"
  obtain t where t: "run (\<lambda>u m v. sd_stopper u \<noteq> SP_Done \<and> quiet_step False u m v) s ?ms t" "sd_stopper t = SP_Done"
    unfolding s(2) by (simp add: run_Cons quiet_step_def shutdown_ops shutdown_init_def)
  have "run (shutdown_step False) s ?ms t" by (rule run_mono [OF t(1)]) (simp add: quiet_step_def)
  moreover have "9 \<le> shutdown_rank [1] s" "sd_ids t = []" "sd_worker t = WK_Ended"
    using stop_completes [OF s(1) t(1)] t(2) by simp_all
  ultimately show ?thesis using s(1) t(2) by blast
qed

text \<open>
  C38. Closing the clients first, as \<open>QtSocketServer::stop\<close> does, can deadlock: with two clients, one
  of which has just disconnected while the other is about to post an event, the thread that stops
  the server, the working thread and the second handler's thread wait for one another for ever.
\<close>

theorem clients_first_deadlocks:
  "\<exists>ms s. run (shutdown_step True) (shutdown_init [1, 2]) ms s \<and> sd_stopper s = SP_Close [2] \<and> sd_worker s = WK_Want 1 \<and>
     sd_pc s 2 = HP_Post \<and> (\<forall>m t. \<not> shutdown_step True s m t)"
proof -
  let ?ms = "[Has_Event 1, Post 1 None, Work, Work, Has_Event 2, Stopping, Stopping, Stopping, Stopping, Stopping]"
  obtain s where s: "run (shutdown_step True) (shutdown_init [1, 2]) ?ms s" "sd_stopper s = SP_Close [2]" "sd_worker s = WK_Want 1"
    "sd_pc s 2 = HP_Post" "\<And>c. c \<noteq> 2 \<Longrightarrow> sd_pc s c = HP_Ended" "sd_stopping s 2"
    by (simp add: shutdown_run_threads shutdown_ops shutdown_init_def)
  have "sd_pc s c \<noteq> HP_Run" for c using s(4,5) by (cases "c = 2") simp_all
  then have "\<not> shutdown_step True s m t" for m t
    using s(2-4,6) by (auto elim!: shutdown_stepE simp: shutdown_ops)
  with s(1-4) show ?thesis by blast
qed

end
