(* ===== verification/QtLink.thy ===== *)
theory QtLink
  imports Interleaving
begin

text \<open>
  Connecting and disconnecting in \<open>sw/Drivers/source/QtSocketClient.cpp\<close> and
  \<open>sw/Drivers/source/QtSerialDriver.cpp\<close>: the thread of the driver and the thread that uses
  it, as an interleaving of the sections between which they hold the mutex. The driver's thread
  waits on its condition variable without a condition, so a notification that comes while it
  does not wait is lost; the user's waits have a condition and a time limit.
\<close>

section \<open>State\<close>

datatype qt_link_state = QL_IDLE | QL_CONNECTION_REQUESTED | QL_CONNECTED | QL_DISCONNECTING | QL_DESTROYING

text \<open>
  The driver's thread: at the test of its outer loop, about to lock and wait, waiting, woken,
  opening, in its receiving loop, setting the state to idle, releasing the connection, ended.
\<close>

datatype link_pc = LP_Loop | LP_Enter | LP_Waiting | LP_Woken | LP_Open | LP_Receive | LP_Idle | LP_Abort | LP_Ended

text \<open>The user: outside, past \<open>connect\<close>'s first test, in one of the waits, destroying the driver.\<close>

datatype user_pc = UP_Out | UP_Requesting | UP_WaitConnect | UP_WaitIdle | UP_Notify | UP_Stop | UP_Join

record qt_link =
  ql_state :: qt_link_state
  ql_pc :: link_pc
  ql_running :: bool
  ql_open :: bool
  ql_user :: user_pc
  ql_result :: "bool option"

text \<open>The constructor returns when the thread runs; it need not have come to its wait.\<close>

definition qt_link_init :: qt_link where
  "qt_link_init = \<lparr>ql_state = QL_IDLE, ql_pc = LP_Loop, ql_running = True, ql_open = False, ql_user = UP_Out, ql_result = None\<rparr>"

definition notify_all :: "qt_link \<Rightarrow> qt_link" where
  "notify_all s = (if ql_pc s = LP_Waiting then s\<lparr>ql_pc := LP_Woken\<rparr> else s)"

section \<open>The socket client\<close>

definition qt_isConnected :: "qt_link \<Rightarrow> bool" where
  "qt_isConnected s \<longleftrightarrow> ql_state s = QL_CONNECTED \<or> ql_state s = QL_CONNECTION_REQUESTED"

text \<open>
  The thread's next statement: \<open>ok\<close> says whether the server was reached, \<open>lost\<close> whether this
  round of the receiving loop found the connection closed.
\<close>

definition client_thread :: "bool \<Rightarrow> bool \<Rightarrow> qt_link \<Rightarrow> qt_link" where
  "client_thread ok lost s =
     (case ql_pc s of
        LP_Loop \<Rightarrow> s\<lparr>ql_pc := if ql_running s then LP_Enter else LP_Ended\<rparr>
      | LP_Enter \<Rightarrow> s\<lparr>ql_pc := LP_Waiting\<rparr>
      | LP_Woken \<Rightarrow>
          s\<lparr>ql_pc := if ql_state s = QL_CONNECTION_REQUESTED then LP_Open else if ql_state s = QL_DESTROYING then LP_Ended else LP_Loop\<rparr>
      | LP_Open \<Rightarrow> if ok then s\<lparr>ql_state := QL_CONNECTED, ql_open := True, ql_pc := LP_Receive\<rparr> else s\<lparr>ql_pc := LP_Idle\<rparr>
      | LP_Receive \<Rightarrow> if ql_state s \<noteq> QL_CONNECTED \<or> lost then s\<lparr>ql_pc := LP_Idle\<rparr> else s
      | LP_Idle \<Rightarrow> s\<lparr>ql_state := QL_IDLE, ql_pc := LP_Abort\<rparr>
      | LP_Abort \<Rightarrow> s\<lparr>ql_open := False, ql_pc := LP_Loop\<rparr>
      | _ \<Rightarrow> s)"

text \<open>\<open>connect\<close> tests \<open>isConnected\<close> and locks the mutex again to request the connection.\<close>

definition client_request :: "qt_link \<Rightarrow> qt_link" where
  "client_request s = notify_all (s\<lparr>ql_state := QL_CONNECTION_REQUESTED, ql_user := UP_WaitConnect\<rparr>)"

definition client_connect_over :: "qt_link \<Rightarrow> qt_link" where
  "client_connect_over s = s\<lparr>ql_user := UP_Out, ql_result := Some (ql_state s = QL_CONNECTED)\<rparr>"

definition client_disconnect :: "qt_link \<Rightarrow> qt_link" where
  "client_disconnect s = (if ql_state s = QL_CONNECTED then s\<lparr>ql_state := QL_DISCONNECTING, ql_user := UP_WaitIdle\<rparr> else s)"

text \<open>The end of the destructor: the state under the mutex, the notification without it, then the join.\<close>

definition link_destroy :: "qt_link \<Rightarrow> qt_link" where
  "link_destroy s = s\<lparr>ql_state := QL_DESTROYING, ql_user := UP_Notify\<rparr>"

datatype qt_link_move =
    LThread bool bool
  | LSpurious
  | LConnect
  | LRequest
  | LConnectOver
  | LDisconnect
  | LDisconnectOver
  | LDestroy
  | LNotify
  | LStopWorker

inductive client_step :: "qt_link \<Rightarrow> qt_link_move \<Rightarrow> qt_link \<Rightarrow> bool" where
  cl_thread: "ql_pc s \<notin> {LP_Waiting, LP_Ended} \<Longrightarrow> client_step s (LThread ok lost) (client_thread ok lost s)"
| cl_spurious: "ql_pc s = LP_Waiting \<Longrightarrow> client_step s LSpurious (s\<lparr>ql_pc := LP_Woken\<rparr>)"
| cl_connect: "ql_user s = UP_Out \<Longrightarrow> \<not> qt_isConnected s \<Longrightarrow> client_step s LConnect (s\<lparr>ql_user := UP_Requesting\<rparr>)"
| cl_request: "ql_user s = UP_Requesting \<Longrightarrow> client_step s LRequest (client_request s)"
| cl_connect_over: "ql_user s = UP_WaitConnect \<Longrightarrow> client_step s LConnectOver (client_connect_over s)"
| cl_disconnect: "ql_user s = UP_Out \<Longrightarrow> client_step s LDisconnect (client_disconnect s)"
| cl_disconnect_over: "ql_user s = UP_WaitIdle \<Longrightarrow> client_step s LDisconnectOver (s\<lparr>ql_user := UP_Out\<rparr>)"
| cl_destroy: "ql_user s = UP_Out \<Longrightarrow> ql_state s \<noteq> QL_CONNECTED \<Longrightarrow> client_step s LDestroy (link_destroy s)"
| cl_notify: "ql_user s = UP_Notify \<Longrightarrow> client_step s LNotify (notify_all (s\<lparr>ql_user := UP_Stop\<rparr>))"
| cl_stop: "ql_user s = UP_Stop \<Longrightarrow> client_step s LStopWorker (s\<lparr>ql_running := False, ql_user := UP_Join\<rparr>)"

inductive_cases client_stepE: "client_step s m t"

inductive_simps client_step_simps [simp]:
  "client_step s (LThread ok lost) t" "client_step s LSpurious t" "client_step s LConnect t" "client_step s LRequest t"
  "client_step s LConnectOver t" "client_step s LDisconnect t" "client_step s LDisconnectOver t" "client_step s LDestroy t"
  "client_step s LNotify t" "client_step s LStopWorker t"

lemma client_run_simps [simp]:
  "run client_step s (LThread ok lost # ms) t \<longleftrightarrow> ql_pc s \<notin> {LP_Waiting, LP_Ended} \<and> run client_step (client_thread ok lost s) ms t"
  "run client_step s (LConnect # ms) t \<longleftrightarrow>
     ql_user s = UP_Out \<and> \<not> qt_isConnected s \<and> run client_step (s\<lparr>ql_user := UP_Requesting\<rparr>) ms t"
  "run client_step s (LRequest # ms) t \<longleftrightarrow> ql_user s = UP_Requesting \<and> run client_step (client_request s) ms t"
  "run client_step s (LConnectOver # ms) t \<longleftrightarrow> ql_user s = UP_WaitConnect \<and> run client_step (client_connect_over s) ms t"
  "run client_step s (LDisconnect # ms) t \<longleftrightarrow> ql_user s = UP_Out \<and> run client_step (client_disconnect s) ms t"
  "run client_step s (LDestroy # ms) t \<longleftrightarrow>
     ql_user s = UP_Out \<and> ql_state s \<noteq> QL_CONNECTED \<and> run client_step (link_destroy s) ms t"
  "run client_step s (LNotify # ms) t \<longleftrightarrow> ql_user s = UP_Notify \<and> run client_step (notify_all (s\<lparr>ql_user := UP_Stop\<rparr>)) ms t"
  "run client_step s (LStopWorker # ms) t \<longleftrightarrow> ql_user s = UP_Stop \<and> run client_step (s\<lparr>ql_running := False, ql_user := UP_Join\<rparr>) ms t"
  by (auto simp: run_Cons)

lemmas client_ops = client_thread_def client_request_def client_connect_over_def client_disconnect_def link_destroy_def notify_all_def
  qt_isConnected_def

section \<open>What always holds of the client\<close>

text \<open>
  The client is connected only while its thread is in the receiving loop, the connection is open
  then, and it is not open while the thread waits for requests.
\<close>

definition client_ok :: "qt_link \<Rightarrow> bool" where
  "client_ok s \<longleftrightarrow>
     (ql_state s \<in> {QL_CONNECTED, QL_DISCONNECTING} \<longrightarrow> ql_pc s \<in> {LP_Receive, LP_Idle}) \<and>
     (ql_pc s = LP_Receive \<longrightarrow> ql_open s) \<and> (ql_pc s \<in> {LP_Loop, LP_Enter, LP_Waiting, LP_Woken, LP_Open, LP_Ended} \<longrightarrow> \<not> ql_open s) \<and>
     (ql_user s = UP_WaitIdle \<longrightarrow> ql_state s \<in> {QL_DISCONNECTING, QL_IDLE} \<and> ql_pc s \<noteq> LP_Open) \<and>
     (ql_running s \<longleftrightarrow> ql_user s \<noteq> UP_Join)"

lemma client_thread_ok: "client_ok s \<Longrightarrow> client_ok (client_thread ok lost s)"
  by (cases "ql_pc s") (auto simp: client_ok_def client_thread_def)

lemma client_step_ok: "client_step s m t \<Longrightarrow> client_ok s \<Longrightarrow> client_ok t"
proof (induction rule: client_step.induct)
  case (cl_thread s ok lost)
  then show ?case using client_thread_ok by blast
qed (auto simp: client_ok_def client_ops)

interpretation qt_client: invariant_system qt_link_init client_step client_ok
  by unfold_locales (use client_step_ok in \<open>auto simp: client_ok_def qt_link_init_def\<close>)

text \<open>Disconnecting: the receiving loop sees it in its next round, and the state is idle after one more statement.\<close>

definition disconnect_rank :: "qt_link \<Rightarrow> nat" where
  "disconnect_rank s = (if ql_pc s = LP_Receive then 2 else if ql_pc s = LP_Idle then 1 else 0)"

definition while_disconnecting :: "qt_link \<Rightarrow> qt_link_move \<Rightarrow> qt_link \<Rightarrow> bool" where
  "while_disconnecting s m t \<longleftrightarrow> client_step s m t \<and> m \<noteq> LDisconnectOver"

interpretation client_disconnecting: bounded_wait while_disconnecting
  "\<lambda>s. client_ok s \<and> ql_user s = UP_WaitIdle" "\<lambda>s. ql_state s = QL_DISCONNECTING" disconnect_rank
proof unfold_locales
  show "\<exists>m t. while_disconnecting s m t" if "client_ok s \<and> ql_user s = UP_WaitIdle" "ql_state s = QL_DISCONNECTING" for s
  proof -
    have "client_step s (LThread True True) (client_thread True True s)" using that by (auto simp: client_ok_def)
    then show ?thesis unfolding while_disconnecting_def by blast
  qed
  show "disconnect_rank t < disconnect_rank s" "client_ok t \<and> ql_user t = UP_WaitIdle"
    if step: "while_disconnecting s m t" and ok: "client_ok s \<and> ql_user s = UP_WaitIdle" and d: "ql_state s = QL_DISCONNECTING" for s m t
  proof -
    have st: "client_step s m t" "m \<noteq> LDisconnectOver" using step by (simp_all add: while_disconnecting_def)
    have pc: "ql_pc s \<in> {LP_Receive, LP_Idle}" using ok d by (simp add: client_ok_def)
    have "ql_user s = UP_WaitIdle" using ok by simp
    then have "\<exists>b l. t = client_thread b l s" using st pc by (cases m) auto
    then obtain b l where "t = client_thread b l s" by blast
    then show "disconnect_rank t < disconnect_rank s" "client_ok t \<and> ql_user t = UP_WaitIdle"
      using pc ok d client_thread_ok [of s b l] by (auto simp: disconnect_rank_def client_thread_def)
  qed
qed

text \<open>A request the thread was woken for: it opens the connection or gives up, and the user is told.\<close>

definition request_rank :: "qt_link \<Rightarrow> nat" where
  "request_rank s = (case ql_pc s of LP_Woken \<Rightarrow> 3 | LP_Open \<Rightarrow> 2 | LP_Idle \<Rightarrow> 1 | _ \<Rightarrow> 0)"

definition while_requesting :: "qt_link \<Rightarrow> qt_link_move \<Rightarrow> qt_link \<Rightarrow> bool" where
  "while_requesting s m t \<longleftrightarrow> client_step s m t \<and> m \<noteq> LConnectOver"

definition request_seen :: "qt_link \<Rightarrow> bool" where
  "request_seen s \<longleftrightarrow>
     ql_user s = UP_WaitConnect \<and> (ql_state s = QL_CONNECTION_REQUESTED \<and> ql_pc s \<in> {LP_Woken, LP_Open, LP_Idle} \<or> ql_state s \<in> {QL_CONNECTED, QL_IDLE})"

interpretation client_connecting: bounded_wait while_requesting request_seen "\<lambda>s. ql_state s = QL_CONNECTION_REQUESTED" request_rank
proof unfold_locales
  show "\<exists>m t. while_requesting s m t" if "request_seen s" "ql_state s = QL_CONNECTION_REQUESTED" for s
  proof -
    have "client_step s (LThread True True) (client_thread True True s)" using that by (auto simp: request_seen_def)
    then show ?thesis unfolding while_requesting_def by blast
  qed
  show "request_rank t < request_rank s" "request_seen t"
    if step: "while_requesting s m t" and ok: "request_seen s" and d: "ql_state s = QL_CONNECTION_REQUESTED" for s m t
  proof -
    have st: "client_step s m t" "m \<noteq> LConnectOver" using step by (simp_all add: while_requesting_def)
    have pc: "ql_pc s \<in> {LP_Woken, LP_Open, LP_Idle}" "ql_user s = UP_WaitConnect" using ok d by (auto simp: request_seen_def)
    then have "\<exists>b l. t = client_thread b l s" using st by (cases m) auto
    then obtain b l where "t = client_thread b l s" by blast
    then show "request_rank t < request_rank s" "request_seen t"
      using pc d by (auto simp: request_rank_def request_seen_def client_thread_def)
  qed
qed

section \<open>The serial driver\<close>

text \<open>
  \<open>ok\<close> says whether the settings have values and the device opens, \<open>data\<close> whether this round of
  the receiving loop found data: only a round without data looks at the state.
\<close>

definition qt_serial_thread :: "bool \<Rightarrow> bool \<Rightarrow> qt_link \<Rightarrow> qt_link" where
  "qt_serial_thread ok data s =
     (case ql_pc s of
        LP_Loop \<Rightarrow> if ql_running s then s\<lparr>ql_pc := LP_Enter\<rparr> else s\<lparr>ql_pc := LP_Ended, ql_open := False\<rparr>
      | LP_Enter \<Rightarrow> s\<lparr>ql_pc := LP_Waiting\<rparr>
      | LP_Woken \<Rightarrow>
          if ql_state s = QL_CONNECTION_REQUESTED then s\<lparr>ql_pc := LP_Open\<rparr>
          else if ql_state s = QL_DESTROYING then s\<lparr>ql_pc := LP_Ended, ql_open := False\<rparr>
          else s\<lparr>ql_pc := LP_Idle\<rparr>
      | LP_Open \<Rightarrow> if ok then s\<lparr>ql_state := QL_CONNECTED, ql_open := True, ql_pc := LP_Receive\<rparr> else s\<lparr>ql_pc := LP_Idle\<rparr>
      | LP_Receive \<Rightarrow>
          if \<not> ql_running s then s\<lparr>ql_pc := LP_Idle\<rparr>
          else if data then s
          else if ql_state s = QL_DISCONNECTING then s\<lparr>ql_state := QL_IDLE, ql_open := False, ql_pc := LP_Idle\<rparr>
          else s
      | LP_Idle \<Rightarrow> s\<lparr>ql_state := QL_IDLE, ql_pc := LP_Loop\<rparr>
      | _ \<Rightarrow> s)"

definition qt_serial_open :: "qt_link \<Rightarrow> qt_link" where
  "qt_serial_open s =
     (if ql_state s = QL_IDLE then notify_all (s\<lparr>ql_state := QL_CONNECTION_REQUESTED, ql_user := UP_WaitConnect\<rparr>)
      else s\<lparr>ql_result := Some False\<rparr>)"

definition qt_serial_close :: "qt_link \<Rightarrow> qt_link" where
  "qt_serial_close s = (if ql_state s = QL_CONNECTED then s\<lparr>ql_state := QL_DISCONNECTING, ql_user := UP_WaitIdle\<rparr> else s)"

definition isOpened :: "qt_link \<Rightarrow> bool" where
  "isOpened s \<longleftrightarrow> ql_state s = QL_CONNECTED"

inductive qt_serial_step :: "qt_link \<Rightarrow> qt_link_move \<Rightarrow> qt_link \<Rightarrow> bool" where
  sl_thread: "ql_pc s \<notin> {LP_Waiting, LP_Ended} \<Longrightarrow> qt_serial_step s (LThread ok data) (qt_serial_thread ok data s)"
| sl_spurious: "ql_pc s = LP_Waiting \<Longrightarrow> qt_serial_step s LSpurious (s\<lparr>ql_pc := LP_Woken\<rparr>)"
| sl_open: "ql_user s = UP_Out \<Longrightarrow> qt_serial_step s LConnect (qt_serial_open s)"
| sl_open_over: "ql_user s = UP_WaitConnect \<Longrightarrow> qt_serial_step s LConnectOver (client_connect_over s)"
| sl_close: "ql_user s = UP_Out \<Longrightarrow> qt_serial_step s LDisconnect (qt_serial_close s)"
| sl_close_over: "ql_user s = UP_WaitIdle \<Longrightarrow> qt_serial_step s LDisconnectOver (s\<lparr>ql_user := UP_Out\<rparr>)"
| sl_destroy: "ql_user s = UP_Out \<Longrightarrow> ql_state s \<noteq> QL_CONNECTED \<Longrightarrow> qt_serial_step s LDestroy (link_destroy s)"
| sl_notify: "ql_user s = UP_Notify \<Longrightarrow> qt_serial_step s LNotify (notify_all (s\<lparr>ql_user := UP_Stop\<rparr>))"
| sl_stop: "ql_user s = UP_Stop \<Longrightarrow> qt_serial_step s LStopWorker (s\<lparr>ql_running := False, ql_user := UP_Join\<rparr>)"

inductive_simps qt_serial_step_simps [simp]:
  "qt_serial_step s (LThread ok lost) t" "qt_serial_step s LSpurious t" "qt_serial_step s LConnect t" "qt_serial_step s LRequest t"
  "qt_serial_step s LConnectOver t" "qt_serial_step s LDisconnect t" "qt_serial_step s LDisconnectOver t" "qt_serial_step s LDestroy t"
  "qt_serial_step s LNotify t" "qt_serial_step s LStopWorker t"

lemma qt_serial_run_simps [simp]:
  "run qt_serial_step s (LThread ok lost # ms) t \<longleftrightarrow>
     ql_pc s \<notin> {LP_Waiting, LP_Ended} \<and> run qt_serial_step (qt_serial_thread ok lost s) ms t"
  "run qt_serial_step s (LConnect # ms) t \<longleftrightarrow> ql_user s = UP_Out \<and> run qt_serial_step (qt_serial_open s) ms t"
  "run qt_serial_step s (LConnectOver # ms) t \<longleftrightarrow> ql_user s = UP_WaitConnect \<and> run qt_serial_step (client_connect_over s) ms t"
  "run qt_serial_step s (LDisconnect # ms) t \<longleftrightarrow> ql_user s = UP_Out \<and> run qt_serial_step (qt_serial_close s) ms t"
  by (auto simp: run_Cons)

lemmas qt_serial_ops = qt_serial_thread_def qt_serial_open_def qt_serial_close_def isOpened_def notify_all_def client_connect_over_def

text \<open>The device is open only while the thread is in its receiving loop, or has left it for good.\<close>

definition qt_serial_ok :: "qt_link \<Rightarrow> bool" where
  "qt_serial_ok s \<longleftrightarrow>
     (ql_state s \<in> {QL_CONNECTED, QL_DISCONNECTING} \<longrightarrow> ql_pc s \<in> {LP_Receive, LP_Idle}) \<and> (ql_pc s = LP_Receive \<longrightarrow> ql_open s) \<and>
     (ql_pc s \<in> {LP_Enter, LP_Waiting, LP_Woken, LP_Open, LP_Ended} \<longrightarrow> \<not> ql_open s) \<and>
     (ql_pc s \<in> {LP_Loop, LP_Idle} \<and> ql_running s \<longrightarrow> \<not> ql_open s) \<and>
     (ql_state s = QL_IDLE \<longrightarrow> ql_pc s \<noteq> LP_Receive) \<and> (ql_running s \<longleftrightarrow> ql_user s \<noteq> UP_Join)"

lemma qt_serial_thread_ok: "qt_serial_ok s \<Longrightarrow> qt_serial_ok (qt_serial_thread ok data s)"
  by (cases "ql_pc s") (auto simp: qt_serial_ok_def qt_serial_thread_def)

lemma qt_serial_step_ok: "qt_serial_step s m t \<Longrightarrow> qt_serial_ok s \<Longrightarrow> qt_serial_ok t"
proof (induction rule: qt_serial_step.induct)
  case (sl_thread s ok data)
  then show ?case using qt_serial_thread_ok by blast
qed (auto simp: qt_serial_ok_def qt_serial_ops link_destroy_def)

interpretation qt_serial: invariant_system qt_link_init qt_serial_step qt_serial_ok
  by unfold_locales (use qt_serial_step_ok in \<open>auto simp: qt_serial_ok_def qt_link_init_def\<close>)

section \<open>Lost requests\<close>

text \<open>A request whose notification came before the thread waited.\<close>

definition request_stuck :: "qt_link \<Rightarrow> bool" where
  "request_stuck s \<longleftrightarrow>
     ql_state s = QL_CONNECTION_REQUESTED \<and> ql_pc s = LP_Waiting \<and> \<not> ql_open s \<and> ql_user s \<in> {UP_WaitConnect, UP_Out} \<and>
     ql_result s \<noteq> Some True"

definition user_move :: "qt_link_move \<Rightarrow> bool" where
  "user_move m \<longleftrightarrow> m \<noteq> LSpurious \<and> m \<noteq> LDestroy"

lemma client_stuck_step: "client_step s m t \<Longrightarrow> user_move m \<Longrightarrow> request_stuck s \<Longrightarrow> request_stuck t"
  by (cases m) (auto simp: request_stuck_def user_move_def client_ops)

lemma serial_stuck_step: "qt_serial_step s m t \<Longrightarrow> user_move m \<Longrightarrow> request_stuck s \<Longrightarrow> request_stuck t"
  by (cases m) (auto simp: request_stuck_def user_move_def qt_serial_ops)

lemma stuck_run:
  assumes "\<And>s m t. step s m t \<Longrightarrow> user_move m \<Longrightarrow> request_stuck s \<Longrightarrow> request_stuck t"
  shows "run (\<lambda>s m t. step s m t \<and> user_move m) s ms t \<Longrightarrow> request_stuck s \<Longrightarrow> request_stuck t"
  by (induction rule: run.induct) (use assms in blast)+

section \<open>Properties\<close>

text \<open>
  C34. \<open>disconnect\<close> of the Qt client completes, and so does a \<open>connect\<close> whose request the thread is
  waiting for: in every reachable state, whatever the server does and however the threads
  interleave, the thread can go on, and after at most two of its steps the client is idle, after
  at most three it is connected or idle, so that the user's wait ends with the answer.
\<close>

theorem qt_client_calls_complete:
  assumes "run client_step qt_link_init ms s"
  shows "(ql_user s = UP_Out \<and> ql_state s = QL_CONNECTED \<and>
      run (\<lambda>u m v. ql_state u = QL_DISCONNECTING \<and> while_disconnecting u m v) (client_disconnect s) ns t \<longrightarrow>
    length ns \<le> 2 \<and> (if ql_state t = QL_DISCONNECTING then \<exists>m u. while_disconnecting t m u else ql_state t = QL_IDLE)) \<and>
    (ql_user s = UP_Requesting \<and> ql_pc s = LP_Waiting \<and>
      run (\<lambda>u m v. ql_state u = QL_CONNECTION_REQUESTED \<and> while_requesting u m v) (client_request s) ns t \<longrightarrow>
    length ns \<le> 3 \<and> (if ql_state t = QL_CONNECTION_REQUESTED then \<exists>m u. while_requesting t m u
      else ql_state t = QL_IDLE \<or> ql_state t = QL_CONNECTED))"
proof
  show "ql_user s = UP_Out \<and> ql_state s = QL_CONNECTED \<and>
      run (\<lambda>u m v. ql_state u = QL_DISCONNECTING \<and> while_disconnecting u m v) (client_disconnect s) ns t \<longrightarrow>
    length ns \<le> 2 \<and> (if ql_state t = QL_DISCONNECTING then \<exists>m u. while_disconnecting t m u else ql_state t = QL_IDLE)"
  proof (rule impI, elim conjE)
    assume u: "ql_user s = UP_Out" "ql_state s = QL_CONNECTED"
      and r: "run (\<lambda>u m v. ql_state u = QL_DISCONNECTING \<and> while_disconnecting u m v) (client_disconnect s) ns t"
    have "client_ok (client_disconnect s)" using client_step_ok [OF cl_disconnect [OF u(1)]] qt_client.inv_reached [OF assms] .
    moreover have "ql_user (client_disconnect s) = UP_WaitIdle" "disconnect_rank (client_disconnect s) \<le> 2"
      using u(2) by (simp_all add: client_disconnect_def disconnect_rank_def)
    ultimately have "(client_ok t \<and> ql_user t = UP_WaitIdle) \<and> length ns \<le> 2 \<and>
        (ql_state t = QL_DISCONNECTING \<longrightarrow> (\<exists>m u. while_disconnecting t m u))"
      using client_disconnecting.wait_ends [OF r] by auto
    then show "length ns \<le> 2 \<and> (if ql_state t = QL_DISCONNECTING then \<exists>m u. while_disconnecting t m u else ql_state t = QL_IDLE)"
      by (auto simp: client_ok_def)
  qed
  show "ql_user s = UP_Requesting \<and> ql_pc s = LP_Waiting \<and>
      run (\<lambda>u m v. ql_state u = QL_CONNECTION_REQUESTED \<and> while_requesting u m v) (client_request s) ns t \<longrightarrow>
    length ns \<le> 3 \<and> (if ql_state t = QL_CONNECTION_REQUESTED then \<exists>m u. while_requesting t m u
      else ql_state t = QL_IDLE \<or> ql_state t = QL_CONNECTED)"
  proof (rule impI, elim conjE)
    assume u: "ql_user s = UP_Requesting" "ql_pc s = LP_Waiting"
      and r: "run (\<lambda>u m v. ql_state u = QL_CONNECTION_REQUESTED \<and> while_requesting u m v) (client_request s) ns t"
    have "request_seen (client_request s)" "request_rank (client_request s) \<le> 3"
      using u by (simp_all add: client_request_def notify_all_def request_seen_def request_rank_def)
    then have "request_seen t \<and> length ns \<le> 3 \<and> (ql_state t = QL_CONNECTION_REQUESTED \<longrightarrow> (\<exists>m u. while_requesting t m u))"
      using client_connecting.wait_ends [OF r] by auto
    then show "length ns \<le> 3 \<and> (if ql_state t = QL_CONNECTION_REQUESTED then \<exists>m u. while_requesting t m u
        else ql_state t = QL_IDLE \<or> ql_state t = QL_CONNECTED)"
      by (auto simp: request_seen_def)
  qed
qed

theorem qt_client_calls_complete_witness:
  "\<exists>s t. run client_step qt_link_init [LThread True False, LThread True False, LConnect, LRequest, LThread True False, LThread True False, LConnectOver] s \<and>
     run (\<lambda>u m v. ql_state u = QL_DISCONNECTING \<and> while_disconnecting u m v) (client_disconnect s) [LThread True False, LThread True False] t \<and>
     ql_state t = QL_IDLE"
proof -
  let ?ms = "[LThread True False, LThread True False, LConnect, LRequest, LThread True False, LThread True False, LConnectOver]"
  obtain s where s: "run client_step qt_link_init ?ms s" "ql_user s = UP_Out" "ql_state s = QL_CONNECTED" "ql_pc s = LP_Receive"
    by (simp add: client_ops qt_link_init_def)
  define s1 where "s1 = client_thread True False (client_disconnect s)"
  define t where "t = client_thread True False s1"
  have f: "ql_state (client_disconnect s) = QL_DISCONNECTING" "ql_pc (client_disconnect s) = LP_Receive"
    "ql_state s1 = QL_DISCONNECTING" "ql_pc s1 = LP_Idle" "ql_state t \<noteq> QL_DISCONNECTING"
    using s(3,4) by (simp_all add: client_ops s1_def t_def)
  then have r: "run (\<lambda>u m v. ql_state u = QL_DISCONNECTING \<and> while_disconnecting u m v) (client_disconnect s) [LThread True False, LThread True False] t"
    by (simp add: run_Cons while_disconnecting_def s1_def [symmetric] t_def [symmetric])
  have "ql_state t = QL_IDLE" using qt_client_calls_complete [OF s(1), of "[LThread True False, LThread True False]" t] r s(2,3) f(5) by auto
  with s(1) r show ?thesis by blast
qed

text \<open>
  The thread waits without looking at the state first, so a request made while it is not waiting
  is lost: right after the constructor, or when the last connection has just ended. The caller's
  wait times out, and from then on, as long as the thread is not woken for no reason, the driver
  is stuck: it answers every call, the client even says that it is connected, no call ever
  succeeds, and nothing is open. This holds for the client and for the serial driver.
\<close>

theorem qt_requests_can_be_lost:
  "(\<exists>ms s. run client_step qt_link_init ms s \<and> request_stuck s \<and> qt_isConnected s) \<and>
   (\<exists>ms s. run qt_serial_step qt_link_init ms s \<and> request_stuck s) \<and>
   (\<forall>s ms t. request_stuck s \<and> run (\<lambda>s m t. (client_step s m t \<or> qt_serial_step s m t) \<and> user_move m) s ms t \<longrightarrow>
      ql_state t = QL_CONNECTION_REQUESTED \<and> \<not> ql_open t \<and> ql_result t \<noteq> Some True)"
proof (intro conjI allI impI)
  have "\<exists>s. run client_step qt_link_init [LThread True False, LConnect, LRequest, LThread True False, LConnectOver] s \<and> request_stuck s \<and> qt_isConnected s"
    by (simp add: client_ops qt_link_init_def request_stuck_def)
  then show "\<exists>ms s. run client_step qt_link_init ms s \<and> request_stuck s \<and> qt_isConnected s" by blast
  have "\<exists>s. run qt_serial_step qt_link_init [LThread True False, LConnect, LThread True False, LConnectOver] s \<and> request_stuck s"
    by (simp add: qt_serial_ops qt_link_init_def request_stuck_def)
  then show "\<exists>ms s. run qt_serial_step qt_link_init ms s \<and> request_stuck s" by blast
  fix s ms t
  assume r: "request_stuck s \<and> run (\<lambda>s m t. (client_step s m t \<or> qt_serial_step s m t) \<and> user_move m) s ms t"
  have "request_stuck v" if "client_step u m v \<or> qt_serial_step u m v" "user_move m" "request_stuck u" for u m v
    using that client_stuck_step serial_stuck_step by blast
  then have "request_stuck t"
    by (rule stuck_run [of "\<lambda>s m t. client_step s m t \<or> qt_serial_step s m t"]) (use r in blast)+
  then show "ql_state t = QL_CONNECTION_REQUESTED" "\<not> ql_open t" "ql_result t \<noteq> Some True" by (simp_all add: request_stuck_def)
qed

theorem qt_requests_can_be_lost_witness:
  "\<exists>s t. run client_step qt_link_init [LThread True False, LConnect, LRequest, LThread True False] s \<and>
     run (\<lambda>s m t. (client_step s m t \<or> qt_serial_step s m t) \<and> user_move m) s [LConnectOver, LDisconnect] t \<and> \<not> ql_open t"
proof -
  obtain s where s: "run client_step qt_link_init [LThread True False, LConnect, LRequest, LThread True False] s" "request_stuck s" "ql_user s = UP_WaitConnect"
    by (simp add: client_ops qt_link_init_def request_stuck_def)
  let ?t = "client_disconnect (client_connect_over s)"
  have "run (\<lambda>s m t. (client_step s m t \<or> qt_serial_step s m t) \<and> user_move m) s [LConnectOver, LDisconnect] ?t"
    using s(3) by (simp add: run_Cons user_move_def) (simp add: client_ops)
  with s(1,2) qt_requests_can_be_lost show ?thesis by blast
qed

text \<open>
  A serial device that keeps sending cannot be closed: only a round without data looks at the
  state. \<open>close\<close> gives up after its time limit, and for as many rounds as there is data the
  driver says it is closed, delivers, and refuses to open.
\<close>

theorem busy_serial_device_never_closes:
  "\<exists>ms s. run qt_serial_step qt_link_init ms s \<and>
     (\<forall>n. run qt_serial_step s (replicate n (LThread True True)) s) \<and> \<not> isOpened s \<and> ql_open s \<and> ql_user s = UP_Out \<and>
     ql_result (qt_serial_open s) = Some False"
proof -
  let ?ms = "[LThread True True, LThread True True, LConnect, LThread True True, LThread True True, LConnectOver, LDisconnect, LDisconnectOver]"
  obtain s where s: "run qt_serial_step qt_link_init ?ms s" "ql_pc s = LP_Receive" "ql_running s" "ql_state s = QL_DISCONNECTING" "ql_open s" "ql_user s = UP_Out"
    by (simp add: qt_serial_ops qt_link_init_def)
  have same: "qt_serial_thread True True s = s" using s(2-4) by (simp add: qt_serial_thread_def)
  have "run qt_serial_step s (replicate n (LThread True True)) s" for n
    by (induction n) (simp_all add: s(2) same)
  moreover have "\<not> isOpened s" "ql_result (qt_serial_open s) = Some False" using s(4) by (simp_all add: isOpened_def qt_serial_open_def)
  ultimately show ?thesis using s(1,5,6) by blast
qed

text \<open>
  The destructor of the client notifies once. When the thread has passed the test of its loop but
  does not wait yet, the notification is lost, and the destructor joins a thread that waits for
  ever.
\<close>

theorem qt_destructor_deadlock:
  "\<exists>ms s. run client_step qt_link_init ms s \<and> ql_user s = UP_Join \<and> ql_pc s = LP_Waiting \<and>
     (\<forall>m t. client_step s m t \<longrightarrow> m = LSpurious)"
proof -
  let ?ms = "[LThread True False, LDestroy, LNotify, LThread True False, LStopWorker]"
  obtain s where s: "run client_step qt_link_init ?ms s" "ql_user s = UP_Join" "ql_pc s = LP_Waiting"
    by (simp add: client_ops qt_link_init_def)
  have "client_step s m t \<Longrightarrow> m = LSpurious" for m t using s(2,3) by (cases m) auto
  with s show ?thesis by blast
qed

end
