(* ===== verification/QtStart.thy ===== *)
theory QtStart
  imports Interleaving Prelude
begin

text \<open>
  Starting and stopping in \<open>sw/Drivers/source/QtClientHandler.cpp\<close> and
  \<open>sw/Drivers/source/QtSocketServer.cpp\<close>: \<open>start\<close> waits, with a time limit, until the first
  section of the new thread has set the state.
\<close>

section \<open>The handler of a client\<close>

datatype start_state = QS_IDLE | QS_STARTING | QS_RUNNING | QS_STOPPING

text \<open>
  The thread: not there, before its first section, about to take over the client's descriptor,
  in the receiving loop, ended. The user: outside, in the wait of \<open>start\<close>, in the join of \<open>stop\<close>.
\<close>

datatype handler_thread_pc = HT_None | HT_Begin | HT_Open | HT_Loop | HT_Ended

datatype handler_user = HU_Out | HU_Wait | HU_Joining

record qt_handler =
  qh_state :: start_state
  qh_pc :: handler_thread_pc
  qh_user :: handler_user
  qh_result :: "bool option"
  qh_gone :: bool

definition qt_handler_init :: qt_handler where
  "qt_handler_init = \<lparr>qh_state = QS_IDLE, qh_pc = HT_None, qh_user = HU_Out, qh_result = None, qh_gone = False\<rparr>"

definition qt_handler_start :: "qt_handler \<Rightarrow> qt_handler" where
  "qt_handler_start h = h\<lparr>qh_state := QS_STARTING, qh_pc := HT_Begin, qh_user := HU_Wait, qh_gone := False\<rparr>"

text \<open>The wait ends with its condition or with the time limit; the answer is the state then.\<close>

definition qt_handler_start_over :: "qt_handler \<Rightarrow> qt_handler" where
  "qt_handler_start_over h = h\<lparr>qh_user := HU_Out, qh_result := Some (qh_state h = QS_RUNNING)\<rparr>"

definition qt_handler_stop :: "qt_handler \<Rightarrow> qt_handler" where
  "qt_handler_stop h = h\<lparr>qh_state := QS_STOPPING, qh_user := if qh_pc h = HT_None then HU_Out else HU_Joining\<rparr>"

definition qt_handler_joined :: "qt_handler \<Rightarrow> qt_handler" where
  "qt_handler_joined h = h\<lparr>qh_pc := HT_None, qh_user := HU_Out, qh_result := None\<rparr>"

text \<open>\<open>ok\<close>: whether the descriptor could be taken over; \<open>lost\<close>: whether this round found the client gone.\<close>

definition qt_handler_thread :: "bool \<Rightarrow> bool \<Rightarrow> qt_handler \<Rightarrow> qt_handler" where
  "qt_handler_thread ok lost h =
     (case qh_pc h of
        HT_Begin \<Rightarrow> h\<lparr>qh_state := QS_RUNNING, qh_pc := HT_Open\<rparr>
      | HT_Open \<Rightarrow> h\<lparr>qh_pc := if ok then HT_Loop else HT_Ended\<rparr>
      | HT_Loop \<Rightarrow>
          if qh_state h \<noteq> QS_RUNNING then h\<lparr>qh_pc := HT_Ended\<rparr>
          else if lost then h\<lparr>qh_pc := HT_Ended, qh_gone := True\<rparr>
          else h
      | _ \<Rightarrow> h)"

datatype qt_handler_move = HStart | HStartOver | HStop | HJoined | HThread bool bool

inductive qt_handler_step :: "qt_handler \<Rightarrow> qt_handler_move \<Rightarrow> qt_handler \<Rightarrow> bool" where
  qh_start: "qh_user h = HU_Out \<Longrightarrow> qh_pc h = HT_None \<Longrightarrow> qt_handler_step h HStart (qt_handler_start h)"
| qh_start_over: "qh_user h = HU_Wait \<Longrightarrow> qt_handler_step h HStartOver (qt_handler_start_over h)"
| qh_stop: "qh_user h = HU_Out \<Longrightarrow> qt_handler_step h HStop (qt_handler_stop h)"
| qh_joined: "qh_user h = HU_Joining \<Longrightarrow> qh_pc h = HT_Ended \<Longrightarrow> qt_handler_step h HJoined (qt_handler_joined h)"
| qh_thread: "qh_pc h \<notin> {HT_None, HT_Ended} \<Longrightarrow> qt_handler_step h (HThread ok lost) (qt_handler_thread ok lost h)"

inductive_cases qt_handler_stepE: "qt_handler_step h m t"

inductive_simps qt_handler_step_simps [simp]:
  "qt_handler_step h HStart t" "qt_handler_step h HStartOver t" "qt_handler_step h HStop t" "qt_handler_step h HJoined t"
  "qt_handler_step h (HThread ok lost) t"

lemma qt_handler_run_simps [simp]:
  "run qt_handler_step h (HStart # ms) t \<longleftrightarrow> qh_user h = HU_Out \<and> qh_pc h = HT_None \<and> run qt_handler_step (qt_handler_start h) ms t"
  "run qt_handler_step h (HStartOver # ms) t \<longleftrightarrow> qh_user h = HU_Wait \<and> run qt_handler_step (qt_handler_start_over h) ms t"
  "run qt_handler_step h (HStop # ms) t \<longleftrightarrow> qh_user h = HU_Out \<and> run qt_handler_step (qt_handler_stop h) ms t"
  "run qt_handler_step h (HThread ok lost # ms) t \<longleftrightarrow>
     qh_pc h \<notin> {HT_None, HT_Ended} \<and> run qt_handler_step (qt_handler_thread ok lost h) ms t"
  by (auto simp: run_Cons)

lemmas qt_handler_ops = qt_handler_start_def qt_handler_start_over_def qt_handler_stop_def qt_handler_joined_def qt_handler_thread_def

definition qt_handler_ok :: "qt_handler \<Rightarrow> bool" where
  "qt_handler_ok h \<longleftrightarrow>
     (qh_state h = QS_RUNNING \<longrightarrow> qh_pc h \<noteq> HT_Begin) \<and>
     (qh_pc h = HT_None \<longrightarrow> qh_user h = HU_Out) \<and>
     (qh_user h \<noteq> HU_Wait \<and> qh_result h = Some True \<longrightarrow> qh_pc h \<in> {HT_Open, HT_Loop, HT_Ended}) \<and>
     (qh_result h = Some True \<longrightarrow> qh_user h \<noteq> HU_Wait)"

lemma qt_handler_step_ok: "qt_handler_step h m t \<Longrightarrow> qt_handler_ok h \<Longrightarrow> qt_handler_ok t"
  by (cases m; cases "qh_pc h") (auto simp: qt_handler_ok_def qt_handler_ops)

interpretation qt_handler: invariant_system qt_handler_init qt_handler_step qt_handler_ok
  by unfold_locales (use qt_handler_step_ok in \<open>auto simp: qt_handler_ok_def qt_handler_init_def\<close>)

text \<open>The join of \<open>stop\<close>, once the thread has begun.\<close>

definition handler_join_rank :: "qt_handler \<Rightarrow> nat" where
  "handler_join_rank h =
     (if qh_user h = HU_Joining then (case qh_pc h of HT_Open \<Rightarrow> 3 | HT_Loop \<Rightarrow> 2 | HT_Ended \<Rightarrow> 1 | _ \<Rightarrow> 0) else 0)"

definition handler_join_ok :: "qt_handler \<Rightarrow> bool" where
  "handler_join_ok h \<longleftrightarrow>
     (if qh_user h = HU_Joining then qh_state h = QS_STOPPING \<and> qh_pc h \<in> {HT_Open, HT_Loop, HT_Ended} else qh_pc h = HT_None)"

interpretation handler_join: bounded_wait qt_handler_step handler_join_ok "\<lambda>h. qh_user h = HU_Joining" handler_join_rank
proof unfold_locales
  show "\<exists>m t. qt_handler_step h m t" if "handler_join_ok h" "qh_user h = HU_Joining" for h
  proof (cases "qh_pc h = HT_Ended")
    case True
    then show ?thesis using qh_joined [OF that(2)] by blast
  next
    case False
    then have "qh_pc h \<notin> {HT_None, HT_Ended}" using that by (auto simp: handler_join_ok_def)
    from qh_thread [OF this] show ?thesis by blast
  qed
  fix h m t
  assume "qt_handler_step h m t" "handler_join_ok h" "qh_user h = HU_Joining"
  then have "handler_join_ok t \<and> handler_join_rank t < handler_join_rank h"
    by (cases m) (auto simp: handler_join_ok_def handler_join_rank_def qt_handler_ops)
  then show "handler_join_ok t" "handler_join_rank t < handler_join_rank h" by simp_all
qed

section \<open>The server\<close>

text \<open>
  The listening thread: not there, before its first section, serving, returned because
  \<open>listen\<close> failed. A thread that returned is still joinable: assigning a new one to it calls
  \<open>std::terminate\<close>.
\<close>

datatype listening = LT_None | LT_Begin | LT_Serving | LT_Returned

datatype server_user = SU_Out | SU_Wait | SU_Terminated

record qt_server =
  qs_state :: start_state
  qs_thread :: listening
  qs_user :: server_user
  qs_port :: u16
  qs_result :: "bool option"

definition qt_server_init :: qt_server where
  "qt_server_init = \<lparr>qs_state = QS_IDLE, qs_thread = LT_None, qs_user = SU_Out, qs_port = 0, qs_result = None\<rparr>"

definition qt_server_start :: "u16 \<Rightarrow> qt_server \<Rightarrow> qt_server" where
  "qt_server_start port s =
     (let s1 = s\<lparr>qs_port := port\<rparr>
      in if port = 0 then s1\<lparr>qs_result := Some False\<rparr>
         else if qs_thread s = LT_None then s1\<lparr>qs_state := QS_STARTING, qs_thread := LT_Begin, qs_user := SU_Wait, qs_result := None\<rparr>
         else s1\<lparr>qs_state := QS_STARTING, qs_user := SU_Terminated\<rparr>)"

definition qt_server_start_over :: "qt_server \<Rightarrow> qt_server" where
  "qt_server_start_over s = s\<lparr>qs_user := SU_Out, qs_result := Some (qs_state s = QS_RUNNING)\<rparr>"

definition qt_listening_thread :: "bool \<Rightarrow> qt_server \<Rightarrow> qt_server" where
  "qt_listening_thread ok s =
     (if ok then s\<lparr>qs_state := QS_RUNNING, qs_thread := LT_Serving\<rparr> else s\<lparr>qs_state := QS_IDLE, qs_thread := LT_Returned\<rparr>)"

text \<open>\<open>stop\<close> joins the thread; it does not touch the state.\<close>

definition qt_server_stop :: "qt_server \<Rightarrow> qt_server" where
  "qt_server_stop s = s\<lparr>qs_thread := LT_None\<rparr>"

datatype qt_start_move = QStart u16 | QStartOver | QListen bool | QStop

inductive qt_start_step :: "qt_server \<Rightarrow> qt_start_move \<Rightarrow> qt_server \<Rightarrow> bool" where
  qs_start: "qs_user s = SU_Out \<Longrightarrow> qt_start_step s (QStart port) (qt_server_start port s)"
| qs_start_over: "qs_user s = SU_Wait \<Longrightarrow> qt_start_step s QStartOver (qt_server_start_over s)"
| qs_listen: "qs_thread s = LT_Begin \<Longrightarrow> qt_start_step s (QListen ok) (qt_listening_thread ok s)"
| qs_stop: "qs_user s = SU_Out \<Longrightarrow> qs_thread s \<noteq> LT_Begin \<Longrightarrow> qt_start_step s QStop (qt_server_stop s)"

inductive_simps qt_start_step_simps [simp]:
  "qt_start_step s (QStart port) t" "qt_start_step s QStartOver t" "qt_start_step s (QListen ok) t" "qt_start_step s QStop t"

lemmas qt_server_ops = qt_server_start_def qt_server_start_over_def qt_listening_thread_def qt_server_stop_def

definition qt_server_ok :: "qt_server \<Rightarrow> bool" where
  "qt_server_ok s \<longleftrightarrow>
     (qs_user s \<noteq> SU_Terminated \<longrightarrow>
       (qs_thread s = LT_Serving \<longrightarrow> qs_state s = QS_RUNNING) \<and> (qs_thread s = LT_Returned \<longrightarrow> qs_state s = QS_IDLE) \<and>
       (qs_thread s = LT_Begin \<longrightarrow> qs_state s = QS_STARTING) \<and> (qs_user s = SU_Wait \<longrightarrow> qs_thread s \<noteq> LT_None))"

lemma qt_start_step_ok: "qt_start_step s m t \<Longrightarrow> qt_server_ok s \<Longrightarrow> qt_server_ok t"
  by (cases m) (auto simp: qt_server_ok_def qt_server_ops Let_def)

interpretation qt_server: invariant_system qt_server_init qt_start_step qt_server_ok
  by unfold_locales (use qt_start_step_ok in \<open>auto simp: qt_server_ok_def qt_server_init_def\<close>)

section \<open>Properties\<close>

text \<open>
  \<open>stop\<close> of a handler that was started ends: whatever happened before, if \<open>start\<close> answered yes,
  the join after \<open>stop\<close> is over after at most three steps of the thread and the user, in whatever
  order they come, and until then there is a next one. It can hang only after a \<open>start\<close> whose
  time limit passed before the thread began: then the thread sets the state to running after
  \<open>stop\<close> set it to stopping, and its loop looks at nothing else.
\<close>

theorem qt_handler_stop:
  "(\<forall>ms h ns t. run qt_handler_step qt_handler_init ms h \<and> qh_user h = HU_Out \<and> qh_result h = Some True \<and>
      run (\<lambda>u m v. qh_user u = HU_Joining \<and> qt_handler_step u m v) (qt_handler_stop h) ns t \<longrightarrow>
      length ns \<le> 3 \<and> (if qh_user t = HU_Joining then \<exists>m u. qt_handler_step t m u else qh_pc t = HT_None)) \<and>
   (\<exists>ms h. run qt_handler_step qt_handler_init ms h \<and> qh_user h = HU_Joining \<and> qh_result h = Some False \<and>
      (\<forall>n. run qt_handler_step h (replicate n (HThread True False)) h))"
proof (intro conjI allI impI)
  fix ms h ns t
  assume a: "run qt_handler_step qt_handler_init ms h \<and> qh_user h = HU_Out \<and> qh_result h = Some True \<and>
      run (\<lambda>u m v. qh_user u = HU_Joining \<and> qt_handler_step u m v) (qt_handler_stop h) ns t"
  then have "qt_handler_ok h" using qt_handler.inv_reached by blast
  then have "handler_join_ok (qt_handler_stop h)" "handler_join_rank (qt_handler_stop h) \<le> 3"
    using a by (auto simp: qt_handler_ok_def qt_handler_stop_def handler_join_ok_def handler_join_rank_def)
  then have "handler_join_ok t \<and> length ns \<le> 3 \<and> (qh_user t = HU_Joining \<longrightarrow> (\<exists>m u. qt_handler_step t m u))"
    using handler_join.wait_ends [of "qt_handler_stop h" ns t] a by auto
  then show "length ns \<le> 3" "if qh_user t = HU_Joining then \<exists>m u. qt_handler_step t m u else qh_pc t = HT_None"
    by (auto simp: handler_join_ok_def)
next
  let ?ms = "[HStart, HStartOver, HStop, HThread True False, HThread True False]"
  obtain h where h: "run qt_handler_step qt_handler_init ?ms h" "qh_user h = HU_Joining" "qh_pc h = HT_Loop" "qh_state h = QS_RUNNING" "qh_result h = Some False"
    by (simp add: qt_handler_ops qt_handler_init_def)
  have "qt_handler_thread True False h = h" using h(3,4) by (simp add: qt_handler_thread_def)
  then have "run qt_handler_step h (replicate n (HThread True False)) h" for n by (induction n) (simp_all add: h(3))
  with h show "\<exists>ms h. run qt_handler_step qt_handler_init ms h \<and> qh_user h = HU_Joining \<and> qh_result h = Some False \<and>
      (\<forall>n. run qt_handler_step h (replicate n (HThread True False)) h)" by blast
qed

theorem qt_handler_stop_witness:
  "\<exists>h t. run qt_handler_step qt_handler_init [HStart, HThread True False, HStartOver] h \<and>
     run (\<lambda>u m v. qh_user u = HU_Joining \<and> qt_handler_step u m v) (qt_handler_stop h) [HThread True False, HThread True False, HJoined] t \<and>
     qh_pc t = HT_None"
proof -
  obtain h where h: "run qt_handler_step qt_handler_init [HStart, HThread True False, HStartOver] h" "qh_user h = HU_Out" "qh_result h = Some True"
    "qh_pc h = HT_Open"
    by (simp add: qt_handler_ops qt_handler_init_def)
  let ?ns = "[HThread True False, HThread True False, HJoined]"
  have "\<exists>t. run (\<lambda>u m v. qh_user u = HU_Joining \<and> qt_handler_step u m v) (qt_handler_stop h) ?ns t \<and> qh_user t = HU_Out"
    using h(4) by (simp add: run_Cons) (simp add: qt_handler_ops)
  then obtain t where t: "run (\<lambda>u m v. qh_user u = HU_Joining \<and> qt_handler_step u m v) (qt_handler_stop h) ?ns t" "qh_user t = HU_Out" by blast
  have "qh_pc t = HT_None"
    using conjunct1 [OF qt_handler_stop, rule_format, of "[HStart, HThread True False, HStartOver]" h ?ns t] h(1-3) t by simp
  with h(1) t(1) show ?thesis by blast
qed

text \<open>
  A handler whose thread could not take over the client's descriptor: \<open>start\<close> answers yes all the
  same, the thread has ended, and the client's end is never reported.
\<close>

theorem handler_of_lost_descriptor:
  "\<exists>ms h. run qt_handler_step qt_handler_init ms h \<and> qh_result h = Some True \<and> qh_pc h = HT_Ended \<and>
     (\<forall>ns t. run qt_handler_step h ns t \<and> HStart \<notin> set ns \<longrightarrow> \<not> qh_gone t)"
proof -
  obtain h where h: "run qt_handler_step qt_handler_init [HStart, HThread True False, HStartOver, HThread False False] h"
    "qh_result h = Some True" "qh_pc h = HT_Ended" "\<not> qh_gone h"
    by (simp add: qt_handler_ops qt_handler_init_def)
  have "\<not> qh_gone t" if "run qt_handler_step u ns t" "HStart \<notin> set ns" "\<not> qh_gone u" "qh_pc u \<in> {HT_None, HT_Ended}" for u ns t
    using that
  proof (induction rule: run.induct)
    case (run_cons s m t ns u)
    have "\<not> qh_gone t \<and> qh_pc t \<in> {HT_None, HT_Ended}"
      using run_cons.hyps(1) run_cons.prems by (cases m) (auto simp: qt_handler_ops)
    then show ?case using run_cons by simp
  qed simp
  then show ?thesis using h by blast
qed

text \<open>
  \<open>start\<close> of the server answers yes only when the server listens, and after a \<open>start\<close> that could
  not listen, because the port is taken, the next \<open>start\<close> without a \<open>stop\<close> in between ends the
  program.
\<close>

theorem failed_start_is_fatal:
  assumes "run qt_start_step qt_server_init ms s" "qs_user s = SU_Wait"
  shows "(qs_result (qt_server_start_over s) = Some True \<longleftrightarrow> qs_thread s = LT_Serving) \<and>
    (qs_thread s = LT_Returned \<longrightarrow> port \<noteq> 0 \<longrightarrow> qs_user (qt_server_start port (qt_server_start_over s)) = SU_Terminated)"
proof -
  have "qt_server_ok s" using qt_server.inv_reached [OF assms(1)] .
  then show ?thesis using assms(2) by (cases "qs_thread s") (auto simp: qt_server_ok_def qt_server_ops Let_def)
qed

theorem failed_start_is_fatal_witness:
  "\<exists>s. run qt_start_step qt_server_init [QStart 80, QListen False] s \<and> qs_user (qt_server_start 81 (qt_server_start_over s)) = SU_Terminated"
proof -
  obtain s where s: "run qt_start_step qt_server_init [QStart 80, QListen False] s" "qs_user s = SU_Wait" "qs_thread s = LT_Returned"
    by (simp add: run_Cons qt_server_ops qt_server_init_def)
  from failed_start_is_fatal [OF s(1,2), of 81] s show ?thesis by auto
qed

end
