(* ===== verification/ClientHandling.thy ===== *)
theory ClientHandling
  imports DriverReceive ThreadWorker SocketWrite
begin

text \<open>
  \<open>sw/Drivers/source/ClientHandler.cpp\<close>: a client of the server with its thread. The thread is
  a ThreadWorker (theory ThreadWorker) whose rounds are those of the receive loops (theory
  DriverReceive); \<open>start\<close>, \<open>stop\<close> and the destructor only pass the call on to it.
\<close>

section \<open>State and steps\<close>

record client_handler =
  ch_worker :: thread_worker
  ch_client_id :: int
  ch_mode :: DataMode
  ch_buffer :: recv_buffer
  ch_events :: "handler_event list"

definition new_handler :: "int \<Rightarrow> DataMode \<Rightarrow> nat \<Rightarrow> client_handler" where
  "new_handler client_id mode cap =
     \<lparr>ch_worker = worker_init, ch_client_id = client_id, ch_mode = mode, ch_buffer = empty_buffer cap, ch_events = []\<rparr>"

definition handler_start :: "client_handler \<Rightarrow> client_handler" where
  "handler_start h = h\<lparr>ch_worker := worker_start (ch_worker h)\<rparr>"

definition handler_stop :: "client_handler \<Rightarrow> client_handler" where
  "handler_stop h = h\<lparr>ch_worker := worker_stop (ch_worker h)\<rparr>"

text \<open>What one round receives: an answer, and after a whole header that of the payload.\<close>

fun one_round :: "DataMode \<Rightarrow> recv_reply list \<Rightarrow> bool" where
  "one_round NEW_LINE_DELIMITER rs \<longleftrightarrow> length rs = 1"
| "one_round PAYLOAD_HEADER [] \<longleftrightarrow> False"
| "one_round PAYLOAD_HEADER (h # rs) \<longleftrightarrow> length rs = (if reply_count h = int HEADER_SIZE then 1 else 0)"

text \<open>A round of the thread, and whether it leaves the loop, which it does after telling of the client's end.\<close>

definition handler_round :: "recv_reply list \<Rightarrow> client_handler \<Rightarrow> (bool \<times> client_handler) res" where
  "handler_round rs h =
     (let told = (\<lambda>es. h\<lparr>ch_events := ch_events h @ es\<rparr>); c = ch_client_id h
      in case ch_mode h of
           NEW_LINE_DELIMITER \<Rightarrow>
             (let (es, b) = handler_delimiter_mode c rs (ch_buffer h)
              in Inr (CLIENT_DISCONNECTED c \<in> set es, (told es)\<lparr>ch_buffer := b\<rparr>))
         | PAYLOAD_HEADER \<Rightarrow>
             mapE (\<lambda>(es, bs). (CLIENT_DISCONNECTED c \<in> set es, (told es)\<lparr>ch_buffer := (ch_buffer h)\<lparr>rb_data := bs\<rparr>\<rparr>))
               (handler_header_mode c rs (rb_data (ch_buffer h))))"

text \<open>A step of the owner or of the thread; a round that writes behind the buffer has no next state.\<close>

datatype handler_move = Work worker_move | Recv "recv_reply list"

inductive handler_step :: "client_handler \<Rightarrow> handler_move \<Rightarrow> client_handler \<Rightarrow> bool" where
  hs_work: "\<lbrakk>worker_step (ch_worker h) m w; \<forall>l. m = Execute l \<longrightarrow> tw_thread (ch_worker h) \<noteq> T_Round\<rbrakk> \<Longrightarrow>
    handler_step h (Work m) (h\<lparr>ch_worker := w\<rparr>)"
| hs_recv: "\<lbrakk>tw_thread (ch_worker h) = T_Round; one_round (ch_mode h) rs; handler_round rs h = Inr (leave, g)\<rbrakk> \<Longrightarrow>
    handler_step h (Recv rs) (g\<lparr>ch_worker := execute_step leave (ch_worker h)\<rparr>)"

inductive_simps handler_step_simps [simp]: "handler_step h (Work m) g" "handler_step h (Recv rs) g"

inductive_cases handler_stepE: "handler_step h m g"

text \<open>The owner's calls are such steps.\<close>

lemma owner_calls:
  "tw_owner (ch_worker h) = O_Out \<Longrightarrow> handler_step h (Work Start) (handler_start h)"
  "tw_owner (ch_worker h) = O_Out \<Longrightarrow> handler_step h (Work Stop) (handler_stop h)"
  by (simp_all add: handler_start_def handler_stop_def)

fun replies :: "handler_move list \<Rightarrow> recv_reply list" where
  "replies [] = []"
| "replies (Recv rs # ms) = rs @ replies ms"
| "replies (Work m # ms) = replies ms"

lemma replies_append [simp]: "replies (ms @ ns) = replies ms @ replies ns"
  by (induction ms rule: replies.induct) simp_all

section \<open>A handler is a thread worker\<close>

lemma round_keeps: "handler_round rs h = Inr (leave, g) \<Longrightarrow> ch_worker g = ch_worker h \<and> ch_client_id g = ch_client_id h \<and> ch_mode g = ch_mode h"
  by (auto simp: handler_round_def Let_def mapE_Inr_iff split: DataMode.splits prod.splits)

lemma step_keeps: "handler_step h m g \<Longrightarrow> ch_client_id g = ch_client_id h \<and> ch_mode g = ch_mode h"
  by (cases rule: handler_stepE) (auto dest: round_keeps)

lemma step_worker:
  assumes "handler_step h m g"
  shows "\<exists>n. worker_step (ch_worker h) n (ch_worker g)"
  using assms
proof (cases rule: handler_step.cases)
  case (hs_recv rs leave k)
  then have "worker_step (ch_worker h) (Execute leave) (execute_step leave (ch_worker h))" by simp
  then show ?thesis unfolding hs_recv(2) by (auto simp del: worker_step_simps)
qed auto

lemma runs_worker: "run handler_step h ms g \<Longrightarrow> \<exists>ns. run worker_step (ch_worker h) ns (ch_worker g)"
  by (induction rule: run.induct) (blast intro: run.intros dest: step_worker)+

lemma wait_worker:
  "run (\<lambda>s m t. tw_owner (ch_worker s) = O_Joining \<and> handler_step s m t) h ms g \<Longrightarrow>
   \<exists>ns. run (\<lambda>s m t. tw_owner s = O_Joining \<and> worker_step s m t) (ch_worker h) ns (ch_worker g) \<and> length ns = length ms"
proof (induction rule: run.induct)
  case (run_cons h m g ms k)
  then obtain n ns where "worker_step (ch_worker h) n (ch_worker g)" "length ns = length ms"
    "run (\<lambda>s m t. tw_owner s = O_Joining \<and> worker_step s m t) (ch_worker g) ns (ch_worker k)"
    using step_worker by blast
  then show ?case using run_cons.hyps(1) by (intro exI [of _ "n # ns"]) (auto intro: run.intros)
qed (auto intro: run.intros)

text \<open>
  Where the worker can go on, so can the handler: when it waits for data, \<open>recv\<close> gives up after
  its timeout. The server sets that timeout on its listening socket; that the system hands it on
  to the sockets of accepted clients, as Linux does, is what the model relies on.
\<close>

lemma round_total: "one_round mode [Failed]" "ch_mode h = mode \<Longrightarrow> \<exists>g. handler_round [Failed] h = Inr (False, g)"
  by (cases mode; simp add: handler_round_def HEADER_SIZE_def)+

lemma worker_progress:
  assumes "worker_step (ch_worker h) m w"
  shows "\<exists>n g. handler_step h n g"
proof (cases "tw_thread (ch_worker h) = T_Round")
  case True
  then show ?thesis using hs_recv [of h "[Failed]"] round_total by blast
next
  case False
  then show ?thesis using hs_work [OF assms] by blast
qed

section \<open>What a stopping handler still receives\<close>

definition in_round :: "client_handler \<Rightarrow> nat" where
  "in_round h = (if tw_thread (ch_worker h) = T_Round then 1 else 0)"

lemma wait_receives:
  "run (\<lambda>s m t. tw_owner (ch_worker s) = O_Joining \<and> handler_step s m t) h ms g \<Longrightarrow> join_ok (ch_worker h) \<Longrightarrow>
   length (filter (\<lambda>m. \<exists>rs. m = Recv rs) ms) + in_round g \<le> in_round h"
proof (induction rule: run.induct)
  case (run_cons h m g ms k)
  then have j: "tw_owner (ch_worker h) = O_Joining" "handler_step h m g" by simp_all
  then have "join_ok (ch_worker g)" using step_worker join.wait_inv run_cons.prems by blast
  moreover have "(if \<exists>rs. m = Recv rs then 1 else 0) + in_round g \<le> in_round h"
    using j(2)
  proof (cases rule: handler_step.cases)
    case (hs_work n w)
    then show ?thesis using j(1) run_cons.prems
      by (cases n) (auto simp: in_round_def worker_ops join_ok_def split: thread_pc.splits)
  next
    case (hs_recv rs leave k)
    then show ?thesis by (auto simp: in_round_def execute_step_def)
  qed
  ultimately show ?case using run_cons.IH by (auto split: if_splits)
qed simp

section \<open>What a handler delivers\<close>

lemma delimiter_append:
  "\<forall>r \<in> set rs. reply_count r \<noteq> 0 \<Longrightarrow>
   handler_delimiter_mode c (rs @ qs) b =
     (fst (handler_delimiter_mode c rs b) @ fst (handler_delimiter_mode c qs (snd (handler_delimiter_mode c rs b))),
      snd (handler_delimiter_mode c qs (snd (handler_delimiter_mode c rs b))))"
  by (induction rs arbitrary: b) (simp_all add: case_prod_unfold Let_def)

text \<open>The rounds of the thread, taken together, are the loop on all that was received.\<close>

definition follows_loop :: "int \<Rightarrow> nat \<Rightarrow> handler_move list \<Rightarrow> client_handler \<Rightarrow> bool" where
  "follows_loop c cap ms h \<longleftrightarrow>
     ch_mode h = NEW_LINE_DELIMITER \<and> ch_client_id h = c \<and>
     ((\<forall>r \<in> set (butlast (replies ms)). reply_count r \<noteq> 0) \<longrightarrow>
        (ch_events h, ch_buffer h) = handler_delimiter_mode c (replies ms) (empty_buffer cap))"

interpretation delivering: traced_system "new_handler c NEW_LINE_DELIMITER cap" handler_step "follows_loop c cap" for c cap
proof unfold_locales
  show "follows_loop c cap [] (new_handler c NEW_LINE_DELIMITER cap)" by (simp add: follows_loop_def new_handler_def)
  fix h m g ms
  assume step: "handler_step h m g" and inv: "follows_loop c cap ms h"
  show "follows_loop c cap (ms @ [m]) g"
    using step
  proof (cases rule: handler_step.cases)
    case (hs_recv rs leave k)
    then obtain r where r: "rs = [r]" using inv by (auto simp: follows_loop_def length_Suc_conv)
    have k: "ch_mode k = NEW_LINE_DELIMITER" "ch_client_id k = c" using round_keeps [OF hs_recv(5)] inv by (simp_all add: follows_loop_def)
    have b: "\<forall>q \<in> set (butlast (replies ms)). reply_count q \<noteq> 0" if "\<forall>q \<in> set (replies ms). reply_count q \<noteq> 0"
      using that in_set_butlastD by fast
    have "(ch_events k, ch_buffer k) = handler_delimiter_mode c (replies ms @ [r]) (empty_buffer cap)"
      if all: "\<forall>q \<in> set (replies ms). reply_count q \<noteq> 0"
    proof -
      have "(ch_events h, ch_buffer h) = handler_delimiter_mode c (replies ms) (empty_buffer cap)"
        using inv b [OF all] by (simp add: follows_loop_def)
      then have h: "ch_events h = fst (handler_delimiter_mode c (replies ms) (empty_buffer cap))"
        "ch_buffer h = snd (handler_delimiter_mode c (replies ms) (empty_buffer cap))"
        by (metis fst_conv, metis snd_conv)
      show ?thesis
        unfolding delimiter_append [OF all]
        using hs_recv(5) inv by (simp add: r handler_round_def follows_loop_def Let_def case_prod_unfold h [symmetric] del: handler_delimiter_mode.simps)
          (auto simp del: handler_delimiter_mode.simps)
    qed
    then show ?thesis using k hs_recv(1,2) r by (simp add: follows_loop_def butlast_append)
  qed (use inv in \<open>simp add: follows_loop_def\<close>)
qed

text \<open>Whatever the client sends, a round that waits for it can take it.\<close>

lemma round_goes_on:
  assumes "tw_thread (ch_worker h) = T_Round" "ch_mode h = NEW_LINE_DELIMITER" "reply_count r \<noteq> 0"
  shows "\<exists>g. handler_step h (Recv [r]) g \<and> ch_mode g = NEW_LINE_DELIMITER \<and> ch_worker g = execute_step False (ch_worker h)"
proof -
  have "CLIENT_DISCONNECTED (ch_client_id h) \<notin> set (fst (handler_delimiter_mode (ch_client_id h) [r] b))" for b
    using assms(3) by (auto simp: handler_data_def case_prod_unfold Let_def)
  then obtain g where g: "handler_round [r] h = Inr (False, g)"
    using assms(2) by (auto simp: handler_round_def case_prod_unfold Let_def simp del: handler_delimiter_mode.simps)
  then show ?thesis using hs_recv [of h "[r]" False g] assms(1,2) round_keeps [OF g] by auto
qed

section \<open>Properties\<close>

text \<open>
  C35. A client's handler stops, if \<open>recv\<close> returns: whatever was done before, in both modes, once its thread has
  begun, the join in \<open>stop\<close> is over after at most four further steps, of which at most one
  receives anything; until then there always is a next step. So after \<open>stop\<close> no more than
  one answer of \<open>recv\<close> is told to the server.
\<close>

theorem handler_stops:
  "\<lbrakk>run handler_step (new_handler c mode cap) ms h; tw_owner (ch_worker h) = O_Out; tw_thread (ch_worker h) \<notin> {T_None, T_Begin}\<rbrakk> \<Longrightarrow>
   handler_step h (Work Stop) (handler_stop h) \<and>
   (\<forall>ns g. run (\<lambda>s m t. tw_owner (ch_worker s) = O_Joining \<and> handler_step s m t) (handler_stop h) ns g \<longrightarrow>
      length ns \<le> 4 \<and> length (filter (\<lambda>m. \<exists>rs. m = Recv rs) ns) \<le> 1 \<and>
      (tw_owner (ch_worker g) = O_Joining \<longrightarrow> (\<exists>m k. handler_step g m k)))"
proof -
  assume a: "run handler_step (new_handler c mode cap) ms h" "tw_owner (ch_worker h) = O_Out" "tw_thread (ch_worker h) \<notin> {T_None, T_Begin}"
  obtain ns where w: "run worker_step worker_init ns (ch_worker h)" using runs_worker [OF a(1)] by (auto simp: new_handler_def)
  then have "worker_ok (ch_worker h)" using worker.inv_reached a(2) by fastforce
  then have j: "join_ok (ch_worker (handler_stop h))" using stop_waits a(2,3) by (simp add: handler_stop_def)
  have "length ns \<le> 4 \<and> length (filter (\<lambda>m. \<exists>rs. m = Recv rs) ns) \<le> 1 \<and> (tw_owner (ch_worker g) = O_Joining \<longrightarrow> (\<exists>m k. handler_step g m k))"
    if "run (\<lambda>s m t. tw_owner (ch_worker s) = O_Joining \<and> handler_step s m t) (handler_stop h) ns g" for ns g
  proof -
    note r = that
    obtain ws where ws: "run (\<lambda>s m t. tw_owner s = O_Joining \<and> worker_step s m t) (worker_stop (ch_worker h)) ws (ch_worker g)" "length ws = length ns"
      using wait_worker [OF r] by (auto simp: handler_stop_def)
    then have "length ws \<le> 4" "tw_owner (ch_worker g) = O_Joining \<longrightarrow> (\<exists>m u. worker_step (ch_worker g) m u)"
      using stop_returns [OF w a(2,3)] by blast+
    moreover have "length (filter (\<lambda>m. \<exists>rs. m = Recv rs) ns) \<le> 1" using wait_receives [OF r j] by (auto simp: in_round_def split: if_splits)
    ultimately show ?thesis using ws(2) worker_progress by metis
  qed
  then show ?thesis using owner_calls(2) [OF a(2)] by blast
qed

theorem handler_stops_witness:
  "\<exists>h. run handler_step (new_handler 7 NEW_LINE_DELIMITER 4) [Work Start, Work (Execute False), Work StartOver, Work (Execute False)] h \<and>
     handler_step h (Work Stop) (handler_stop h) \<and>
     (\<forall>ns g. run (\<lambda>s m t. tw_owner (ch_worker s) = O_Joining \<and> handler_step s m t) (handler_stop h) ns g \<longrightarrow> length ns \<le> 4)"
proof -
  define h where "h = (new_handler 7 NEW_LINE_DELIMITER 4)\<lparr>ch_worker := \<lparr>tw_state = TS_RUNNING, tw_thread = T_Round, tw_owner = O_Out, tw_result = True\<rparr>\<rparr>"
  have r: "run handler_step (new_handler 7 NEW_LINE_DELIMITER 4) [Work Start, Work (Execute False), Work StartOver, Work (Execute False)] h"
    by (simp add: run_Cons new_handler_def worker_init_def worker_ops h_def)
  from handler_stops [OF r] show ?thesis using r by (auto simp: h_def)
qed

text \<open>
  A handler in new-line mode tells the server exactly the lines its client has sent,
  complete and in order, however they were cut and however the calls of \<open>start\<close> and
  \<open>stop\<close> interleave with the thread; and, when the client has closed, its end, once and last.
\<close>

theorem handler_tells_lines:
  "\<lbrakk>run handler_step (new_handler c NEW_LINE_DELIMITER cap) ms h; replies ms = map Received cs @ (if closed then [Closed] else []);
    chunks_fit cs (empty_buffer cap); lines_fit cap (concat cs)\<rbrakk> \<Longrightarrow>
   ch_events h = map (handler_data c) (fst (split_lines (concat cs))) @ (if closed then [CLIENT_DISCONNECTED c] else [])"
proof -
  assume a: "run handler_step (new_handler c NEW_LINE_DELIMITER cap) ms h" "replies ms = map Received cs @ (if closed then [Closed] else [])"
    "chunks_fit cs (empty_buffer cap)" "lines_fit cap (concat cs)"
  have "\<forall>r \<in> set (map Received cs). reply_count r \<noteq> 0" using handler_lines.chunks_nonempty [OF a(3)] by auto
  moreover have "set (butlast (replies ms)) \<subseteq> set (map Received cs)"
    unfolding a(2) using in_set_butlastD [where xs = "map Received cs"] by (cases closed) (auto simp: butlast_append)
  ultimately have "\<forall>r \<in> set (butlast (replies ms)). reply_count r \<noteq> 0" by blast
  then have "ch_events h = fst (handler_delimiter_mode c (replies ms) (empty_buffer cap))"
    using delivering.trace_reached [OF a(1)] by (metis follows_loop_def fst_conv)
  then show ?thesis using handler_lines.delivers_lines [OF a(3,4), of c "if closed then [Closed] else []"] unfolding a(2)
    by (cases closed) (simp_all add: Let_def)
qed

theorem handler_tells_lines_witness:
  "\<exists>h. run handler_step (new_handler 7 NEW_LINE_DELIMITER 4)
     [Work Start, Work (Execute False), Work StartOver, Work (Execute False), Recv [Received [65]], Work (Execute False), Recv [Received [10, 66]]] h \<and>
     ch_events h = [DATA_RECEIVED 7 [65, 10] 2]"
proof -
  let ?opening = "[Work Start, Work (Execute False), Work StartOver, Work (Execute False)]"
  let ?rounds = "[Recv [Received [65]], Work (Execute False), Recv [Received [10, 66]]]"
  define h0 where "h0 = (new_handler 7 NEW_LINE_DELIMITER 4)\<lparr>ch_worker := \<lparr>tw_state = TS_RUNNING, tw_thread = T_Round, tw_owner = O_Out, tw_result = True\<rparr>\<rparr>"
  have h0: "run handler_step (new_handler 7 NEW_LINE_DELIMITER 4) ?opening h0" "tw_thread (ch_worker h0) = T_Round" "ch_mode h0 = NEW_LINE_DELIMITER"
    by (simp_all add: run_Cons new_handler_def worker_init_def worker_ops h0_def)
  obtain h1 where h1: "handler_step h0 (Recv [Received [65]]) h1" "ch_mode h1 = NEW_LINE_DELIMITER" "ch_worker h1 = execute_step False (ch_worker h0)"
    using round_goes_on [OF h0(2,3), of "Received [65]"] by auto
  define h2 where "h2 = h1\<lparr>ch_worker := execute_step False (ch_worker h1)\<rparr>"
  have h2: "handler_step h1 (Work (Execute False)) h2" "tw_thread (ch_worker h2) = T_Round" "ch_mode h2 = NEW_LINE_DELIMITER"
    using h1(2,3) by (simp_all add: h2_def h0_def execute_step_def tw_isRunning_def)
  obtain h where "handler_step h2 (Recv [Received [10, 66]]) h"
    using round_goes_on [OF h2(2,3), of "Received [10, 66]"] by auto
  then have "run handler_step h0 ?rounds h" using h1(1) h2(1) by (blast intro: run.intros)
  then have "run handler_step (new_handler 7 NEW_LINE_DELIMITER 4) (?opening @ ?rounds) h" using h0(1) by (auto simp only: run_append)
  note h = this [unfolded append_Cons append_Nil]
  have fit: "chunks_fit [[65], [10, 66]] (empty_buffer 4)" by code_simp
  have lines: "lines_fit 4 (concat [[65], [10, 66]])" "fst (split_lines (concat [[65], [10, 66]])) = [[65, 10]]" by code_simp+
  show ?thesis using handler_tells_lines [OF h, of "[[65], [10, 66]]" False] fit lines h by (auto simp: handler_data_def)
qed

end
