(* ===== verification/MainWindow.thy ===== *)
theory MainWindow
  imports SettingsHandler CppText
begin

text \<open>
  \<open>sw/MainApplication/public/ui_MainWindow.h\<close>: what the main window is made of. A widget is the
  name of its object; the window keeps the lists the controller reads (buttons, filters, ports),
  the tabs, the cells of the grids, the shortcuts, the texts and the palettes. Sizes, margins,
  alignments and policies of Qt are left out.
\<close>

section \<open>The window\<close>

datatype color_role = RoleWindow | RoleWindowText | RoleText | RoleBase | RoleButton | RoleButtonText

type_synonym palette = "color_role \<rightharpoonup> u32"

text \<open>An object in a grid: its row and column, and how many of them it covers.\<close>

record placed =
  object_name :: string
  at_row :: nat
  at_col :: nat
  row_span :: nat
  col_span :: nat

record window =
  win_buttons :: "string list"
  win_filters :: "(string \<times> string) list"
  win_ports :: "(string \<times> string \<times> string) list"
  win_tabs :: "string list"
  win_grids :: "string \<Rightarrow> placed list"
  win_shortcuts :: "(string \<times> string) list"
  win_texts :: "string \<rightharpoonup> string"
  win_palettes :: "string \<Rightarrow> palette"
  win_theme :: int

definition new_window :: window where
  "new_window =
     \<lparr>win_buttons = [], win_filters = [], win_ports = [], win_tabs = [], win_grids = (\<lambda>g. []), win_shortcuts = [],
      win_texts = Map.empty, win_palettes = (\<lambda>n. Map.empty), win_theme = 0\<rparr>"

definition cell :: "string \<Rightarrow> nat \<Rightarrow> nat \<Rightarrow> nat \<Rightarrow> nat \<Rightarrow> placed" where
  "cell name r c rows cols = \<lparr>object_name = name, at_row = r, at_col = c, row_span = rows, col_span = cols\<rparr>"

definition add_widgets :: "string \<Rightarrow> placed list \<Rightarrow> window \<Rightarrow> window" where
  "add_widgets grid ps w = w\<lparr>win_grids := (win_grids w)(grid := win_grids w grid @ ps)\<rparr>"

section \<open>The parts of the window\<close>

text \<open>What a box or a splitter holds is one column; a widget added to a splitter again moves to its end.\<close>

definition column :: "string list \<Rightarrow> placed list" where
  "column ns = map (\<lambda>i. cell (ns ! i) i 0 1 1) [0..<length ns]"

definition setupMainApplicationLayout :: "window \<Rightarrow> window" where
  "setupMainApplicationLayout w =
     add_widgets ''mainLayout'' (column [''controlButtonsWidget'', ''mainWindowSplitter''])
       (add_widgets ''mainWindowSplitter'' (column [''buttonsTabWidget'', ''terminalWidget'', ''traceWidget'', ''portsWidget'']) w)"

definition setupControlButtonsWidget :: "window \<Rightarrow> window" where
  "setupControlButtonsWidget =
     add_widgets ''controlButtonsLayout''
       [cell ''markerButton'' 0 0 1 1, cell ''loggingButton'' 0 1 1 1, cell ''settingsButton'' 0 2 1 1, cell ''infoLabel'' 0 4 1 1]"

definition setupTerminalWidget :: "window \<Rightarrow> window" where
  "setupTerminalWidget =
     add_widgets ''terminalLayout''
       [cell ''clearButton'' 0 0 1 3, cell ''bottomButton'' 0 3 1 2, cell ''portComboBox'' 2 0 1 1, cell ''textEdit'' 2 1 1 2,
        cell ''lineEndingComboBox'' 2 3 1 1, cell ''sendButton'' 2 4 1 1, cell ''terminalView'' 1 0 1 5]"

definition setupTraceWidget :: "window \<Rightarrow> window" where
  "setupTraceWidget w =
     add_widgets ''traceFiltersLayout''
       [cell ''traceFilter_0'' 0 0 1 1, cell ''traceFilter_1'' 1 0 1 1, cell ''traceFilter_2'' 2 0 1 1, cell ''traceFilter_3'' 3 0 1 1,
        cell ''traceFilter_4'' 4 0 1 1, cell ''traceFilter_5'' 5 0 1 1, cell ''traceFilter_6'' 6 0 1 1,
        cell ''traceFilterButton_0'' 0 1 1 1, cell ''traceFilterButton_1'' 1 1 1 1, cell ''traceFilterButton_2'' 2 1 1 1,
        cell ''traceFilterButton_3'' 3 1 1 1, cell ''traceFilterButton_4'' 4 1 1 1, cell ''traceFilterButton_5'' 5 1 1 1,
        cell ''traceFilterButton_6'' 6 1 1 1]
       (add_widgets ''traceViewLayout''
         [cell ''traceClearButton'' 0 0 1 1, cell ''traceBottomButton'' 0 1 1 1, cell ''traceView'' 1 0 1 2]
         (add_widgets ''traceWidgetLayout'' (column [''traceViewAndFiltersSplitter''])
           (add_widgets ''traceViewAndFiltersSplitter'' (column [''traceViewWidget'', ''traceFiltersWidget'']) w)))"

definition setupPortsWidget :: "window \<Rightarrow> window" where
  "setupPortsWidget =
     add_widgets ''portsWidgetLayout''
       [cell ''portButton_0'' 0 0 1 1, cell ''portButton_1'' 0 1 1 1, cell ''portButton_2'' 0 2 1 1, cell ''portButton_3'' 0 3 1 1,
        cell ''portButton_4'' 0 4 1 1,
        cell ''portLabel_0'' 1 0 1 1, cell ''portLabel_1'' 1 1 1 1, cell ''portLabel_2'' 1 2 1 1, cell ''portLabel_3'' 1 3 1 1,
        cell ''portLabel_4'' 1 4 1 1,
        cell ''portThroughput_0'' 2 0 1 1, cell ''portThroughput_1'' 2 1 1 1, cell ''portThroughput_2'' 2 2 1 1,
        cell ''portThroughput_3'' 2 3 1 1, cell ''portThroughput_4'' 2 4 1 1]"

text \<open>A tab of user buttons: the counts of rows and buttons are cut to a byte, their product is an int.\<close>

definition user_button_name :: "u8 \<Rightarrow> u8 \<Rightarrow> u8 \<Rightarrow> nat \<Rightarrow> nat \<Rightarrow> string" where
  "user_button_name index rows per_row i j =
     ''BUTTON'' @ to_string (unat index * unat rows * unat per_row + i * unat per_row + j)"

definition user_tab_cells :: "u8 \<Rightarrow> u8 \<Rightarrow> u8 \<Rightarrow> placed list" where
  "user_tab_cells index rows per_row =
     concat (map (\<lambda>i. map (\<lambda>j. cell (user_button_name index rows per_row i j) i j 1 1) [0..<unat per_row]) [0..<unat rows])"

definition add_user_tab :: "u8 \<Rightarrow> u8 \<Rightarrow> u8 \<Rightarrow> window \<Rightarrow> window" where
  "add_user_tab index rows per_row w =
     (let cells = user_tab_cells index rows per_row;
          tab = ''BUTTONS'' @ to_string (unat index);
          w1 = add_widgets tab cells w
      in w1\<lparr>win_buttons := win_buttons w1 @ map object_name cells, win_tabs := win_tabs w1 @ [tab]\<rparr>)"

definition createUserButtonTab :: "u8 \<Rightarrow> window \<times> 'l settings \<Rightarrow> (window \<times> 'l settings) res" where
  "createUserButtonTab index = (\<lambda>(w, s).
     bindE (getU32 GUI_UserButtons_RowsPerTab s) (\<lambda>(rows, s1).
     mapE (\<lambda>(per_row, s2). (add_user_tab index (ucast rows) (ucast per_row) w, s2))
       (getU32 GUI_UserButtons_ButtonsPerRow s1)))"

definition setupUserButtonsWidget :: "window \<times> 'l settings \<Rightarrow> (window \<times> 'l settings) res" where
  "setupUserButtonsWidget = (\<lambda>(w, s).
     bindE (getU32 GUI_UserButtons_Tabs s) (\<lambda>(tabs, s1).
     foldE createUserButtonTab (map word_of_nat [0..<unat (ucast tabs :: u8)]) (w, s1)))"

definition setupKeyboardShortcuts :: "window \<Rightarrow> window" where
  "setupKeyboardShortcuts w =
     w\<lparr>win_shortcuts :=
        [(''loggingButtonShortcut'', ''F2''), (''markerButtonShortcut'', ''Ctrl+M''), (''port0ButtonShortcut'', ''Ctrl+1''),
         (''port1ButtonShortcut'', ''Ctrl+2''), (''port2ButtonShortcut'', ''Ctrl+3''), (''port3ButtonShortcut'', ''Ctrl+4''),
         (''port4ButtonShortcut'', ''Ctrl+5''), (''clearButtonShortcut'', ''F3''), (''traceClearButtonShortcut'', ''F4''),
         (''switchSendPortShortcut'', ''F1'')]\<rparr>"

definition translations_of :: "(string \<times> string) list" where
  "translations_of =
     [(''MainWindow'', ''MainWindow''), (''infoLabel'', []), (''markerButton'', ''MARKER''), (''loggingButton'', ''LOG''),
      (''settingsButton'', ''SETTINGS''), (''sendButton'', ''SEND''), (''bottomButton'', ''BOTTOM''), (''clearButton'', ''CLEAR''),
      (''traceClearButton'', ''CLEAR''), (''traceBottomButton'', ''BOTTOM''), (''traceFilterButton_0'', ''ACTIVE''),
      (''traceFilterButton_1'', ''ACTIVE''), (''traceFilterButton_2'', ''ACTIVE''), (''traceFilterButton_3'', ''ACTIVE''),
      (''traceFilterButton_4'', ''ACTIVE''), (''traceFilterButton_5'', ''ACTIVE''), (''traceFilterButton_6'', ''ACTIVE''),
      (''portButton_0'', ''PORT0''), (''portButton_1'', ''PORT1''), (''portButton_2'', ''PORT2''), (''portButton_3'', ''PORT3''),
      (''portButton_4'', ''PORT4''), (''portLabel_0'', []), (''portLabel_1'', []), (''portLabel_2'', []), (''portLabel_3'', []),
      (''portLabel_4'', []), (''portThroughput_0'', []), (''portThroughput_1'', []), (''portThroughput_2'', []),
      (''portThroughput_3'', []), (''portThroughput_4'', [])]"

definition retranslateUi :: "window \<Rightarrow> window" where
  "retranslateUi w = w\<lparr>win_texts := fold (\<lambda>(n, t) m. m(n \<mapsto> t)) translations_of (win_texts w)\<rparr>"

section \<open>The lists the controller reads\<close>

definition fixed_buttons :: "string list" where
  "fixed_buttons =
     [''markerButton'', ''loggingButton'', ''settingsButton'', ''sendButton'', ''bottomButton'', ''clearButton'', ''traceClearButton'',
      ''traceBottomButton'', ''traceFilterButton_0'', ''traceFilterButton_1'', ''traceFilterButton_2'', ''traceFilterButton_3'',
      ''traceFilterButton_4'', ''traceFilterButton_5'', ''traceFilterButton_6'', ''portButton_0'', ''portButton_1'', ''portButton_2'',
      ''portButton_3'', ''portButton_4'']"

definition window_filter_items :: "(string \<times> string) list" where
  "window_filter_items =
     [(''traceFilter_0'', ''traceFilterButton_0''), (''traceFilter_1'', ''traceFilterButton_1''), (''traceFilter_2'', ''traceFilterButton_2''),
      (''traceFilter_3'', ''traceFilterButton_3''), (''traceFilter_4'', ''traceFilterButton_4''), (''traceFilter_5'', ''traceFilterButton_5''),
      (''traceFilter_6'', ''traceFilterButton_6'')]"

definition window_port_items :: "(string \<times> string \<times> string) list" where
  "window_port_items =
     [(''portThroughput_0'', ''portLabel_0'', ''portButton_0''), (''portThroughput_1'', ''portLabel_1'', ''portButton_1''),
      (''portThroughput_2'', ''portLabel_2'', ''portButton_2''), (''portThroughput_3'', ''portLabel_3'', ''portButton_3''),
      (''portThroughput_4'', ''portLabel_4'', ''portButton_4'')]"

definition register_items :: "window \<Rightarrow> window" where
  "register_items w =
     w\<lparr>win_buttons := win_buttons w @ fixed_buttons, win_filters := win_filters w @ window_filter_items, win_ports := win_ports w @ window_port_items\<rparr>"

definition setupUi :: "window \<times> 'l settings \<Rightarrow> (window \<times> 'l settings) res" where
  "setupUi = (\<lambda>(w, s).
     mapE (\<lambda>(w1, s1).
         (register_items (setupKeyboardShortcuts (retranslateUi (setupPortsWidget (setupTraceWidget (setupTerminalWidget w1))))), s1))
       (setupUserButtonsWidget (setupControlButtonsWidget (setupMainApplicationLayout w), s)))"

definition NUMBER_OF_PORTS :: u32 where
  "NUMBER_OF_PORTS = 5"

definition countTraceFilters :: "window \<Rightarrow> u32" where
  "countTraceFilters w = word_of_nat (length (win_filters w))"

definition countUserButtonsTabs :: "'l settings \<Rightarrow> (u32 \<times> 'l settings) res" where
  "countUserButtonsTabs s = getU32 GUI_UserButtons_Tabs s"

definition countUserButtonsPerTab :: "'l settings \<Rightarrow> (u32 \<times> 'l settings) res" where
  "countUserButtonsPerTab s =
     bindE (getU32 GUI_UserButtons_RowsPerTab s) (\<lambda>(rows, s1).
     mapE (\<lambda>(per_row, s2). (rows * per_row, s2)) (getU32 GUI_UserButtons_ButtonsPerRow s1))"

definition countUserButtons :: "'l settings \<Rightarrow> (u32 \<times> 'l settings) res" where
  "countUserButtons s =
     bindE (getU32 GUI_UserButtons_Tabs s) (\<lambda>(tabs, s1).
     bindE (getU32 GUI_UserButtons_RowsPerTab s1) (\<lambda>(rows, s2).
     mapE (\<lambda>(per_row, s3). (tabs * rows * per_row, s3)) (getU32 GUI_UserButtons_ButtonsPerRow s2)))"

section \<open>Themes\<close>

text \<open>
  \<open>QWidget::palette\<close>, the palette a widget is drawn with, is a parameter; \<open>setPalette\<close> sets
  its own. A colour made of a number is opaque.
\<close>

definition rgb_color :: "u32 \<Rightarrow> u32" where
  "rgb_color c = c OR 0xFF000000"

definition setPalette :: "palette \<Rightarrow> string \<Rightarrow> window \<Rightarrow> window" where
  "setPalette p n w = w\<lparr>win_palettes := (win_palettes w)(n := p)\<rparr>"

definition combobox_widgets :: "string list" where
  "combobox_widgets =
     [''portComboBox'', ''lineEndingComboBox'', ''portComboBox.view'', ''lineEndingComboBox.view'', ''textEdit'', ''textEdit.view'']"

definition themed_widgets :: "string list" where
  "themed_widgets =
     [''portComboBox'', ''portComboBox.view'', ''lineEndingComboBox'', ''lineEndingComboBox.view'', ''textEdit'', ''textEdit.view'',
      ''terminalView'', ''traceView'', ''MainWindow'', ''terminalView'']"

definition renderDarkTheme ::
  "(window \<Rightarrow> string \<Rightarrow> palette) \<Rightarrow> window \<times> 'l settings \<Rightarrow> (window \<times> 'l settings) res" where
  "renderDarkTheme palette_of = (\<lambda>(w, s).
     bindE (getU32 GUI_Dark_WindowBackground s) (\<lambda>(b, s1).
     bindE (getU32 GUI_Dark_TerminalBackground s1) (\<lambda>(tb, s2).
     mapE (\<lambda>(t, s3).
       let background = rgb_color b; terminal_background = rgb_color tb; txt = rgb_color t;
           combobox = [RoleWindow \<mapsto> background, RoleWindowText \<mapsto> txt, RoleText \<mapsto> txt];
           w1 = fold (setPalette combobox) combobox_widgets w;
           terminal = (palette_of w1 ''terminalView'')(RoleBase \<mapsto> terminal_background, RoleText \<mapsto> rgb_color 0);
           w2 = setPalette terminal ''traceView'' (setPalette terminal ''terminalView'' w1);
           main = (palette_of w2 ''MainWindow'')
             (RoleBase \<mapsto> terminal_background, RoleWindow \<mapsto> background, RoleWindowText \<mapsto> txt, RoleText \<mapsto> txt,
              RoleButton \<mapsto> background, RoleButtonText \<mapsto> txt)
       in (setPalette main ''terminalView'' (setPalette main ''MainWindow'' w2), s3))
       (getU32 GUI_Dark_WindowText s2))))"

definition renderDefaultTheme :: "window \<Rightarrow> window" where
  "renderDefaultTheme = fold (setPalette Map.empty) themed_widgets"

definition loadTheme :: "(window \<Rightarrow> string \<Rightarrow> palette) \<Rightarrow> int \<Rightarrow> window \<times> 'l settings \<Rightarrow> (window \<times> 'l settings) res" where
  "loadTheme palette_of theme = (\<lambda>(w, s).
     let w1 = w\<lparr>win_theme := theme\<rparr>
     in if theme = 0 then Inr (renderDefaultTheme w1, s)
        else if theme = 1 then renderDarkTheme palette_of (w1, s)
        else Inr (w1, s))"

section \<open>What the window holds\<close>

abbreviation (input) number_of :: "KeyID \<Rightarrow> 'l settings \<Rightarrow> u32" where
  "number_of k s \<equiv> the (m_u32_items s k)"

abbreviation tabs_byte :: "'l settings \<Rightarrow> u8" where
  "tabs_byte s \<equiv> ucast (number_of GUI_UserButtons_Tabs s)"

abbreviation rows_byte :: "'l settings \<Rightarrow> u8" where
  "rows_byte s \<equiv> ucast (number_of GUI_UserButtons_RowsPerTab s)"

abbreviation per_row_byte :: "'l settings \<Rightarrow> u8" where
  "per_row_byte s \<equiv> ucast (number_of GUI_UserButtons_ButtonsPerRow s)"

lemma button_keys [simp]:
  "key_type GUI_UserButtons_Tabs = ST_U32" "key_type GUI_UserButtons_RowsPerTab = ST_U32"
  "key_type GUI_UserButtons_ButtonsPerRow = ST_U32" "key_type GUI_Dark_WindowBackground = ST_U32"
  "key_type GUI_Dark_TerminalBackground = ST_U32" "key_type GUI_Dark_WindowText = ST_U32"
  by (simp_all add: key_type_def default_u32s_def)

text \<open>The cells of a grid, row by row, number an interval.\<close>

lemma grid_interval:
  "concat (map (\<lambda>i. map (\<lambda>j. f (b + i * c + j)) [0..<c]) [0..<r]) = map f [b..<b + r * c]" for b c r :: nat
proof (induction r)
  case (Suc r)
  have "map (\<lambda>j. f (b + r * c + j)) [0..<c] = map f (map (\<lambda>j. j + (b + r * c)) [0..<c])"
    by (simp add: add.commute)
  also have "map (\<lambda>j. j + (b + r * c)) [0..<c] = [b + r * c..<b + r * c + c]"
    using map_add_upt [of "b + r * c" c] by (simp add: add.commute)
  finally have "map (\<lambda>j. f (b + r * c + j)) [0..<c] = map f [b + r * c..<b + r * c + c]" .
  moreover have "[b..<b + Suc r * c] = [b..<b + r * c] @ [b + r * c..<b + r * c + c]"
    using upt_add_eq_append [of b "b + r * c" c] by (simp add: add.commute add.left_commute)
  ultimately show ?case using Suc by simp
qed simp

definition nth_button :: "nat \<Rightarrow> string" where
  "nth_button k = ''BUTTON'' @ to_string k"

lemma user_tab_names:
  "map object_name (user_tab_cells t r c) =
     map nth_button [unat t * (unat r * unat c)..<unat t * (unat r * unat c) + unat r * unat c]"
  using grid_interval [of nth_button "unat t * unat r * unat c" "unat c" "unat r"]
  by (simp add: user_tab_cells_def map_concat comp_def cell_def user_button_name_def nth_button_def mult.assoc)

lemma createUserButtonTab_typed:
  "settings_typed s \<Longrightarrow> createUserButtonTab i (w, s) = Inr (add_user_tab i (rows_byte s) (per_row_byte s) w, s)"
  by (simp add: createUserButtonTab_def typed_getU32)

lemma create_tabs_typed:
  "settings_typed s \<Longrightarrow>
   foldE createUserButtonTab is (w, s) = Inr (fold (\<lambda>i. add_user_tab i (rows_byte s) (per_row_byte s)) is w, s)"
  by (induction "is" arbitrary: w) (simp_all add: createUserButtonTab_typed)

lemma add_user_tabs:
  "n \<le> 256 \<Longrightarrow>
   win_buttons (fold (\<lambda>i. add_user_tab i r c) (map word_of_nat [0..<n]) w) = win_buttons w @ map nth_button [0..<n * (unat r * unat c)] \<and>
   win_tabs (fold (\<lambda>i. add_user_tab i r c) (map word_of_nat [0..<n]) w) = win_tabs w @ map (\<lambda>i. ''BUTTONS'' @ to_string i) [0..<n] \<and>
   win_filters (fold (\<lambda>i. add_user_tab i r c) (map word_of_nat [0..<n]) w) = win_filters w \<and>
   win_ports (fold (\<lambda>i. add_user_tab i r c) (map word_of_nat [0..<n]) w) = win_ports w"
proof (induction n)
  case (Suc n)
  have "[0..<n * (unat r * unat c)] @ [n * (unat r * unat c)..<n * (unat r * unat c) + unat r * unat c] = [0..<Suc n * (unat r * unat c)]"
    using upt_add_eq_append [of 0 "n * (unat r * unat c)" "unat r * unat c"] by (simp add: add.commute)
  then have "map nth_button [0..<Suc n * (unat r * unat c)] =
      map nth_button [0..<n * (unat r * unat c)] @ map nth_button [n * (unat r * unat c)..<n * (unat r * unat c) + unat r * unat c]"
    by (simp only: map_append [symmetric])
  with Suc show ?case
    by (simp add: add_user_tab_def add_widgets_def Let_def user_tab_names unat_byte del: mult_Suc)
qed simp

text \<open>What is left of the numbers of the settings after they were cut to bytes.\<close>

definition user_buttons_shown :: "'l settings \<Rightarrow> nat" where
  "user_buttons_shown s = unat (tabs_byte s) * (unat (rows_byte s) * unat (per_row_byte s))"

lemma window_lists:
  assumes "settings_typed s"
  shows "\<exists>w. setupUi (new_window, s) = Inr (w, s) \<and>
    win_buttons w = map nth_button [0..<user_buttons_shown s] @ fixed_buttons \<and>
    win_tabs w = map (\<lambda>i. ''BUTTONS'' @ to_string i) [0..<unat (tabs_byte s)] \<and> win_filters w = window_filter_items \<and> win_ports w = window_port_items"
proof -
  have n: "unat (tabs_byte s) \<le> 256" using unsigned_less [of "tabs_byte s", where 'a = nat] by simp
  show ?thesis
    using assms add_user_tabs [OF n, of "rows_byte s" "per_row_byte s"]
    by (simp add: setupUi_def setupUserButtonsWidget_def typed_getU32 create_tabs_typed register_items_def setupKeyboardShortcuts_def
        retranslateUi_def setupPortsWidget_def setupTraceWidget_def setupTerminalWidget_def add_widgets_def setupControlButtonsWidget_def
        setupMainApplicationLayout_def
        new_window_def user_buttons_shown_def)
qed

lemma nth_button_inj: "nth_button i = nth_button j \<longleftrightarrow> i = j"
  by (simp add: nth_button_def)

lemma nth_button_hd [simp]: "hd (nth_button i) = CHR ''B''"
  by (simp add: nth_button_def)

lemma fixed_buttons_facts:
  "distinct fixed_buttons" "length fixed_buttons = 20" "CHR ''B'' \<notin> hd ` set fixed_buttons"
  by (simp_all add: fixed_buttons_def)

lemma nth_button_not_fixed: "nth_button i \<notin> set fixed_buttons"
  using fixed_buttons_facts(3) imageI [of "nth_button i" "set fixed_buttons" hd] by auto

lemma window_names_distinct: "distinct (map nth_button [0..<n] @ fixed_buttons)"
  using nth_button_not_fixed fixed_buttons_facts(1) by (auto simp: distinct_map inj_on_def nth_button_inj)

section \<open>Grids\<close>

definition overlap :: "placed \<Rightarrow> placed \<Rightarrow> bool" where
  "overlap p q \<longleftrightarrow>
     at_row p < at_row q + row_span q \<and> at_row q < at_row p + row_span p \<and>
     at_col p < at_col q + col_span q \<and> at_col q < at_col p + col_span p"

definition apart :: "placed list \<Rightarrow> bool" where
  "apart ps \<longleftrightarrow> sorted_wrt (\<lambda>p q. \<not> overlap p q) ps"

lemma user_tab_apart: "apart (user_tab_cells t r c)"
proof -
  let ?row = "\<lambda>i. map (\<lambda>j. cell (user_button_name t r c i j) i j 1 1) [0..<unat c]"
  have row: "sorted_wrt (\<lambda>p q. \<not> overlap p q) (?row i)" for i
    by (auto simp: sorted_wrt_iff_nth_less overlap_def cell_def)
  have "sorted_wrt (\<lambda>p q. \<not> overlap p q) (concat (map ?row [0..<n]))" for n
  proof (induction n)
    case (Suc n)
    then show ?case using row by (auto simp: sorted_wrt_append overlap_def cell_def)
  qed simp
  then show ?thesis by (simp add: apart_def user_tab_cells_def)
qed

section \<open>Themes undone\<close>

lemma themed_combobox: "set combobox_widgets \<subseteq> set themed_widgets"
  "''terminalView'' \<in> set themed_widgets" "''traceView'' \<in> set themed_widgets" "''MainWindow'' \<in> set themed_widgets"
  by (auto simp: combobox_widgets_def themed_widgets_def)

lemma setPalettes:
  "win_palettes (fold (setPalette p) ns w) = (\<lambda>n. if n \<in> set ns then p else win_palettes w n)"
  by (induction ns arbitrary: w) (auto simp: setPalette_def)

lemma dark_theme_palettes:
  assumes "settings_typed s"
  shows "\<exists>w1. renderDarkTheme palette_of (w, s) = Inr (w1, s) \<and>
    win_palettes w1 ''terminalView'' RoleText = Some (rgb_color (number_of GUI_Dark_WindowText s)) \<and>
    (\<forall>n. n \<notin> set themed_widgets \<longrightarrow> win_palettes w1 n = win_palettes w n)"
proof -
  have c: "n \<noteq> ''terminalView'' \<and> n \<noteq> ''traceView'' \<and> n \<noteq> ''MainWindow'' \<and> n \<notin> set combobox_widgets" if "n \<notin> set themed_widgets" for n
    using that themed_combobox by blast
  have w: "win_palettes (setPalette p n v) = (win_palettes v)(n := p)" for p n v by (simp add: setPalette_def)
  show ?thesis using c by (simp add: renderDarkTheme_def typed_getU32 [OF assms] Let_def w setPalettes)
qed

text \<open>The default theme takes back every palette the dark one has set.\<close>

lemma default_theme_undoes_dark:
  assumes "settings_typed s" "win_palettes w = (\<lambda>n. Map.empty)" "loadTheme palette_of 1 (w, s) = Inr (w1, s1)"
    "loadTheme palette_of 0 (w1, s1) = Inr (w2, s2)"
  shows "win_palettes w2 = (\<lambda>n. Map.empty) \<and> s2 = s"
proof -
  obtain v where v: "renderDarkTheme palette_of (w\<lparr>win_theme := 1\<rparr>, s) = Inr (v, s)"
    "\<forall>n. n \<notin> set themed_widgets \<longrightarrow> win_palettes v n = win_palettes (w\<lparr>win_theme := 1\<rparr>) n"
    using dark_theme_palettes [OF assms(1)] by blast
  then have "w1 = v" "s1 = s" "w2 = renderDefaultTheme (v\<lparr>win_theme := 0\<rparr>)" "s2 = s"
    using assms(3,4) by (simp_all add: loadTheme_def)
  then show ?thesis using v(2) assms(2) by (simp add: renderDefaultTheme_def setPalettes fun_eq_iff)
qed

end
