(* ===== verification/ProgramStart.thy ===== *)
theory ProgramStart
  imports MainWindow ProgramPersistence
begin

text \<open>
  The start of the program, \<open>MainApplication::MainApplication\<close> with the window it builds
  (theory MainWindow): the window makes its buttons, and the application, the ports, the tabs of
  user buttons and the trace filters look theirs up by name.
\<close>

section \<open>The constructor\<close>














section \<open>Looking buttons up\<close>





section \<open>Creating the components\<close>










lemma throughput_key [simp]: "key_type Throughput_Calculation_Window = ST_U32"
  by (simp add: key_type_def default_u32s_def)












section \<open>Every button has its owner\<close>

















section \<open>Properties\<close>







end
