(* ===== verification/Spec2Isabelle.thy ===== *)
theory Spec2Isabelle
  imports Serialize LineFramer SocketWrite DriverReceive SocketLink SerialDriver
    Timers CommandsParser CommandsExecutor Persistence PortSettings Throughput Port
    TraceFilter UserButton GUIController FileLogger MainApplication AppPersistence SettingsHandler LoggerEngine
    ProgramPersistence Dialogs SettingsDialog Interleaving ThreadWorker ProcessDriver SocketServers ServerShutdown QtLink QtStart
    ClientHandling MainWindow ProgramStart
begin

text \<open>
  UltimateTerminal is a terminal for serial ports, sockets and processes: it connects to them,
  shows what they send in a terminal view, filters it into a trace view, logs it, and sends
  commands and scripts of user buttons to them. This development models the program in
  \<open>src/sw\<close> and proves what makes its parts correct. All paths below are relative to
  \<open>src/sw\<close>; each theory begins with the files it models.

  \<^bold>\<open>The parts and how they interact.\<close> \<open>main.cpp\<close> makes one \<open>MainApplication\<close>. Its constructor
  restores the settings, lets the GUI controller build the window, and makes the ports, the
  tabs of user buttons and the trace filters, which find their widgets by name. A click, a
  timer's expiry or a driver's event becomes a call of a handler of one of these objects; what
  they want shown goes back to the GUI controller, which runs in the GUI thread and queues the
  calls of other threads. A port owns a driver behind a proxy and two timers; a button owns an
  executor that runs its commands in a worker thread; drivers and servers own receiving
  threads. On closing, every object registered with the persistence writes its settings to one
  JSON document; on starting it reads them back.

  \<^bold>\<open>Theories.\<close> They follow the code's layers.

  \<^item> Prelude, CppText and Interleaving are the common ground: integer types, faults and results
    as \<open>fault + 'a\<close>, \<open>find_if\<close> and \<open>erase\<close>; \<open>getline\<close>, \<open>to_string\<close>, \<open>stoi\<close>; runs of
    interleaved steps.
  \<^item> Serialize (\<open>Serialize.hpp\<close>, \<open>SocketHeaderHandler.hpp\<close>), Timers (\<open>TimersImpl.cpp\<close>),
    ThreadWorker, Throughput and Persistence are the utilities.
  \<^item> LineFramer (the receive buffer), DriverReceive (the receive loops of all drivers) and
    SocketWrite (their write loops) are what one thread of a driver does. SocketLink,
    SerialDriver, ProcessDriver, QtLink, QtStart, ClientHandling, SocketServers and
    ServerShutdown put the threads of a driver together: the calls of its owner and the steps
    of its threads interleave.
  \<^item> SettingsHandler and LoggerEngine are the settings and the log of the program.
  \<^item> PortSettings, Port, TraceFilter, CommandsParser, CommandsExecutor, UserButton, FileLogger,
    GUIController and MainApplication are the application, with one definition per handler.
  \<^item> Dialogs and SettingsDialog are the dialogs: the values their widgets are given, the user's
    inputs, and the settings read back.
  \<^item> MainWindow and ProgramStart are the window of \<open>ui_MainWindow.h\<close> and the constructor that
    uses it; AppPersistence and ProgramPersistence are saving and restoring the application and
    the whole program.

  \<^bold>\<open>How state and operations correspond to the code.\<close> A class is a record with the fields of
  its members, named like them (a prefix where two classes share a name); an operation is a
  definition from the old state, and from what it is told, to the new one. What an object calls
  on another that is modelled elsewhere is appended to a list in its state (\<open>port_calls\<close>,
  \<open>widget_calls\<close>, \<open>notified\<close>, \<open>ch_events\<close> and so on), so that the order of the calls is part of
  what is proved. \<open>uint8_t\<close>, \<open>uint16_t\<close> and \<open>uint32_t\<close> are words of that width and wrap around;
  sizes of containers are natural numbers where the code cannot reach their limit; the floating
  point number of the throughput is an exact fraction. Exceptions, failed assertions and the
  undefined behaviours the code can reach (reading or writing outside a buffer, calling through
  a null pointer) are values of \<open>fault\<close>. A thread's code is cut at the places where
  another thread can see or change what it uses; a region that holds a mutex is one step, unless
  the mutexes themselves matter (ServerShutdown). A run is a list of labelled steps, and what is
  proved of all runs holds for every interleaving.

  \<^bold>\<open>Interfaces.\<close> Where one part relies on another, or several parts keep one contract, the
  contract is a locale that is interpreted on the code's own definitions.

  \<^item> \<open>persistent_module\<close> and \<open>keyed_module\<close> (Persistence): what a module must do to survive
    saving and restoring; kept by ports, filters, buttons, tabs, settings, logger, application,
    and by their sum, the whole program.
  \<^item> \<open>line_reader\<close> (DriverReceive): a receive loop that tells the lines of what it gets; kept by
    the socket client, the server's handlers, the serial driver, the Qt variants and, with the
    same framing, the process driver.
  \<^item> \<open>codec\<close> and \<open>codec_seq\<close> (Serialize): a serialisation that reads back what it wrote.
  \<^item> \<open>timer_service\<close> (Timers), \<open>listener_table\<close> (GUIController), \<open>log_sink\<close> (FileLogger),
    \<open>named_enum\<close> (PortSettings) and \<open>settings_form\<close> (Dialogs): the contracts a port, the GUI
    controller's users, the application, the settings of a port and the dialog of all settings
    rely on.
  \<^item> \<open>invariant_system\<close>, \<open>traced_system\<close> and \<open>bounded_wait\<close> (Interleaving): an invariant of
    all runs, an invariant that relates the state to the steps so far, and a wait in which every
    step lowers a rank and a step is always possible. Every model of threads is one of these.

  \<^bold>\<open>What is proved.\<close> Each property stands at the end of its theory after its text, with a
  concrete instance where it has hypotheses.

  \<^item> Ports: the invariant of state, driver, timers and colour under every event, that a port
    connects when it can, and that a closed one stays closed.
  \<^item> The application: what a line of a port does to views and log, the history of commands
    against a specification, the bound of the views, that every button of the window reaches
    the one object that owns it, and that scripts name existing ports.
  \<^item> Data paths: cutting a stream into packets does not change the lines that are told
    (LineFramer), which lifts to the socket client, the process, a handler and the server with
    all its threads.
  \<^item> Threads: what a driver owns is released (SocketLink, SerialDriver, SocketServers), and every
    \<open>stop\<close> and \<open>disconnect\<close> whose wait ends is shown to end by a rank (ThreadWorker,
    ClientHandling, ProcessDriver, SocketLink, QtLink, ServerShutdown).
  \<^item> Services: timers fire when due, each once, and keep distinct identifiers; the script of a
    button parses to its meaning, waits are split exactly, and an undisturbed execution ends.
  \<^item> Settings: they keep their types, survive a restart, are left alone by a dialog that is
    accepted untouched, and take what the user typed.
  \<^item> Errors: behaviours that the code has and that its authors would not want are theorems too,
    for example two orders of closing a server of which one can deadlock, requests that are lost
    when nobody waits, bursts into a full terminal, and a number of tabs that no start survives.

  \<^bold>\<open>Bounds.\<close> No model needs fuel: loops follow a list of answers of the operating system, or a
  measure (the length of the text in CommandsParser, the time left in a wait). Timer identifiers
  are distinct for fewer than 2 to the power of 30 operations. The names of saved modules are
  distinct for at most 256 ports, tabs, buttons and filters, the range of their 8-bit
  identifiers. The window and the application agree for fewer than 256 tabs and fewer than 256
  buttons in a tab. Buffers have an arbitrary capacity in the proofs; the code's is 4096 bytes.

  \<^bold>\<open>Parameters.\<close> Code that is not part of the program is an argument: system calls by their
  results (\<open>recv\<close>, \<open>send\<close>, \<open>read\<close>, \<open>open\<close>, \<open>tcgetattr\<close>, \<open>popen\<close>, \<open>epoll\<close>, \<open>kill\<close>), the clock,
  what Qt's widgets and sockets answer (\<open>qt_documented\<close> states what is used of the documented
  behaviour of the widgets), the dump and the parser of the JSON library (that parsing gives back
  what was dumped is a hypothesis of the theorems on saving), the matching of regular
  expressions, and the text \<open>printf\<close> makes of a log message.

  \<^bold>\<open>Not modelled.\<close> Sizes, margins, alignments and policies of widgets, the labels and palettes of
  dialogs, and the message dialog, which only shows a text. \<open>main.cpp\<close>, which enters Qt's event
  loop, and \<open>ApplicationExecutor.hpp\<close>, which the program does not use. \<open>printSettings\<close> and the
  log messages, which change nothing. The tests, their framework, stubs and remote procedure calls
  (\<open>src/testing\<close> and the \<open>test\<close> directories), the generators of test data (\<open>src/tools\<close>) and the
  libraries under \<open>src/ext_libs\<close>, which are not part of the program.
\<close>

end
